(* ===== verification/Prelude.thy ===== *)
theory Prelude
  imports Complex_Main "HOL-Library.Word" "HOL-Library.Multiset"
begin

text \<open>
  Shared vocabulary of the development: the widths of Rust's machine integers, the result
  type of fallible code, the slice and iterator operations of Rust's standard library that the
  sources use, and the collections of rewrite rules that the component theories add to.

  Conventions used throughout.
  \<^item> \<open>u8\<close>, \<open>u16\<close>, \<open>u32\<close> and \<open>u64\<close> are words of their width. The shipped binary is built with
    the release profile, in which integer arithmetic wraps; so does \<open>+\<close> on words. A
    \<open>usize\<close> that is a length or an index of a vector is a \<open>nat\<close>.
  \<^item> \<open>color_eyre::Report\<close> is the chain of its messages, outermost first; \<open>wrap_err\<close> adds one
    message in front.
  \<^item> A function of the sources that can return an error or panic has the result type
    \<open>('e, 'a) res\<close>: \<open>Ok\<close> and \<open>Err\<close> are Rust's \<open>Ok\<close> and \<open>Err\<close>, \<open>Panic\<close> is a panic with its
    message (a failed \<open>expect\<close>, \<open>unwrap\<close>, \<open>assert!\<close> or index). The operator \<open>?\<close> is \<open>and_then\<close>.
\<close>

section \<open>Machine integers and errors\<close>

type_synonym u8 = "8 word"
type_synonym u16 = "16 word"
type_synonym u32 = "32 word"
type_synonym u64 = "64 word"
type_synonym bytes = "u8 list"

type_synonym report = "string list"

datatype ('e, 'a) res = Ok 'a | Err 'e | Panic string

type_synonym 'a result = "(report, 'a) res"

named_theorems res_simps \<open>rewrite rules of the result combinators\<close>
named_theorems store_simps \<open>what a read returns after a write\<close>
named_theorems frame_simps \<open>fields that an operation leaves alone\<close>

fun and_then :: "('e, 'a) res \<Rightarrow> ('a \<Rightarrow> ('e, 'b) res) \<Rightarrow> ('e, 'b) res" where
  "and_then (Ok x) f = f x"
| "and_then (Err e) f = Err e"
| "and_then (Panic m) f = Panic m"

fun map_res :: "('a \<Rightarrow> 'b) \<Rightarrow> ('e, 'a) res \<Rightarrow> ('e, 'b) res" where
  "map_res f (Ok x) = Ok (f x)"
| "map_res f (Err e) = Err e"
| "map_res f (Panic m) = Panic m"

fun map_err :: "('e \<Rightarrow> 'f) \<Rightarrow> ('e, 'a) res \<Rightarrow> ('f, 'a) res" where
  "map_err f (Ok x) = Ok x"
| "map_err f (Err e) = Err (f e)"
| "map_err f (Panic m) = Panic m"

definition wrap_err :: "string \<Rightarrow> 'a result \<Rightarrow> 'a result" where
  "wrap_err m = map_err (\<lambda>e. m # e)"

fun ok_or :: "'e \<Rightarrow> 'a option \<Rightarrow> ('e, 'a) res" where
  "ok_or e None = Err e"
| "ok_or e (Some x) = Ok x"

fun is_ok :: "('e, 'a) res \<Rightarrow> bool" where
  "is_ok (Ok x) = True"
| "is_ok (Err e) = False"
| "is_ok (Panic m) = False"

text \<open>\<open>collect::<Result<Vec<_>>>()\<close> on a lazy iterator stops at the first failure.\<close>

fun collect_res :: "('e, 'a) res list \<Rightarrow> ('e, 'a list) res" where
  "collect_res [] = Ok []"
| "collect_res (r # rs) = and_then r (\<lambda>x. map_res (Cons x) (collect_res rs))"

text \<open>The text that \<open>{error:#}\<close> prints: the messages of the chain joined by \<open>": "\<close>.\<close>

fun report_text :: "report \<Rightarrow> string" where
  "report_text [] = ''''"
| "report_text [m] = m"
| "report_text (m # ms) = m @ '': '' @ report_text ms"

text \<open>Operations that change a state and may fail. The changes made before a failure stay.\<close>

type_synonym ('s, 'a) op = "'s \<Rightarrow> 'a result \<times> 's"

definition op_return :: "'a \<Rightarrow> ('s, 'a) op" where
  "op_return x s = (Ok x, s)"

definition op_lift :: "'a result \<Rightarrow> ('s, 'a) op" where
  "op_lift r s = (r, s)"

definition op_bind :: "('s, 'a) op \<Rightarrow> ('a \<Rightarrow> ('s, 'b) op) \<Rightarrow> ('s, 'b) op" where
  "op_bind m f s =
     (case m s of
        (Ok x, s') \<Rightarrow> f x s'
      | (Err e, s') \<Rightarrow> (Err e, s')
      | (Panic p, s') \<Rightarrow> (Panic p, s'))"

definition op_wrap_err :: "string \<Rightarrow> ('s, 'a) op \<Rightarrow> ('s, 'a) op" where
  "op_wrap_err msg m s = (case m s of (r, s') \<Rightarrow> (wrap_err msg r, s'))"

section \<open>Slices and vectors\<close>

fun find_position :: "('a \<Rightarrow> bool) \<Rightarrow> 'a list \<Rightarrow> nat option" where
  "find_position P [] = None"
| "find_position P (x # xs) = (if P x then Some 0 else map_option Suc (find_position P xs))"

text \<open>\<open>Vec::swap_remove(i)\<close>: the last element takes the place of element \<open>i\<close>.\<close>

definition swap_remove :: "nat \<Rightarrow> 'a list \<Rightarrow> 'a list" where
  "swap_remove i xs =
     (if i = length xs - 1 then butlast xs else butlast (xs[i := last xs]))"

definition remove_nth :: "nat \<Rightarrow> 'a list \<Rightarrow> 'a list" where
  "remove_nth i xs = take i xs @ drop (Suc i) xs"

definition insert_nth :: "nat \<Rightarrow> 'a \<Rightarrow> 'a list \<Rightarrow> 'a list" where
  "insert_nth i x xs = take i xs @ x # drop i xs"

text \<open>\<open>slice::chunks(n)\<close> and \<open>chunks_exact(n)\<close>. Both panic when \<open>n\<close> is zero; the callers
  check that first, and the functions below return the whole slice as one chunk there only to
  be total.\<close>

function chunks :: "nat \<Rightarrow> 'a list \<Rightarrow> 'a list list" where
  "chunks n xs =
     (if xs = [] then [] else if n = 0 then [xs] else take n xs # chunks n (drop n xs))"
  by pat_completeness auto
termination
  by (relation "measure (\<lambda>(n, xs). length xs)") auto

function chunks_exact :: "nat \<Rightarrow> 'a list \<Rightarrow> 'a list list" where
  "chunks_exact n xs =
     (if n = 0 \<or> length xs < n then [] else take n xs # chunks_exact n (drop n xs))"
  by pat_completeness auto
termination
  by (relation "measure (\<lambda>(n, xs). length xs)") auto

declare chunks.simps [simp del] chunks_exact.simps [simp del]

definition flatten_options :: "'a option list \<Rightarrow> 'a list" where
  "flatten_options xs = concat (map (\<lambda>x. case x of None \<Rightarrow> [] | Some y \<Rightarrow> [y]) xs)"

text \<open>The half-open range \<open>a..b\<close> of \<open>u32\<close> values.\<close>

definition range_u32 :: "u32 \<Rightarrow> u32 \<Rightarrow> u32 list" where
  "range_u32 a b = map word_of_nat [unat a ..< unat b]"

definition range_u64 :: "u64 \<Rightarrow> u64 \<Rightarrow> u64 list" where
  "range_u64 a b = map word_of_nat [unat a ..< unat b]"

text \<open>Reading and writing an element; Rust panics out of range.\<close>

definition index_res :: "'a list \<Rightarrow> nat \<Rightarrow> ('e, 'a) res" where
  "index_res xs i = (if i < length xs then Ok (xs ! i) else Panic ''index out of bounds'')"

definition set_index_res :: "'a list \<Rightarrow> nat \<Rightarrow> 'a \<Rightarrow> ('e, 'a list) res" where
  "set_index_res xs i v =
     (if i < length xs then Ok (xs[i := v]) else Panic ''index out of bounds'')"

section \<open>Lemmas on results\<close>

lemma and_then_eq_Ok [res_simps]:
  "and_then r f = Ok y \<longleftrightarrow> (\<exists>x. r = Ok x \<and> f x = Ok y)"
  by (cases r) auto

lemma and_then_eq_Err [res_simps]:
  "and_then r f = Err e \<longleftrightarrow> r = Err e \<or> (\<exists>x. r = Ok x \<and> f x = Err e)"
  by (cases r) auto

lemma map_res_eq_Ok [res_simps]: "map_res f r = Ok y \<longleftrightarrow> (\<exists>x. r = Ok x \<and> y = f x)"
  by (cases r) auto

lemma map_err_eq_Ok [res_simps]: "map_err f r = Ok y \<longleftrightarrow> r = Ok y"
  by (cases r) auto

lemma map_err_eq_Err [res_simps]: "map_err f r = Err e \<longleftrightarrow> (\<exists>e'. r = Err e' \<and> e = f e')"
  by (cases r) auto

lemma wrap_err_eq_Ok [res_simps]: "wrap_err m r = Ok y \<longleftrightarrow> r = Ok y"
  by (simp add: wrap_err_def res_simps)

lemma wrap_err_Ok [simp]: "wrap_err m (Ok y) = Ok y"
  by (simp add: wrap_err_def)

lemma wrap_err_Err [simp]: "wrap_err m (Err e) = Err (m # e)"
  by (simp add: wrap_err_def)

lemma wrap_err_Panic [simp]: "wrap_err m (Panic p) = Panic p"
  by (simp add: wrap_err_def)

lemma ok_or_eq_Ok [res_simps]: "ok_or e x = Ok y \<longleftrightarrow> x = Some y"
  by (cases x) auto

lemma ok_or_eq_Err [res_simps]: "ok_or e x = Err e' \<longleftrightarrow> x = None \<and> e = e'"
  by (cases x) auto

lemma is_ok_iff [res_simps]: "is_ok r \<longleftrightarrow> (\<exists>x. r = Ok x)"
  by (cases r) auto

lemma collect_res_map_Ok [simp]: "collect_res (map (\<lambda>x. Ok (f x)) xs) = Ok (map f xs)"
  by (induction xs) auto

lemma collect_res_eq_Ok: "collect_res rs = Ok xs \<longleftrightarrow> rs = map Ok xs"
proof (induction rs arbitrary: xs)
  case Nil
  show ?case by auto
next
  case (Cons r rs)
  show ?case by (cases r; cases xs) (auto simp: res_simps Cons.IH)
qed

lemma collect_res_length: "collect_res rs = Ok xs \<Longrightarrow> length xs = length rs"
  by (simp add: collect_res_eq_Ok)

lemma op_bind_eq_Ok [res_simps]:
  "op_bind m f s = (Ok y, s') \<longleftrightarrow> (\<exists>x s1. m s = (Ok x, s1) \<and> f x s1 = (Ok y, s'))"
  by (auto simp: op_bind_def split: prod.splits res.splits)

lemma op_lift_eq_Ok [res_simps]: "op_lift r s = (Ok y, s') \<longleftrightarrow> r = Ok y \<and> s' = s"
  by (auto simp: op_lift_def)

lemma op_return_eq [res_simps]: "op_return x s = (r, s') \<longleftrightarrow> r = Ok x \<and> s' = s"
  by (auto simp: op_return_def)

lemma op_wrap_err_eq_Ok [res_simps]: "op_wrap_err msg m s = (Ok y, s') \<longleftrightarrow> m s = (Ok y, s')"
  by (auto simp: op_wrap_err_def res_simps split: prod.splits)

lemma op_bind_Ok [simp]: "m s = (Ok x, s') \<Longrightarrow> op_bind m f s = f x s'"
  by (simp add: op_bind_def)

lemma op_lift_simps [simp]:
  "op_bind (op_lift (Ok x)) f s = f x s"
  "op_bind (op_lift (Err e)) f s = (Err e, s)"
  "op_bind (op_lift (Panic p)) f s = (Panic p, s)"
  "op_bind (op_return x) f s = f x s"
  by (simp_all add: op_bind_def op_lift_def op_return_def)

lemma snd_op_lift [simp]: "snd (op_lift r s) = s" "snd (op_return x s) = s"
  by (simp_all add: op_lift_def op_return_def)

text \<open>A relation between the states before and after that every part of a sequence keeps.\<close>

lemma op_bind_preserves:
  assumes "\<And>s. R s (snd (m s))" and "\<And>x s. R s (snd (f x s))" and "\<And>a b c. R a b \<Longrightarrow> R b c \<Longrightarrow> R a c"
  shows "R s (snd (op_bind m f s))"
proof -
  obtain r s1 where m: "m s = (r, s1)" by (cases "m s")
  have "R s s1" using assms(1) [of s] m by simp
  then show ?thesis using assms(2,3) m by (cases r) (auto simp: op_bind_def)
qed

section \<open>Lemmas on slices and vectors\<close>

lemma find_position_Some:
  "find_position P xs = Some i \<Longrightarrow>
     i < length xs \<and> P (xs ! i) \<and> (\<forall>j < i. \<not> P (xs ! j))"
proof (induction xs arbitrary: i)
  case Nil
  then show ?case by simp
next
  case (Cons x xs)
  show ?case
  proof (cases "P x")
    case True
    with Cons.prems show ?thesis by simp
  next
    case False
    with Cons.prems obtain k where k: "find_position P xs = Some k" "i = Suc k" by auto
    from Cons.IH [OF k(1)] False k(2) show ?thesis
      by (auto simp: less_Suc_eq_0_disj)
  qed
qed

lemma find_position_None: "find_position P xs = None \<longleftrightarrow> (\<forall>x \<in> set xs. \<not> P x)"
  by (induction xs) auto

lemma find_position_split:
  assumes "find_position P xs = Some i"
  shows "xs = take i xs @ xs ! i # drop (Suc i) xs \<and> P (xs ! i) \<and> (\<forall>x \<in> set (take i xs). \<not> P x)"
proof -
  from find_position_Some [OF assms]
  have i: "i < length xs" "P (xs ! i)" "\<And>j. j < i \<Longrightarrow> \<not> P (xs ! j)" by auto
  have "\<forall>x \<in> set (take i xs). \<not> P x"
    using i(1,3) by (auto simp: in_set_conv_nth)
  with i(1,2) show ?thesis by (simp add: id_take_nth_drop [symmetric])
qed

lemma mset_remove_nth: "i < length xs \<Longrightarrow> add_mset (xs ! i) (mset (remove_nth i xs)) = mset xs"
  unfolding remove_nth_def
  by (metis id_take_nth_drop mset.simps(2) mset_append union_mset_add_mset_right)

lemma mset_swap_remove:
  assumes "i < length xs"
  shows "add_mset (xs ! i) (mset (swap_remove i xs)) = mset xs"
proof -
  from assms obtain ys y where xs: "xs = ys @ [y]"
    by (metis length_0_conv less_nat_zero_code rev_exhaust)
  show ?thesis
  proof (cases "i = length xs - 1")
    case True
    with xs show ?thesis by (simp add: swap_remove_def)
  next
    case False
    with assms xs have i: "i < length ys" by simp
    with xs have "swap_remove i xs = ys[i := y]"
      by (simp add: swap_remove_def list_update_append nth_append)
    with i xs show ?thesis
      by (simp add: nth_append mset_update)
  qed
qed

lemma set_swap_remove_subset: "i < length xs \<Longrightarrow> set (swap_remove i xs) \<subseteq> set xs"
  using mset_swap_remove [of i xs] by (metis set_mset_mset set_mset_add_mset_insert subset_insertI)

lemma set_swap_remove: "i < length xs \<Longrightarrow> set xs = insert (xs ! i) (set (swap_remove i xs))"
  using mset_swap_remove [of i xs] by (metis set_mset_mset set_mset_add_mset_insert)

lemma distinct_map_swap_remove:
  assumes "i < length xs" and "distinct (map f xs)"
  shows "distinct (map f (swap_remove i xs))"
    and "f (xs ! i) \<notin> f ` set (swap_remove i xs)"
proof -
  have "mset (map f (xs ! i # swap_remove i xs)) = mset (map f xs)"
    using mset_swap_remove [OF assms(1)] by (simp flip: image_mset_add_mset)
  then have "distinct (map f (xs ! i # swap_remove i xs))"
    using assms(2) mset_eq_imp_distinct_iff by blast
  then show "distinct (map f (swap_remove i xs))" "f (xs ! i) \<notin> f ` set (swap_remove i xs)" by auto
qed

lemma length_swap_remove: "i < length xs \<Longrightarrow> length (swap_remove i xs) = length xs - 1"
  by (simp add: swap_remove_def)

lemma concat_chunks: "0 < n \<Longrightarrow> concat (chunks n xs) = xs"
proof (induction n xs rule: chunks.induct)
  case (1 n xs)
  then show ?case by (subst chunks.simps) auto
qed

lemma chunks_Nil [simp]: "chunks n [] = []"
  by (simp add: chunks.simps)

lemma chunks_exact_Nil [simp]: "0 < n \<Longrightarrow> chunks_exact n [] = []"
  by (simp add: chunks_exact.simps)

lemma chunks_length_le: "0 < n \<Longrightarrow> c \<in> set (chunks n xs) \<Longrightarrow> length c \<le> n \<and> c \<noteq> []"
proof (induction n xs rule: chunks.induct)
  case (1 n xs)
  then show ?case
    by (cases "xs = []") (auto simp: chunks.simps [of n xs])
qed

lemma chunks_exact_length: "c \<in> set (chunks_exact n xs) \<Longrightarrow> length c = n"
proof (induction n xs rule: chunks_exact.induct)
  case (1 n xs)
  then show ?case
    by (cases "n = 0 \<or> length xs < n") (auto simp: chunks_exact.simps [of n xs])
qed

lemma length_chunks_exact: "0 < n \<Longrightarrow> length (chunks_exact n xs) = length xs div n"
proof (induction n xs rule: chunks_exact.induct)
  case (1 n xs)
  then show ?case
    by (cases "length xs < n") (auto simp: chunks_exact.simps [of n xs] le_div_geq)
qed

lemma concat_chunks_exact:
  "0 < n \<Longrightarrow> n dvd length xs \<Longrightarrow> concat (chunks_exact n xs) = xs"
proof (induction n xs rule: chunks_exact.induct)
  case (1 n xs)
  show ?case
  proof (cases "length xs < n")
    case True
    with "1.prems" have "xs = []" by (auto dest: dvd_imp_le)
    then show ?thesis by (simp add: "1.prems")
  next
    case False
    with "1.prems" have "n dvd length (drop n xs)" by (simp add: dvd_diff_nat)
    with "1.IH" "1.prems" False have "concat (chunks_exact n (drop n xs)) = drop n xs" by auto
    with False "1.prems" show ?thesis by (simp add: chunks_exact.simps [of n xs])
  qed
qed

lemma flatten_options_simps [simp]:
  "flatten_options [] = []"
  "flatten_options (None # xs) = flatten_options xs"
  "flatten_options (Some x # xs) = x # flatten_options xs"
  "flatten_options (xs @ ys) = flatten_options xs @ flatten_options ys"
  by (simp_all add: flatten_options_def)

lemma set_flatten_options [simp]: "x \<in> set (flatten_options xs) \<longleftrightarrow> Some x \<in> set xs"
  by (induction xs) (auto simp: flatten_options_def split: option.splits)

lemma unat_u32_less [simp]: "unat (w :: u32) < 4294967296"
  using unsigned_less [of w] by simp

lemma unat_u8_less [simp]: "unat (w :: u8) < 256"
  using unsigned_less [of w] by simp

lemma unat_u32_of_nat: "n < 4294967296 \<Longrightarrow> unat (word_of_nat n :: u32) = n"
  by (simp add: unat_of_nat take_bit_nat_eq_self)

lemma set_range_u32: "x \<in> set (range_u32 a b) \<longleftrightarrow> a \<le> x \<and> x < b"
proof
  assume "x \<in> set (range_u32 a b)"
  then obtain n where n: "unat a \<le> n" "n < unat b" "x = word_of_nat n"
    by (auto simp: range_u32_def)
  have "n < 4294967296" using n(2) unat_u32_less [of b] by linarith
  then have "unat x = n" using n(3) by (simp add: unat_u32_of_nat)
  with n show "a \<le> x \<and> x < b" by (simp add: word_le_nat_alt word_less_nat_alt)
next
  assume "a \<le> x \<and> x < b"
  then have "unat a \<le> unat x" "unat x < unat b"
    by (simp_all add: word_le_nat_alt word_less_nat_alt)
  then show "x \<in> set (range_u32 a b)"
    unfolding range_u32_def by (auto intro!: image_eqI [of _ _ "unat x"])
qed

lemma range_u32_empty: "range_u32 a b = [] \<longleftrightarrow> b \<le> a"
  by (auto simp: range_u32_def word_le_nat_alt)

lemma range_u32_Cons:
  assumes "a < b"
  shows "range_u32 a b = a # range_u32 (a + 1) b"
proof -
  have ab: "unat a < unat b" using assms by (simp add: word_less_nat_alt)
  have "unat a + 1 < 4294967296" using ab unat_u32_less [of b] by linarith
  then have "unat (a + 1) = Suc (unat a)" by (simp add: unat_word_ariths)
  with ab show ?thesis by (simp add: range_u32_def upt_conv_Cons)
qed

lemma distinct_range_u32: "distinct (range_u32 a b)"
  unfolding range_u32_def distinct_map
proof
  show "inj_on (word_of_nat :: nat \<Rightarrow> u32) (set [unat a ..< unat b])"
  proof (rule inj_onI)
    fix x y assume "x \<in> set [unat a ..< unat b]" "y \<in> set [unat a ..< unat b]"
      and eq: "(word_of_nat x :: u32) = word_of_nat y"
    then have "x < 4294967296" "y < 4294967296" using unat_u32_less [of b] by (auto simp del: unat_u32_less)
    then show "x = y" using arg_cong [OF eq, of unat] by (simp add: unat_u32_of_nat)
  qed
qed simp

lemma index_res_eq_Ok [res_simps]:
  "(index_res xs i :: ('e, 'a) res) = Ok x \<longleftrightarrow> i < length xs \<and> x = xs ! i"
  by (auto simp: index_res_def)

lemma set_index_res_eq_Ok [res_simps]:
  "(set_index_res xs i v :: ('e, 'a list) res) = Ok ys \<longleftrightarrow> i < length xs \<and> ys = xs[i := v]"
  by (auto simp: set_index_res_def)

section \<open>Invariants of step relations\<close>

locale invariant_steps =
  fixes step :: "'s \<Rightarrow> 's \<Rightarrow> bool" and inv :: "'s \<Rightarrow> bool"
  assumes inv_step: "step s s' \<Longrightarrow> inv s \<Longrightarrow> inv s'"
begin

lemma inv_steps: "step\<^sup>*\<^sup>* s s' \<Longrightarrow> inv s \<Longrightarrow> inv s'"
  by (induction rule: rtranclp_induct) (auto intro: inv_step)

end

end
