(* ===== verification/Text_Format.thy ===== *)
theory Text_Format
  imports Prelude
begin

text \<open>
  The text operations of Rust's standard library that keys, versions, partitions and
  configuration values go through: printing an unsigned integer with \<open>{}\<close>, \<open>str::parse\<close> for
  the unsigned types, \<open>str::split\<close>, \<open>rsplit_once\<close>, \<open>to_lowercase\<close>, \<open>trim_start_matches\<close>,
  \<open>starts_with\<close> and \<open>truncate\<close>. A string is the list of its characters; all texts that the
  program formats itself are ASCII, and case conversion is modelled for ASCII letters.

  The lemmas show that parsing inverts printing and that splitting inverts joining when the
  separator does not occur in the parts. The round trips of the components rest on them.
\<close>

section \<open>Printing and parsing unsigned integers\<close>

definition digit_char :: "nat \<Rightarrow> char" where
  "digit_char d = (char_of (48 + d) :: char)"

fun show_nat :: "nat \<Rightarrow> string" where
  "show_nat n = (if n < 10 then [digit_char n] else show_nat (n div 10) @ [digit_char (n mod 10)])"

declare show_nat.simps [simp del]

definition digit_value :: "char \<Rightarrow> nat option" where
  "digit_value c =
     (if 48 \<le> (of_char c :: nat) \<and> of_char c \<le> (57 :: nat) then Some (of_char c - 48) else None)"

datatype int_error = EmptyInput | InvalidDigit | PosOverflow

fun int_error_text :: "int_error \<Rightarrow> string" where
  "int_error_text EmptyInput = ''cannot parse integer from empty string''"
| "int_error_text InvalidDigit = ''invalid digit found in string''"
| "int_error_text PosOverflow = ''number too large to fit in target type''"

fun parse_digits :: "nat \<Rightarrow> nat \<Rightarrow> string \<Rightarrow> (int_error, nat) res" where
  "parse_digits m acc [] = Ok acc"
| "parse_digits m acc (c # cs) =
     (case digit_value c of
        None \<Rightarrow> Err InvalidDigit
      | Some d \<Rightarrow> if m < acc * 10 + d then Err PosOverflow else parse_digits m (acc * 10 + d) cs)"

text \<open>\<open>str::parse::<uN>()\<close> with \<open>m = uN::MAX\<close>: one leading \<open>+\<close> is accepted.\<close>

definition parse_uint :: "nat \<Rightarrow> string \<Rightarrow> (int_error, nat) res" where
  "parse_uint m s =
     (case s of
        [] \<Rightarrow> Err EmptyInput
      | c # cs \<Rightarrow>
          if c = CHR ''+'' then (if cs = [] then Err InvalidDigit else parse_digits m 0 cs)
          else parse_digits m 0 s)"

definition parse_u8 :: "string \<Rightarrow> (int_error, u8) res" where
  "parse_u8 s = map_res word_of_nat (parse_uint 255 s)"

definition parse_u32 :: "string \<Rightarrow> (int_error, u32) res" where
  "parse_u32 s = map_res word_of_nat (parse_uint 4294967295 s)"

definition show_word :: "'a::len word \<Rightarrow> string" where
  "show_word w = show_nat (unat w)"

section \<open>Splitting, joining, trimming\<close>

fun split_on :: "char \<Rightarrow> string \<Rightarrow> string list" where
  "split_on d [] = [[]]"
| "split_on d (c # cs) =
     (if c = d then [] # split_on d cs
      else (case split_on d cs of [] \<Rightarrow> [[c]] | p # ps \<Rightarrow> (c # p) # ps))"

fun join_on :: "char \<Rightarrow> string list \<Rightarrow> string" where
  "join_on d [] = []"
| "join_on d [p] = p"
| "join_on d (p # ps) = p @ d # join_on d ps"

definition rsplit_once :: "char \<Rightarrow> string \<Rightarrow> (string \<times> string) option" where
  "rsplit_once d s =
     (if d \<in> set s
      then Some (butlast (rev (dropWhile (\<lambda>c. c \<noteq> d) (rev s))),
                 rev (takeWhile (\<lambda>c. c \<noteq> d) (rev s)))
      else None)"

definition starts_with :: "string \<Rightarrow> string \<Rightarrow> bool" where
  "starts_with s p \<longleftrightarrow> take (length p) s = p"

text \<open>\<open>trim_start_matches(p)\<close> strips the prefix as often as it occurs.\<close>

function trim_start_matches :: "string \<Rightarrow> string \<Rightarrow> string" where
  "trim_start_matches p s =
     (if p \<noteq> [] \<and> starts_with s p \<and> s \<noteq> [] then trim_start_matches p (drop (length p) s) else s)"
  by pat_completeness auto
termination
  by (relation "measure (\<lambda>(p, s). length s)") auto

declare trim_start_matches.simps [simp del]

definition lower_char :: "char \<Rightarrow> char" where
  "lower_char c =
     (if 65 \<le> (of_char c :: nat) \<and> of_char c \<le> (90 :: nat) then char_of (of_char c + 32 :: nat) else c)"

definition to_lowercase :: "string \<Rightarrow> string" where
  "to_lowercase s = map lower_char s"

fun contains_str :: "string \<Rightarrow> string \<Rightarrow> bool" where
  "contains_str p [] = (p = [])"
| "contains_str p (c # cs) = (starts_with (c # cs) p \<or> contains_str p cs)"

section \<open>Parsing inverts printing\<close>

lemma of_char_digit_char: "d < 10 \<Longrightarrow> (of_char (digit_char d) :: nat) = 48 + d"
  by (simp add: digit_char_def)

lemma digit_value_digit_char [simp]: "d < 10 \<Longrightarrow> digit_value (digit_char d) = Some d"
  by (simp add: digit_value_def of_char_digit_char)

lemma digit_char_neq: "d < 10 \<Longrightarrow> (of_char c :: nat) < 48 \<or> 57 < (of_char c :: nat) \<Longrightarrow> digit_char d \<noteq> c"
  using of_char_digit_char [of d] by auto

lemma show_nat_not_Nil [simp]: "show_nat n \<noteq> []"
  by (subst show_nat.simps) simp

lemma set_show_nat: "c \<in> set (show_nat n) \<Longrightarrow> \<exists>d < 10. c = digit_char d"
proof (induction n rule: show_nat.induct)
  case (1 n)
  then show ?case
    by (cases "n < 10") (auto simp: show_nat.simps [of n] intro: exI [of _ "n mod 10"])
qed

lemma show_nat_free:
  "(of_char c :: nat) < 48 \<or> 57 < (of_char c :: nat) \<Longrightarrow> c \<notin> set (show_nat n)"
  using set_show_nat digit_char_neq by blast

lemma parse_digits_append_digit:
  "parse_digits m acc xs = Ok v \<Longrightarrow> d < 10 \<Longrightarrow> v * 10 + d \<le> m \<Longrightarrow>
     parse_digits m acc (xs @ [digit_char d]) = Ok (v * 10 + d)"
  by (induction xs arbitrary: acc) (auto split: option.splits if_splits)

lemma parse_digits_show_nat: "n \<le> m \<Longrightarrow> parse_digits m 0 (show_nat n) = Ok n"
proof (induction n rule: show_nat.induct)
  case (1 n)
  show ?case
  proof (cases "n < 10")
    case True
    with "1.prems" show ?thesis by (simp add: show_nat.simps [of n])
  next
    case False
    have "n div 10 \<le> m" using "1.prems" by linarith
    with "1.IH" False have "parse_digits m 0 (show_nat (n div 10)) = Ok (n div 10)" by simp
    from parse_digits_append_digit [OF this, of "n mod 10"] "1.prems" False show ?thesis
      by (simp add: show_nat.simps [of n] div_mult_mod_eq)
  qed
qed

lemma parse_uint_show_nat: "n \<le> m \<Longrightarrow> parse_uint m (show_nat n) = Ok n"
proof -
  assume n: "n \<le> m"
  obtain c cs where c: "show_nat n = c # cs" by (cases "show_nat n") auto
  have "CHR ''+'' \<notin> set (show_nat n)" by (rule show_nat_free) simp
  then have "c \<noteq> CHR ''+''" using c by auto
  with c parse_digits_show_nat [OF n] show ?thesis by (simp add: parse_uint_def)
qed

lemma parse_digits_le: "parse_digits m acc s = Ok v \<Longrightarrow> acc \<le> m \<Longrightarrow> v \<le> m"
  by (induction s arbitrary: acc) (auto split: option.splits if_splits)

lemma parse_uint_le: "parse_uint m s = Ok v \<Longrightarrow> v \<le> m"
  unfolding parse_uint_def
  by (auto simp del: parse_digits.simps split: list.splits if_splits dest: parse_digits_le)

lemma parse_u8_show_word [simp]: "parse_u8 (show_word (w :: u8)) = Ok w"
proof -
  have "unat w \<le> 255" using unat_u8_less [of w] by linarith
  then show ?thesis by (simp add: parse_u8_def show_word_def parse_uint_show_nat)
qed

lemma parse_u32_show_word [simp]: "parse_u32 (show_word (w :: u32)) = Ok w"
proof -
  have "unat w \<le> 4294967295" using unat_u32_less [of w] by linarith
  then show ?thesis by (simp add: parse_u32_def show_word_def parse_uint_show_nat)
qed

lemma show_word_free:
  "(of_char c :: nat) < 48 \<or> 57 < (of_char c :: nat) \<Longrightarrow> c \<notin> set (show_word w)"
  by (simp add: show_word_def show_nat_free)

lemma show_nat_inj: "show_nat m = show_nat n \<longleftrightarrow> m = n"
proof
  assume "show_nat m = show_nat n"
  then have "parse_uint (max m n) (show_nat m) = parse_uint (max m n) (show_nat n)" by simp
  then show "m = n" by (simp add: parse_uint_show_nat)
qed simp

lemma show_word_inj [simp]: "show_word v = show_word w \<longleftrightarrow> v = w"
  by (simp add: show_word_def show_nat_inj word_unat_eq_iff)

section \<open>Splitting inverts joining\<close>

lemma split_on_not_Nil [simp]: "split_on d s \<noteq> []"
  by (induction s) (auto split: list.splits)

lemma split_on_free: "d \<notin> set s \<Longrightarrow> split_on d s = [s]"
  by (induction s) auto

lemma split_on_append: "d \<notin> set p \<Longrightarrow> split_on d (p @ d # s) = p # split_on d s"
  by (induction p) auto

lemma split_on_join_on:
  "ps \<noteq> [] \<Longrightarrow> (\<And>p. p \<in> set ps \<Longrightarrow> d \<notin> set p) \<Longrightarrow> split_on d (join_on d ps) = ps"
  by (induction d ps rule: join_on.induct) (auto simp: split_on_free split_on_append)

lemma join_on_split_on: "join_on d (split_on d s) = s"
proof (induction s)
  case Nil
  show ?case by simp
next
  case (Cons c s)
  obtain p ps where ps: "split_on d s = p # ps" by (cases "split_on d s") auto
  with Cons.IH show ?case by (cases ps) auto
qed

lemma split_on_part_free: "p \<in> set (split_on d s) \<Longrightarrow> d \<notin> set p"
  by (induction s arbitrary: p) (auto split: if_splits list.splits)

lemma to_lowercase_idem [simp]: "to_lowercase (to_lowercase s) = to_lowercase s"
proof -
  have "lower_char (lower_char c) = lower_char c" for c
  proof (cases "65 \<le> (of_char c :: nat) \<and> of_char c \<le> (90 :: nat)")
    case True
    then have "(of_char (lower_char c) :: nat) = of_char c + 32" by (simp add: lower_char_def)
    with True show ?thesis by (simp add: lower_char_def)
  next
    case False
    then show ?thesis by (auto simp: lower_char_def)
  qed
  then show ?thesis by (simp add: to_lowercase_def)
qed

lemma trim_start_matches_no_prefix:
  "p \<noteq> [] \<Longrightarrow> \<not> starts_with (trim_start_matches p s) p"
proof (induction p s rule: trim_start_matches.induct)
  case (1 p s)
  show ?case
  proof (cases "starts_with s p \<and> s \<noteq> []")
    case True
    with "1" show ?thesis by (simp add: trim_start_matches.simps [of p s])
  next
    case False
    then show ?thesis
      using "1.prems" by (auto simp: trim_start_matches.simps [of p s] starts_with_def)
  qed
qed

end
