(* ===== verification/Chain.thy ===== *)
theory Chain
  imports Text_Format
begin

text \<open>
  The data every client works on: headers with their extension and digest (as the sources use
  them), the messages between the clients, the shared \<open>State\<close> with its block ranges
  (\<open>src/types.rs\<close>), and the helpers of \<open>src/utils.rs\<close>.

  Code of the crates \<open>kate_recovery\<close>, \<open>avail_core\<close>, \<open>sp_core\<close> and \<open>codec\<close> is not part of
  the repository. The operations that the sources call are the fields of the record \<open>kate\<close>,
  and every definition that uses one of them takes the record as an argument; \<open>'dim\<close> stands for
  \<open>Dimensions\<close> and \<open>'lk\<close> for \<open>DataLookup\<close>. The public parameters are fixed, so the field
  \<open>proof_verify\<close> has them applied already.
\<close>

section \<open>Cells, positions and partitions\<close>

record position =
  pos_row :: u32
  pos_col :: u16

record cell =
  cell_position :: position
  cell_content :: bytes

record data_cell =
  dc_position :: position
  dc_data :: bytes

record partition =
  part_number :: u8
  part_fraction :: u8

type_synonym commitment = bytes
type_synonym h256 = "256 word"
type_synonym public_key = "256 word"
type_synonym app_data = "bytes list"

section \<open>Headers\<close>

record lookup_item =
  li_app_id :: u32
  li_start :: u32

record compact_lookup =
  cl_size :: u32
  cl_index :: "lookup_item list"

record kate_commitment =
  kc_rows :: u16
  kc_cols :: u16
  kc_data_root :: h256
  kc_commitment :: bytes

record v3_extension =
  v3_app_lookup :: compact_lookup
  v3_commitment :: kate_commitment

datatype header_extension = V3 v3_extension

datatype digest_item = Consensus string bytes | OtherDigest

datatype consensus_log =
    ScheduledChange "(public_key \<times> u64) list"
  | ForcedChange u32 "(public_key \<times> u64) list"
  | OtherLog

record header =
  h_parent_hash :: h256
  h_number :: u32
  h_state_root :: h256
  h_extrinsics_root :: h256
  h_digest :: "digest_item list"
  h_extension :: header_extension

datatype runtime_call = SubmitData bytes | OtherCall

section \<open>Operations of other crates\<close>

record ('dim, 'lk) kate =
  hash_of :: "header \<Rightarrow> h256"
  decode_consensus :: "bytes \<Rightarrow> consensus_log option"
  dimensions_new :: "u16 \<Rightarrow> u16 \<Rightarrow> 'dim option"
  dim_rows :: "'dim \<Rightarrow> u16"
  dim_cols :: "'dim \<Rightarrow> u16"
  dim_width :: "'dim \<Rightarrow> nat"
  extended_rows :: "'dim \<Rightarrow> u32"
  extended_size :: "'dim \<Rightarrow> u32"
  partition_positions :: "'dim \<Rightarrow> partition \<Rightarrow> position list"
  extended_rows_positions :: "'dim \<Rightarrow> u32 list \<Rightarrow> position list"
  is_extended :: "position \<Rightarrow> bool"
  cell_reference :: "position \<Rightarrow> u32 \<Rightarrow> string"
  row_reference :: "u32 \<Rightarrow> u32 \<Rightarrow> string"
  data_rows :: "'dim \<Rightarrow> cell list \<Rightarrow> (u32 \<times> bytes) list"
  commitments_from_slice :: "bytes \<Rightarrow> commitment list result"
  proof_verify :: "'dim \<Rightarrow> commitment \<Rightarrow> cell \<Rightarrow> bool result"
  verify_equality ::
    "commitment list \<Rightarrow> bytes option list \<Rightarrow> 'lk \<Rightarrow> 'dim \<Rightarrow> u32 \<Rightarrow> (u32 list \<times> u32 list) result"
  app_specific_rows :: "'lk \<Rightarrow> 'dim \<Rightarrow> u32 \<Rightarrow> u32 list"
  columns_positions :: "'dim \<Rightarrow> position list \<Rightarrow> position list"
  reconstruct_columns :: "'dim \<Rightarrow> cell list \<Rightarrow> (u16 \<rightharpoonup> bytes list) result"
  decode_app_extrinsics :: "'lk \<Rightarrow> 'dim \<Rightarrow> data_cell list \<Rightarrow> u32 \<Rightarrow> app_data result"
  cell_data :: "cell \<Rightarrow> bytes"
  lookup_try_from :: "u32 \<Rightarrow> (u32 \<times> u32) list \<Rightarrow> (string, 'lk) res"
  lookup_is_empty :: "'lk \<Rightarrow> bool"
  lookup_range_of :: "'lk \<Rightarrow> u32 \<Rightarrow> (u32 \<times> u32) option"
  decode_extrinsic :: "bytes \<Rightarrow> runtime_call result"

section \<open>Header helpers of utils.rs\<close>

text \<open>The value of an \<open>f64\<close>. The finite ones are read as real numbers.\<close>

datatype f64 = Fin real | PosInf | NegInf | NaN

text \<open>\<open>100f64 * (1f64 - 1f64 / 2u32.pow(count) as f64)\<close>: the power wraps modulo \<open>2^32\<close>, and
  dividing by zero gives an infinity.\<close>

definition calculate_confidence :: "u32 \<Rightarrow> f64" where
  "calculate_confidence cnt =
     (let p = (2 :: nat) ^ unat cnt mod 2 ^ 32
      in if p = 0 then NegInf else Fin (100 * (1 - 1 / real p)))"

definition decode_app_data :: "('dim, 'lk) kate \<Rightarrow> bytes \<Rightarrow> bytes option result" where
  "decode_app_data K dat =
     and_then (wrap_err ''Couldn't decode AvailExtrinsic'' (decode_extrinsic K dat)) (\<lambda>call.
       case call of SubmitData d \<Rightarrow> Ok (Some d) | OtherCall \<Rightarrow> Ok None)"

definition extension_option :: "header_extension \<Rightarrow> header_extension option" where
  "extension_option e =
     (case e of V3 v \<Rightarrow> if 0 < cl_size (v3_app_lookup v) then Some e else None)"

definition extract_kate :: "header_extension \<Rightarrow> (u16 \<times> u16 \<times> h256 \<times> bytes) option" where
  "extract_kate ext =
     (case extension_option ext of
        None \<Rightarrow> None
      | Some (V3 v) \<Rightarrow>
          (let kate = v3_commitment v
           in Some (kc_rows kate, kc_cols kate, kc_data_root kate, kc_commitment kate)))"

definition extract_app_lookup ::
    "('dim, 'lk) kate \<Rightarrow> header_extension \<Rightarrow> 'lk option result" where
  "extract_app_lookup K ext =
     (case extension_option ext of
        None \<Rightarrow> Ok None
      | Some (V3 v) \<Rightarrow>
          (let compact = v3_app_lookup v;
               size = cl_size compact;
               index = map (\<lambda>item. (li_app_id item, li_start item)) (cl_index compact)
           in map_err (\<lambda>e. [''Invalid DataLookup: '' @ e])
                (map_res Some (lookup_try_from K size index))))"

definition filter_auth_set_changes ::
    "('dim, 'lk) kate \<Rightarrow> header \<Rightarrow> (public_key \<times> u64) list list" where
  "filter_auth_set_changes K hdr =
     flatten_options (map (\<lambda>e. case e of
         Consensus engine dat \<Rightarrow>
           (if engine = ''FRNK'' then
              (case decode_consensus K dat of
                 Some (ScheduledChange x) \<Rightarrow> Some x
               | Some (ForcedChange _ x) \<Rightarrow> Some x
               | _ \<Rightarrow> None)
            else None)
       | OtherDigest \<Rightarrow> None) (h_digest hdr))"

definition can_reconstruct :: "('dim, 'lk) kate \<Rightarrow> 'dim \<Rightarrow> u16 list \<Rightarrow> cell list \<Rightarrow> bool" where
  "can_reconstruct K dims columns cells =
     list_all (\<lambda>c. (word_of_nat (length (filter (\<lambda>x. pos_col (cell_position x) = c) cells)) :: u16)
        \<ge> dim_rows K dims) columns"

definition diff_positions :: "position list \<Rightarrow> cell list \<Rightarrow> position list" where
  "diff_positions positions cells =
     filter (\<lambda>p. \<not> list_ex (\<lambda>c. cell_position c = p) cells) positions"

section \<open>Messages between the clients\<close>

record ('dim, 'lk) extension =
  ext_dimensions :: 'dim
  ext_lookup :: 'lk
  ext_commitments :: "commitment list"

record ('dim, 'lk) block_verified =
  bv_header_hash :: h256
  bv_block_num :: u32
  bv_extension :: "('dim, 'lk) extension option"
  bv_confidence :: "f64 option"

definition block_verified_try_from ::
    "('dim, 'lk) kate \<Rightarrow> header \<Rightarrow> f64 option \<Rightarrow> ('dim, 'lk) block_verified result" where
  "block_verified_try_from K hdr confidence =
     (let block = \<lparr>bv_header_hash = hash_of K hdr, bv_block_num = h_number hdr,
                   bv_extension = None, bv_confidence = confidence\<rparr>
      in case extract_kate (h_extension hdr) of
           None \<Rightarrow> Ok block
         | Some (rows, cols, _, commitment) \<Rightarrow>
             and_then (extract_app_lookup K (h_extension hdr)) (\<lambda>l. case l of
                 None \<Rightarrow> Ok block
               | Some lookup \<Rightarrow>
                   if lookup_is_empty K lookup then Ok block
                   else and_then (ok_or [''Invalid dimensions''] (dimensions_new K rows cols))
                     (\<lambda>dims. and_then (commitments_from_slice K commitment)
                       (\<lambda>comms. Ok (block\<lparr>bv_extension :=
                          Some \<lparr>ext_dimensions = dims, ext_lookup = lookup,
                                ext_commitments = comms\<rparr>\<rparr>)))))"

section \<open>Block ranges and the shared state\<close>

record block_range =
  br_first :: u32
  br_last :: u32

definition block_range_init :: "u32 \<Rightarrow> block_range" where
  "block_range_init n = \<lparr>br_first = n, br_last = n\<rparr>"

definition block_range_contains :: "block_range \<Rightarrow> u32 \<Rightarrow> bool" where
  "block_range_contains r n \<longleftrightarrow> br_first r \<le> n \<and> n \<le> br_last r"

fun range_set :: "block_range option \<Rightarrow> u32 \<Rightarrow> block_range option" where
  "range_set (Some r) n = Some (r\<lparr>br_last := n\<rparr>)"
| "range_set None n = Some (block_range_init n)"

definition range_first :: "block_range option \<Rightarrow> u32 option" where
  "range_first r = map_option br_first r"

definition range_last :: "block_range option \<Rightarrow> u32 option" where
  "range_last r = map_option br_last r"

definition range_contains :: "block_range option \<Rightarrow> u32 \<Rightarrow> bool" where
  "range_contains r n = (case map_option (\<lambda>r. block_range_contains r n) r of None \<Rightarrow> False | Some b \<Rightarrow> b)"

record node =
  node_host :: string
  node_system_version :: string
  node_spec_version :: u32
  node_genesis_hash :: h256

definition node_default :: node where
  "node_default = \<lparr>node_host = ''{host}'', node_system_version = ''{system_version}'',
                   node_spec_version = 0, node_genesis_hash = 0\<rparr>"

definition node_network :: "node \<Rightarrow> string" where
  "node_network n = node_host n @ ''/'' @ node_system_version n @ ''/'' @ show_word (node_spec_version n)"

record state =
  st_synced :: "bool option"
  st_latest :: u32
  st_header_verified :: "block_range option"
  st_confidence_achieved :: "block_range option"
  st_data_verified :: "block_range option"
  st_sync_latest :: "u32 option"
  st_sync_header_verified :: "block_range option"
  st_sync_confidence_achieved :: "block_range option"
  st_sync_data_verified :: "block_range option"
  st_finality_synced :: bool
  st_connected_node :: node

definition state_default :: state where
  "state_default = \<lparr>st_synced = None, st_latest = 0, st_header_verified = None,
     st_confidence_achieved = None, st_data_verified = None, st_sync_latest = None,
     st_sync_header_verified = None, st_sync_confidence_achieved = None,
     st_sync_data_verified = None, st_finality_synced = False, st_connected_node = node_default\<rparr>"

section \<open>Lemmas\<close>

lemma extension_option_eq_Some:
  "extension_option e = Some e' \<longleftrightarrow> e' = e \<and> (\<exists>v. e = V3 v \<and> 0 < cl_size (v3_app_lookup v))"
  by (cases e) (auto simp: extension_option_def)

lemma extract_kate_eq_None: "extract_kate e = None \<longleftrightarrow> extension_option e = None"
  by (auto simp: extract_kate_def Let_def split: option.splits header_extension.splits)

lemma calculate_confidence_small:
  "unat cnt < 32 \<Longrightarrow> calculate_confidence cnt = Fin (100 * (1 - 1 / 2 ^ unat cnt))"
proof -
  assume c: "unat cnt < 32"
  have "(2 :: nat) ^ unat cnt < 2 ^ 32" by (rule power_strict_increasing [OF c]) simp
  then show ?thesis by (simp add: calculate_confidence_def Let_def)
qed

lemma range_contains_simps [simp]:
  "range_contains None n = False"
  "range_contains (Some r) n = block_range_contains r n"
  by (simp_all add: range_contains_def)

lemma range_set_first [simp]:
  "range_first (range_set r n) = (case range_first r of None \<Rightarrow> Some n | Some f \<Rightarrow> Some f)"
  by (cases r) (auto simp: range_first_def block_range_init_def)

lemma range_set_last [simp]: "range_last (range_set r n) = Some n"
  by (cases r) (auto simp: range_last_def block_range_init_def)

lemma range_contains_iff:
  "range_contains r n \<longleftrightarrow> (\<exists>f l. range_first r = Some f \<and> range_last r = Some l \<and> f \<le> n \<and> n \<le> l)"
  by (cases r) (auto simp: range_first_def range_last_def block_range_contains_def)

lemma range_first_None [simp]: "range_first None = None" "range_last None = None"
  by (simp_all add: range_first_def range_last_def)

text \<open>Setting the blocks of a list, in order, leaves the range from the first to the last.\<close>

lemma range_set_fold:
  "ns \<noteq> [] \<Longrightarrow> range_first (foldl range_set None ns) = Some (hd ns) \<and>
                range_last (foldl range_set None ns) = Some (last ns)"
proof (induction ns rule: rev_induct)
  case Nil
  then show ?case by simp
next
  case (snoc n ns)
  show ?case
    using snoc.IH
    by (cases ns) (auto simp: range_first_def range_last_def block_range_init_def split: option.splits)
qed

end
