(* ===== verification/Samples.thy ===== *)
theory Samples
  imports Chain
begin

text \<open>
  One concrete instance of the operations of other crates, \<open>sample_kate\<close>, and a few concrete
  headers. They are used only where a property with hypotheses is applied to an example; no
  definition of the model depends on them. A pair of row and column count stands for
  \<open>Dimensions\<close>, the list of its entries for \<open>DataLookup\<close>, and the hash of a header is its number.
\<close>

definition sample_positions :: "u16 \<times> u16 \<Rightarrow> position list" where
  "sample_positions d =
     concat (map (\<lambda>r. map (\<lambda>c. \<lparr>pos_row = word_of_nat r, pos_col = word_of_nat c\<rparr>)
       [0 ..< unat (snd d)]) [0 ..< 2 * unat (fst d)])"

definition sample_kate :: "(u16 \<times> u16, (u32 \<times> u32) list) kate" where
  "sample_kate = \<lparr>
     hash_of = (\<lambda>h. ucast (h_number h)),
     decode_consensus = (\<lambda>b. if b = [1] then Some (ScheduledChange [(7, 1)]) else None),
     dimensions_new = (\<lambda>r c. if r = 0 \<or> c = 0 then None else Some (r, c)),
     dim_rows = fst,
     dim_cols = snd,
     dim_width = (\<lambda>d. unat (snd d)),
     extended_rows = (\<lambda>d. 2 * ucast (fst d)),
     extended_size = (\<lambda>d. 2 * ucast (fst d) * ucast (snd d)),
     partition_positions = (\<lambda>d p. sample_positions d),
     extended_rows_positions =
       (\<lambda>d rs. filter (\<lambda>p. pos_row p \<in> set rs) (sample_positions d)),
     is_extended = (\<lambda>p. odd (unat (pos_row p))),
     cell_reference = (\<lambda>p b. show_word b @ '':'' @ show_word (pos_row p) @ '':'' @ show_word (pos_col p)),
     row_reference = (\<lambda>r b. show_word b @ '':'' @ show_word r),
     data_rows = (\<lambda>d cs. map (\<lambda>c. (pos_row (cell_position c), cell_content c)) cs),
     commitments_from_slice = (\<lambda>b. Ok (map (\<lambda>x. [x]) b)),
     proof_verify = (\<lambda>d c x. Ok (cell_content x \<noteq> [])),
     verify_equality = (\<lambda>cs rows l d a.
       Ok (filter (\<lambda>r. unat r < length rows \<and> rows ! unat r \<noteq> None) [0],
           filter (\<lambda>r. \<not> (unat r < length rows \<and> rows ! unat r \<noteq> None)) [0])),
     app_specific_rows = (\<lambda>l d a. [0]),
     columns_positions = (\<lambda>d ps. ps),
     reconstruct_columns = (\<lambda>d cs. Ok Map.empty),
     decode_app_extrinsics = (\<lambda>l d cs a. Ok (map dc_data cs)),
     cell_data = cell_content,
     lookup_try_from = (\<lambda>s i. Ok i),
     lookup_is_empty = (\<lambda>l. l = []),
     lookup_range_of = (\<lambda>l a. map_option (\<lambda>s. (s, s + 1)) (map_of l a)),
     decode_extrinsic = (\<lambda>b. Ok (SubmitData b))\<rparr>"

definition sample_extension :: header_extension where
  "sample_extension = V3 \<lparr>v3_app_lookup = \<lparr>cl_size = 1, cl_index = [\<lparr>li_app_id = 1, li_start = 0\<rparr>]\<rparr>,
     v3_commitment = \<lparr>kc_rows = 1, kc_cols = 4, kc_data_root = 0, kc_commitment = [1, 2]\<rparr>\<rparr>"

definition sample_header :: "u32 \<Rightarrow> header" where
  "sample_header n = \<lparr>h_parent_hash = ucast (n - 1), h_number = n, h_state_root = 0,
     h_extrinsics_root = 0, h_digest = [], h_extension = sample_extension\<rparr>"

lemma sample_kate_simps [simp]:
  "hash_of sample_kate h = ucast (h_number h)"
  "decode_consensus sample_kate bs = (if bs = [1] then Some (ScheduledChange [(7, 1)]) else None)"
  "dimensions_new sample_kate nr nc = (if nr = 0 \<or> nc = 0 then None else Some (nr, nc))"
  "dim_rows sample_kate d = fst d"
  "dim_cols sample_kate d = snd d"
  "dim_width sample_kate d = unat (snd d)"
  "extended_rows sample_kate d = 2 * ucast (fst d)"
  "extended_size sample_kate d = 2 * ucast (fst d) * ucast (snd d)"
  "partition_positions sample_kate d prt = sample_positions d"
  "extended_rows_positions sample_kate d rs = filter (\<lambda>p. pos_row p \<in> set rs) (sample_positions d)"
  "is_extended sample_kate p = odd (unat (pos_row p))"
  "cell_reference sample_kate p b =
     show_word b @ '':'' @ show_word (pos_row p) @ '':'' @ show_word (pos_col p)"
  "row_reference sample_kate r b = show_word b @ '':'' @ show_word r"
  "commitments_from_slice sample_kate bs = Ok (map (\<lambda>x. [x]) bs)"
  "proof_verify sample_kate d cm x = Ok (cell_content x \<noteq> [])"
  "lookup_try_from sample_kate s is = Ok is"
  "lookup_is_empty sample_kate l = (l = [])"
  "lookup_range_of sample_kate l a = map_option (\<lambda>s. (s, s + 1)) (map_of l a)"
  "decode_extrinsic sample_kate bs = Ok (SubmitData bs)"
  "data_rows sample_kate d cs = map (\<lambda>c. (pos_row (cell_position c), cell_content c)) cs"
  "verify_equality sample_kate cms rows l d a =
     Ok (filter (\<lambda>r. unat r < length rows \<and> rows ! unat r \<noteq> None) [0],
         filter (\<lambda>r. \<not> (unat r < length rows \<and> rows ! unat r \<noteq> None)) [0])"
  "app_specific_rows sample_kate l d a = [0]"
  "columns_positions sample_kate d ps = ps"
  "reconstruct_columns sample_kate d xs = Ok Map.empty"
  "decode_app_extrinsics sample_kate l d ds a = Ok (map dc_data ds)"
  "cell_data sample_kate x = cell_content x"
  by (simp_all add: sample_kate_def)

lemma sample_header_simps [simp]:
  "h_number (sample_header n) = n"
  "h_parent_hash (sample_header n) = ucast (n - 1)"
  "h_digest (sample_header n) = []"
  "h_extension (sample_header n) = sample_extension"
  by (simp_all add: sample_header_def)

lemma sample_extension_simps [simp]:
  "extension_option sample_extension = Some sample_extension"
  "extract_kate sample_extension = Some (1, 4, 0, [1, 2])"
  "extract_app_lookup sample_kate sample_extension = Ok (Some [(1, 0)])"
  by (simp_all add: sample_extension_def extension_option_def extract_kate_def
      extract_app_lookup_def Let_def)

end
