(* ===== verification/Finality.thy ===== *)
theory Finality
  imports Samples "HOL-Library.AList"
begin

text \<open>
  GRANDPA finality checks (\<open>src/finality.rs\<close>) on the justification types of \<open>src/types.rs\<close>.
  The signature scheme is a parameter: \<open>verify sig pre round set_id id\<close> stands for
  \<open>ed25519::Pair::verify\<close> of the signature \<open>sig\<close> under the key \<open>id\<close> on the encoding of
  \<open>(SignerMessage::PrecommitMessage(pre), round, set_id)\<close>.

  The lemmas show that the bounded search for an ancestor decides reachability in the ancestry
  map, that the supermajority test is the strict two-thirds test, and what a successful check
  says about the signers.
\<close>

section \<open>Justifications\<close>

record precommit =
  pc_target_hash :: h256
  pc_target_number :: u32

record signed_precommit =
  sp_precommit :: precommit
  sp_signature :: bytes
  sp_id :: public_key

record commit =
  cm_target_hash :: h256
  cm_target_number :: u32
  cm_precommits :: "signed_precommit list"

record grandpa_justification =
  gj_round :: u64
  gj_commit :: commit
  gj_votes_ancestries :: "header list"

record validator_set =
  vs_set_id :: u64
  vs_validator_set :: "public_key list"

type_synonym sig_verifier = "bytes \<Rightarrow> precommit \<Rightarrow> u64 \<Rightarrow> u64 \<Rightarrow> public_key \<Rightarrow> bool"

section \<open>The check\<close>

text \<open>The \<open>HashMap\<close> of the ancestries: a later header with the same hash replaces the entry.\<close>

definition ancestry_map :: "('dim, 'lk) kate \<Rightarrow> header list \<Rightarrow> (h256 \<times> h256) list" where
  "ancestry_map K hs = foldl (\<lambda>m e. AList.update (hash_of K e) (h_parent_hash e) m) [] hs"

definition is_signed_by_supermajority :: "nat \<Rightarrow> nat \<Rightarrow> bool" where
  "is_signed_by_supermajority num_signatures validator_set_size =
     (let supermajority = validator_set_size * 2 div 3 + 1
      in supermajority \<le> num_signatures)"

fun ancestry_loop :: "nat \<Rightarrow> h256 \<Rightarrow> h256 \<Rightarrow> (h256 \<times> h256) list \<Rightarrow> bool" where
  "ancestry_loop 0 curr_hash root_hash m = False"
| "ancestry_loop (Suc n) curr_hash root_hash m =
     (case map_of m curr_hash of
        Some parent \<Rightarrow> if parent = root_hash then True else ancestry_loop n parent root_hash m
      | None \<Rightarrow> False)"

definition confirm_ancestry :: "h256 \<Rightarrow> h256 \<Rightarrow> (h256 \<times> h256) list \<Rightarrow> bool" where
  "confirm_ancestry child root_hash m =
     (if child = root_hash then True else ancestry_loop (length m) child root_hash m)"

text \<open>The signature is tried with the set id, then with the ids of the range
  \<open>(set_id - 10)..(set_id + 10)\<close>; both bounds wrap.\<close>

definition signature_ok ::
    "sig_verifier \<Rightarrow> validator_set \<Rightarrow> grandpa_justification \<Rightarrow> signed_precommit \<Rightarrow> bool" where
  "signature_ok verify vs j p =
     (if verify (sp_signature p) (sp_precommit p) (gj_round j) (vs_set_id vs) (sp_id p) then True
      else list_ex (\<lambda>s. verify (sp_signature p) (sp_precommit p) (gj_round j) s (sp_id p))
             (range_u64 (vs_set_id vs - 10) (vs_set_id vs + 10)))"

definition check_precommit ::
    "sig_verifier \<Rightarrow> (h256 \<times> h256) list \<Rightarrow> validator_set \<Rightarrow> grandpa_justification \<Rightarrow>
     signed_precommit \<Rightarrow> public_key result" where
  "check_precommit verify m vs j p =
     (let is_ok = signature_ok verify vs j p;
          ancestry = confirm_ancestry (pc_target_hash (sp_precommit p))
                       (cm_target_hash (gj_commit j)) m
      in if is_ok \<and> ancestry then Ok (sp_id p) else Err [''Not signed by this signature!''])"

definition check_finality ::
    "('dim, 'lk) kate \<Rightarrow> sig_verifier \<Rightarrow> validator_set \<Rightarrow> grandpa_justification \<Rightarrow> unit result" where
  "check_finality K verify vs j =
     (let m = ancestry_map K (gj_votes_ancestries j);
          signer_addresses = collect_res (map (check_precommit verify m vs j)
                               (cm_precommits (gj_commit j)))
      in and_then signer_addresses (\<lambda>signers.
           let num_matched = length (filter (\<lambda>x. list_ex (\<lambda>e. e = x) (vs_validator_set vs)) signers)
           in if is_signed_by_supermajority num_matched (length (vs_validator_set vs)) then Ok ()
              else Err [''Not signed by supermajority of validator set!'']))"

section \<open>Notions of the specification, and a sample justification\<close>

text \<open>The parent relation of an ancestry map, and the signers that count for a validator set.\<close>

definition parent_rel :: "(h256 \<times> h256) list \<Rightarrow> (h256 \<times> h256) set" where
  "parent_rel m = {(h, p). map_of m h = Some p}"

definition counted_signers :: "validator_set \<Rightarrow> grandpa_justification \<Rightarrow> public_key list" where
  "counted_signers vs j =
     filter (\<lambda>x. x \<in> set (vs_validator_set vs)) (map sp_id (cm_precommits (gj_commit j)))"

definition sample_precommit :: "public_key \<Rightarrow> signed_precommit" where
  "sample_precommit k = \<lparr>sp_precommit = \<lparr>pc_target_hash = 5, pc_target_number = 5\<rparr>,
                         sp_signature = [1], sp_id = k\<rparr>"

definition sample_justification :: "public_key list \<Rightarrow> grandpa_justification" where
  "sample_justification ks = \<lparr>gj_round = 1, gj_commit = \<lparr>cm_target_hash = 5, cm_target_number = 5,
     cm_precommits = map sample_precommit ks\<rparr>, gj_votes_ancestries = []\<rparr>"

definition sample_verify :: sig_verifier where
  "sample_verify sig pre rnd sid k = (sig = [1])"

lemmas sample_justification_defs = sample_precommit_def sample_justification_def sample_verify_def

section \<open>The ancestor search decides reachability\<close>

lemma distinct_ancestry_map: "distinct (map fst (ancestry_map K hs))"
proof -
  have "distinct (map fst m) \<Longrightarrow>
      distinct (map fst (foldl (\<lambda>m e. AList.update (hash_of K e) (h_parent_hash e) m) m hs))" for m
    by (induction hs arbitrary: m) (auto intro: distinct_update)
  then show ?thesis by (simp add: ancestry_map_def)
qed

lemma parent_rel_eq_set: "distinct (map fst m) \<Longrightarrow> parent_rel m = set m"
  by (auto simp: parent_rel_def)

lemma card_parent_rel: "distinct (map fst m) \<Longrightarrow> card (parent_rel m) = length m"
  by (simp add: parent_rel_eq_set distinct_card distinct_map)

lemma ancestry_loop_iff:
  "ancestry_loop n curr_hash root_hash m \<longleftrightarrow> (\<exists>k. 0 < k \<and> k \<le> n \<and> (curr_hash, root_hash) \<in> parent_rel m ^^ k)"
proof (induction n arbitrary: curr_hash)
  case 0
  show ?case by simp
next
  case (Suc n)
  show ?case
  proof (cases "map_of m curr_hash")
    case None
    then have "(curr_hash, root_hash) \<notin> parent_rel m ^^ k" if "0 < k" for k
      using that relpow_Suc_D2 [of curr_hash root_hash "k - 1" "parent_rel m"]
      by (auto simp: parent_rel_def)
    with None show ?thesis by auto
  next
    case (Some parent)
    have step: "(curr_hash, root_hash) \<in> parent_rel m ^^ Suc k \<longleftrightarrow> (parent, root_hash) \<in> parent_rel m ^^ k" for k
    proof
      assume "(curr_hash, root_hash) \<in> parent_rel m ^^ Suc k"
      then obtain y where "(curr_hash, y) \<in> parent_rel m" "(y, root_hash) \<in> parent_rel m ^^ k"
        by (blast dest: relpow_Suc_D2)
      then show "(parent, root_hash) \<in> parent_rel m ^^ k" using Some by (simp add: parent_rel_def)
    next
      assume "(parent, root_hash) \<in> parent_rel m ^^ k"
      moreover have "(curr_hash, parent) \<in> parent_rel m" using Some by (simp add: parent_rel_def)
      ultimately show "(curr_hash, root_hash) \<in> parent_rel m ^^ Suc k" by (blast intro: relpow_Suc_I2)
    qed
    have "(\<exists>k. 0 < k \<and> k \<le> Suc n \<and> (curr_hash, root_hash) \<in> parent_rel m ^^ k) \<longleftrightarrow>
          (\<exists>k. k \<le> n \<and> (parent, root_hash) \<in> parent_rel m ^^ k)"
      using step by (metis Suc_le_mono gr0_conv_Suc zero_less_Suc)
    also have "\<dots> \<longleftrightarrow> parent = root_hash \<or> (\<exists>k. 0 < k \<and> k \<le> n \<and> (parent, root_hash) \<in> parent_rel m ^^ k)"
      by (metis gr0I le0 relpow_0_I relpow_0_E)
    finally show ?thesis using Some Suc.IH by simp
  qed
qed

lemma confirm_ancestry_rtrancl:
  assumes "distinct (map fst m)"
  shows "confirm_ancestry child root_hash m \<longleftrightarrow> (child, root_hash) \<in> (parent_rel m)\<^sup>*"
proof (cases "child = root_hash")
  case True
  then show ?thesis by (simp add: confirm_ancestry_def)
next
  case False
  have fin: "finite (parent_rel m)" by (simp add: parent_rel_eq_set [OF assms])
  have "confirm_ancestry child root_hash m \<longleftrightarrow> (child, root_hash) \<in> (parent_rel m)\<^sup>+"
    using False
    by (auto simp: confirm_ancestry_def ancestry_loop_iff trancl_finite_eq_relpow [OF fin]
        card_parent_rel [OF assms])
  also have "\<dots> \<longleftrightarrow> (child, root_hash) \<in> (parent_rel m)\<^sup>*"
    using False by (metis rtranclD trancl_into_rtrancl)
  finally show ?thesis .
qed

section \<open>What a successful check says\<close>

lemma supermajority_iff: "is_signed_by_supermajority n s \<longleftrightarrow> 2 * s < 3 * n"
  by (simp add: is_signed_by_supermajority_def Let_def) linarith

lemma distinct_counted_signers:
  "distinct (map sp_id (cm_precommits (gj_commit j))) \<Longrightarrow> distinct (counted_signers vs j)"
  unfolding counted_signers_def by (rule distinct_filter)

lemma check_precommit_eq_Ok:
  "check_precommit verify m vs j p = Ok k \<longleftrightarrow>
     signature_ok verify vs j p \<and>
     confirm_ancestry (pc_target_hash (sp_precommit p)) (cm_target_hash (gj_commit j)) m \<and> k = sp_id p"
  by (auto simp: check_precommit_def Let_def)

lemma collect_precommits_eq_Ok:
  "collect_res (map (check_precommit verify m vs j) ps) = Ok ks \<longleftrightarrow>
     ks = map sp_id ps \<and> (\<forall>p \<in> set ps. signature_ok verify vs j p \<and>
       confirm_ancestry (pc_target_hash (sp_precommit p)) (cm_target_hash (gj_commit j)) m)"
proof (induction ps arbitrary: ks)
  case Nil
  show ?case by auto
next
  case (Cons p ps)
  then show ?case by (auto simp: res_simps check_precommit_eq_Ok)
qed

lemma check_finality_eq_Ok:
  "check_finality K verify vs j = Ok () \<longleftrightarrow>
     (\<forall>p \<in> set (cm_precommits (gj_commit j)). signature_ok verify vs j p \<and>
        confirm_ancestry (pc_target_hash (sp_precommit p)) (cm_target_hash (gj_commit j))
          (ancestry_map K (gj_votes_ancestries j))) \<and>
     2 * length (vs_validator_set vs) < 3 * length (counted_signers vs j)"
  by (auto simp: check_finality_def Let_def res_simps collect_precommits_eq_Ok supermajority_iff
      counted_signers_def list_ex_iff)

lemma quorum_intersection:
  fixes V A B :: "'a set"
  assumes fin: "finite V" and sub: "A \<subseteq> V" "B \<subseteq> V"
    and a: "2 * card V < 3 * card A" and b: "2 * card V < 3 * card B"
  shows "card V < 3 * card (A \<inter> B)"
proof -
  have "finite A" "finite B" using fin sub finite_subset by auto
  then have "card A + card B = card (A \<union> B) + card (A \<inter> B)" by (rule card_Un_Int)
  moreover have "card (A \<union> B) \<le> card V" using fin sub by (intro card_mono) auto
  ultimately show ?thesis using a b by linarith
qed


section \<open>Properties\<close>

text \<open>C30: \<open>confirm_ancestry\<close>, which walks at most as many steps as the ancestry map has
  entries, decides whether the child is the committed block or a descendant of it in the chain of
  the given ancestry headers. The bound never makes it miss an ancestor, also when the map has
  cycles.\<close>

theorem confirm_ancestry_decides:
  "confirm_ancestry child root_hash (ancestry_map K hs) \<longleftrightarrow>
     (child, root_hash) \<in> (parent_rel (ancestry_map K hs))\<^sup>*"
  by (rule confirm_ancestry_rtrancl [OF distinct_ancestry_map])

text \<open>C1: \<open>check_finality\<close> accepts a justification exactly when every precommit carries an
  accepted signature and targets the committed block or a descendant of it, and the precommits of
  validators of the set number more than two thirds of the set.\<close>

theorem check_finality_accepts_iff:
  "check_finality K verify vs j = Ok () \<longleftrightarrow>
     (\<forall>p. p \<in> set (cm_precommits (gj_commit j)) \<longrightarrow> signature_ok verify vs j p \<and>
        (pc_target_hash (sp_precommit p), cm_target_hash (gj_commit j))
          \<in> (parent_rel (ancestry_map K (gj_votes_ancestries j)))\<^sup>*) \<and>
     2 * length (vs_validator_set vs) < 3 * length (counted_signers vs j)"
  by (auto simp: check_finality_eq_Ok confirm_ancestry_rtrancl [OF distinct_ancestry_map])

lemma sample_justification_ok:
  "2 * length V < 3 * length (filter (\<lambda>k. k \<in> set V) ks) \<Longrightarrow>
     check_finality sample_kate sample_verify \<lparr>vs_set_id = 20, vs_validator_set = V\<rparr>
       (sample_justification ks) = Ok ()"
  by (auto simp: check_finality_eq_Ok sample_justification_defs signature_ok_def confirm_ancestry_def
      counted_signers_def comp_def)

theorem check_finality_accepts_iff_witness:
  "check_finality sample_kate sample_verify \<lparr>vs_set_id = 20, vs_validator_set = [1, 2, 3, 4]\<rparr>
     (sample_justification [1, 2, 3]) = Ok () \<and>
   list_all (signature_ok sample_verify \<lparr>vs_set_id = 20, vs_validator_set = [1, 2, 3, 4]\<rparr>
     (sample_justification [1, 2, 3])) (map sample_precommit [1, 2, 3])"
proof -
  let ?vs = "\<lparr>vs_set_id = 20, vs_validator_set = [1, 2, 3, 4]\<rparr>" and ?j = "sample_justification [1, 2, 3]"
  have ok: "check_finality sample_kate sample_verify ?vs ?j = Ok ()"
    by (rule sample_justification_ok) simp
  then have "\<forall>p. p \<in> set (cm_precommits (gj_commit ?j)) \<longrightarrow> signature_ok sample_verify ?vs ?j p"
    using check_finality_accepts_iff [of sample_kate sample_verify ?vs ?j] by blast
  moreover have "cm_precommits (gj_commit ?j) = map sample_precommit [1, 2, 3]"
    by (simp add: sample_justification_def)
  ultimately show ?thesis using ok by simp
qed

text \<open>C13: Two justifications accepted for the same validator set, each without repeated signers,
  are signed by a common third of the validators: if fewer than a third are faulty, an honest
  validator signed both.\<close>

theorem check_finality_quorums_intersect:
  assumes "check_finality K verify vs j1 = Ok ()" and "check_finality K verify vs j2 = Ok ()"
    and "distinct (vs_validator_set vs)"
    and "distinct (map sp_id (cm_precommits (gj_commit j1)))"
    and "distinct (map sp_id (cm_precommits (gj_commit j2)))"
  shows "length (vs_validator_set vs) <
           3 * card (set (counted_signers vs j1) \<inter> set (counted_signers vs j2))"
proof -
  have card: "card (set (vs_validator_set vs)) = length (vs_validator_set vs)"
      "card (set (counted_signers vs j1)) = length (counted_signers vs j1)"
      "card (set (counted_signers vs j2)) = length (counted_signers vs j2)"
    using assms(3-5) by (simp_all add: distinct_card distinct_counted_signers)
  have sub: "set (counted_signers vs j) \<subseteq> set (vs_validator_set vs)" for j
    by (auto simp: counted_signers_def)
  from quorum_intersection [OF finite_set sub [of j1] sub [of j2]] assms(1,2) card show ?thesis
    by (simp add: check_finality_eq_Ok)
qed

theorem check_finality_quorums_intersect_witness:
  "(4 :: nat) < 3 * card (set (counted_signers \<lparr>vs_set_id = 20, vs_validator_set = [1, 2, 3, 4]\<rparr>
                         (sample_justification [1, 2, 3])) \<inter>
                       set (counted_signers \<lparr>vs_set_id = 20, vs_validator_set = [1, 2, 3, 4]\<rparr>
                         (sample_justification [2, 3, 4])))"
proof -
  let ?vs = "\<lparr>vs_set_id = 20, vs_validator_set = [1, 2, 3, 4 :: public_key]\<rparr>"
  have "check_finality sample_kate sample_verify ?vs (sample_justification [1, 2, 3]) = Ok ()"
       "check_finality sample_kate sample_verify ?vs (sample_justification [2, 3, 4]) = Ok ()"
    by (rule sample_justification_ok, simp)+
  from check_finality_quorums_intersect [OF this] show ?thesis
    by (simp add: sample_justification_defs)
qed

text \<open>C38: The check does not remove repeated signers: one valid precommit of a single
  validator, repeated often enough, makes \<open>check_finality\<close> accept, whatever the size of the
  validator set.\<close>

theorem check_finality_counts_repetitions:
  assumes "signature_ok verify vs j p" and "sp_id p \<in> set (vs_validator_set vs)"
    and "pc_target_hash (sp_precommit p) = cm_target_hash (gj_commit j)"
    and "cm_precommits (gj_commit j) = replicate n p"
    and "2 * length (vs_validator_set vs) < 3 * n"
  shows "check_finality K verify vs j = Ok () \<and> card (set (counted_signers vs j)) = 1"
proof -
  have "counted_signers vs j = replicate n (sp_id p)"
    using assms(2,4) by (simp add: counted_signers_def)
  moreover have "n \<noteq> 0" using assms(5) by (cases n) auto
  ultimately show ?thesis
    using assms by (simp add: check_finality_eq_Ok confirm_ancestry_def)
qed

theorem check_finality_counts_repetitions_witness:
  "check_finality sample_kate sample_verify \<lparr>vs_set_id = 20, vs_validator_set = [1, 2, 3, 4]\<rparr>
     (sample_justification [1, 1, 1]) = Ok () \<and>
   card (set (counted_signers \<lparr>vs_set_id = 20, vs_validator_set = [1, 2, 3, 4]\<rparr>
     (sample_justification [1, 1, 1]))) = 1"
  by (rule check_finality_counts_repetitions [where p = "sample_precommit 1" and n = 3])
    (simp_all add: sample_justification_defs signature_ok_def numeral_3_eq_3)

text \<open>The fallback to neighbouring set ids is never tried while the set id is below ten: the
  lower bound of the range wraps around and the range is empty, so a signature made for a
  neighbouring set is refused.\<close>

theorem signature_fallback_unused_below_ten:
  assumes "vs_set_id vs < 10"
  shows "signature_ok verify vs j p \<longleftrightarrow>
     verify (sp_signature p) (sp_precommit p) (gj_round j) (vs_set_id vs) (sp_id p)"
proof -
  have "unat (vs_set_id vs) < 10" using assms by (simp add: word_less_nat_alt)
  then have "unat (vs_set_id vs + 10) < 20" by (simp add: unat_word_ariths)
  moreover have "20 \<le> unat (vs_set_id vs - 10)"
  proof -
    have "\<not> 10 \<le> unat (vs_set_id vs)" using \<open>unat (vs_set_id vs) < 10\<close> by simp
    then show ?thesis
      by (simp add: unat_sub_if' word_le_nat_alt)
  qed
  ultimately have "range_u64 (vs_set_id vs - 10) (vs_set_id vs + 10) = []"
    by (simp add: range_u64_def)
  then show ?thesis by (simp add: signature_ok_def)
qed

theorem signature_fallback_unused_below_ten_witness:
  "signature_ok (\<lambda>sig pre rnd sid k. sid = 3) \<lparr>vs_set_id = 4, vs_validator_set = [1]\<rparr>
     (sample_justification [1]) (sample_precommit 1) = False"
  using signature_fallback_unused_below_ten
    [of "\<lparr>vs_set_id = 4, vs_validator_set = [1]\<rparr>" "\<lambda>sig pre rnd sid k. sid = 3"
        "sample_justification [1]" "sample_precommit 1"]
  by simp

end
