(* ===== verification/Rpc_Api.thy ===== *)
theory Rpc_Api
  imports Finality
begin

text \<open>
  The interface between the clients and the RPC client. The components that use
  \<open>rpc::Client\<close> (\<open>src/network/rpc/client.rs\<close>) see the results of its methods; the record \<open>rpc_api\<close>
  has one field per method, with the answer of the node as a function of the request. The retry
  and reconnect logic behind the methods is modelled in the theory \<open>Rpc_Client\<close>.
\<close>

type_synonym account_id = "256 word"
type_synonym storage_key = bytes

record finality_proof =
  fp_block :: h256
  fp_justification :: grandpa_justification

record rpc_api =
  rpc_get_finalized_head_hash :: "h256 result"
  rpc_get_genesis_hash :: "h256 result"
  rpc_get_block_hash :: "u32 \<Rightarrow> h256 result"
  rpc_get_header_by_hash :: "h256 \<Rightarrow> header result"
  rpc_get_header_by_block_number :: "u32 \<Rightarrow> (header \<times> h256) result"
  rpc_get_validator_set_by_hash :: "h256 \<Rightarrow> public_key list result"
  rpc_get_validator_set_at :: "h256 \<Rightarrow> account_id list option result"
  rpc_fetch_set_id_at :: "h256 \<Rightarrow> u64 result"
  rpc_get_session_key_owner_at :: "h256 \<Rightarrow> public_key \<Rightarrow> account_id option result"
  rpc_get_paged_storage_keys :: "bytes \<Rightarrow> nat \<Rightarrow> h256 \<Rightarrow> storage_key list result"
  rpc_request_finality_proof :: "u32 \<Rightarrow> finality_proof result"
  rpc_request_kate_rows :: "u32 list \<Rightarrow> h256 \<Rightarrow> bytes list result"
  rpc_request_kate_proof :: "h256 \<Rightarrow> position list \<Rightarrow> cell list result"

text \<open>The validator set after a header: an authority set change in the digest replaces the keys and
  increments the set id.\<close>

definition apply_change :: "('dim, 'lk) kate \<Rightarrow> validator_set \<Rightarrow> header \<Rightarrow> validator_set" where
  "apply_change K vs h =
     (case filter_auth_set_changes K h of
        [] \<Rightarrow> vs
      | auths # _ \<Rightarrow> \<lparr>vs_set_id = vs_set_id vs + 1, vs_validator_set = map fst auths\<rparr>)"

definition valset_after :: "('dim, 'lk) kate \<Rightarrow> validator_set \<Rightarrow> header list \<Rightarrow> validator_set" where
  "valset_after K vs hs = foldl (apply_change K) vs hs"

text \<open>A node for examples: hash and number of a block agree, the finalized head is block 3, and the
  validator set is that of the sample justifications.\<close>

definition sample_rpc :: rpc_api where
  "sample_rpc = \<lparr>
     rpc_get_finalized_head_hash = Ok 3,
     rpc_get_genesis_hash = Ok 0,
     rpc_get_block_hash = (\<lambda>n. Ok (ucast n)),
     rpc_get_header_by_hash = (\<lambda>h. Ok (sample_header (ucast h))),
     rpc_get_header_by_block_number = (\<lambda>n. Ok (sample_header n, ucast n)),
     rpc_get_validator_set_by_hash = (\<lambda>h. Ok [1, 2, 3, 4]),
     rpc_get_validator_set_at = (\<lambda>h. Ok (Some [1, 2, 3, 4])),
     rpc_fetch_set_id_at = (\<lambda>h. Ok 20),
     rpc_get_session_key_owner_at = (\<lambda>h k. Ok (Some k)),
     rpc_get_paged_storage_keys = (\<lambda>k n h. Ok []),
     rpc_request_finality_proof = (\<lambda>n. Ok \<lparr>fp_block = ucast n, fp_justification = sample_justification [1, 2, 3]\<rparr>),
     rpc_request_kate_rows = (\<lambda>rows h. Ok (map (\<lambda>r. [1]) rows)),
     rpc_request_kate_proof = (\<lambda>h ps. Ok (map (\<lambda>p. \<lparr>cell_position = p, cell_content = [1]\<rparr>) ps))\<rparr>"

lemma sample_rpc_simps [simp]:
  "rpc_get_finalized_head_hash sample_rpc = Ok 3"
  "rpc_get_genesis_hash sample_rpc = Ok 0"
  "rpc_get_block_hash sample_rpc n = Ok (ucast n)"
  "rpc_get_header_by_hash sample_rpc h = Ok (sample_header (ucast h))"
  "rpc_get_header_by_block_number sample_rpc n = Ok (sample_header n, ucast n)"
  "rpc_get_validator_set_by_hash sample_rpc h = Ok [1, 2, 3, 4]"
  "rpc_get_validator_set_at sample_rpc h = Ok (Some [1, 2, 3, 4])"
  "rpc_fetch_set_id_at sample_rpc h = Ok 20"
  "rpc_get_session_key_owner_at sample_rpc h k = Ok (Some k)"
  "rpc_get_paged_storage_keys sample_rpc ks m h = Ok []"
  "rpc_request_finality_proof sample_rpc n =
     Ok \<lparr>fp_block = ucast n, fp_justification = sample_justification [1, 2, 3]\<rparr>"
  "rpc_request_kate_rows sample_rpc rows h = Ok (map (\<lambda>r. [1]) rows)"
  "rpc_request_kate_proof sample_rpc h ps =
     Ok (map (\<lambda>p. \<lparr>cell_position = p, cell_content = [1]\<rparr>) ps)"
  by (simp_all add: sample_rpc_def)

lemma sample_changes [simp]: "filter_auth_set_changes K (sample_header n) = []"
  by (simp add: filter_auth_set_changes_def)

lemma valset_after_simps [simp]:
  "valset_after K vs [] = vs"
  "valset_after K vs (hs @ [h]) = apply_change K (valset_after K vs hs) h"
  by (simp_all add: valset_after_def)

lemma valset_after_Cons: "valset_after K vs (h # hs) = valset_after K (apply_change K vs h) hs"
  by (simp add: valset_after_def)

end
