(* ===== verification/Data.thy ===== *)
theory Data
  imports Samples
begin

text \<open>
  The database (\<open>src/data.rs\<close>, \<open>src/data/mem_db.rs\<close>, \<open>src/data/rocks_db.rs\<close>).

  The clients are generic in the trait \<open>Database\<close>; their models use the abstract \<open>database\<close>: a
  map from keys to values in which every access may fail with an error of the backend. The two
  implementations of the trait are modelled below it. \<open>MemoryDB\<close> keeps JSON texts in a
  \<open>HashMap\<close> under a text key; \<open>RocksDB\<close> keeps SCALE bytes under a byte key of a column family.
  The serializers (\<open>serde_json\<close>, \<open>codec\<close>) and the operations of the \<open>rocksdb\<close> crate are
  parameters. The locale \<open>key_value\<close> states what the trait promises; both implementations are
  interpretations of it, which rests on the injectivity of the two key encodings.
\<close>

section \<open>Keys, values and the abstract database\<close>

datatype key = AppData u32 u32 | BlockHeader u32 | VerifiedCellCount u32 | FinalitySyncCheckpointKey

record finality_sync_checkpoint =
  fc_number :: u32
  fc_set_id :: u64
  fc_validator_set :: "public_key list"

text \<open>The types that the callers store under the keys.\<close>

datatype db_value =
    HeaderValue header
  | CountValue u32
  | AppDataValue app_data
  | CheckpointValue finality_sync_checkpoint

record database =
  db_entries :: "key \<rightharpoonup> db_value"
  db_put_fault :: "key \<Rightarrow> report option"
  db_get_fault :: "key \<Rightarrow> report option"

definition db_put :: "database \<Rightarrow> key \<Rightarrow> db_value \<Rightarrow> database result" where
  "db_put d k v =
     (case db_put_fault d k of
        Some e \<Rightarrow> Err e
      | None \<Rightarrow> Ok (d\<lparr>db_entries := (db_entries d)(k \<mapsto> v)\<rparr>))"

definition db_get :: "database \<Rightarrow> key \<Rightarrow> db_value option result" where
  "db_get d k = (case db_get_fault d k of Some e \<Rightarrow> Err e | None \<Rightarrow> Ok (db_entries d k))"

definition db_delete :: "database \<Rightarrow> key \<Rightarrow> database result" where
  "db_delete d k =
     (case db_put_fault d k of
        Some e \<Rightarrow> Err e
      | None \<Rightarrow> Ok (d\<lparr>db_entries := (db_entries d)(k := None)\<rparr>))"

definition db_empty :: database where
  "db_empty = \<lparr>db_entries = Map.empty, db_put_fault = (\<lambda>_. None), db_get_fault = (\<lambda>_. None)\<rparr>"

text \<open>Typed reads: \<open>get::<T>\<close> deserializes the stored bytes into the type that the caller asks for.\<close>

definition db_get_header :: "database \<Rightarrow> u32 \<Rightarrow> header option result" where
  "db_get_header d n =
     and_then (db_get d (BlockHeader n)) (\<lambda>v. case v of
         None \<Rightarrow> Ok None
       | Some (HeaderValue h) \<Rightarrow> Ok (Some h)
       | _ \<Rightarrow> Err [''Failed decoding the app data.''])"

definition db_get_count :: "database \<Rightarrow> u32 \<Rightarrow> u32 option result" where
  "db_get_count d n =
     and_then (db_get d (VerifiedCellCount n)) (\<lambda>v. case v of
         None \<Rightarrow> Ok None
       | Some (CountValue c) \<Rightarrow> Ok (Some c)
       | _ \<Rightarrow> Err [''Failed decoding the app data.''])"

definition db_get_app_data :: "database \<Rightarrow> u32 \<Rightarrow> u32 \<Rightarrow> app_data option result" where
  "db_get_app_data d a n =
     and_then (db_get d (AppData a n)) (\<lambda>v. case v of
         None \<Rightarrow> Ok None
       | Some (AppDataValue x) \<Rightarrow> Ok (Some x)
       | _ \<Rightarrow> Err [''Failed decoding the app data.''])"

definition db_get_checkpoint :: "database \<Rightarrow> finality_sync_checkpoint option result" where
  "db_get_checkpoint d =
     and_then (db_get d FinalitySyncCheckpointKey) (\<lambda>v. case v of
         None \<Rightarrow> Ok None
       | Some (CheckpointValue x) \<Rightarrow> Ok (Some x)
       | _ \<Rightarrow> Err [''Failed decoding the app data.''])"

text \<open>A put as a step on the database; a failed put leaves it alone.\<close>

definition db_put_op :: "key \<Rightarrow> db_value \<Rightarrow> (database, unit) op" where
  "db_put_op k v d =
     (case db_put d k v of Ok d' \<Rightarrow> (Ok (), d') | Err e \<Rightarrow> (Err e, d) | Panic m \<Rightarrow> (Panic m, d))"

section \<open>MemoryDB\<close>

definition APP_DATA_CF :: string where "APP_DATA_CF = ''avail_light_app_data_cf''"
definition BLOCK_HEADER_CF :: string where "BLOCK_HEADER_CF = ''avail_light_block_header_cf''"
definition CONFIDENCE_FACTOR_CF :: string where
  "CONFIDENCE_FACTOR_CF = ''avail_light_confidence_factor_cf''"
definition STATE_CF :: string where "STATE_CF = ''avail_light_state_cf''"
definition KADEMLIA_STORE_CF :: string where "KADEMLIA_STORE_CF = ''avail_light_kademlia_store_cf''"
definition FINALITY_SYNC_CHECKPOINT_KEY :: string where
  "FINALITY_SYNC_CHECKPOINT_KEY = ''finality_sync_checkpoint''"

fun hash_map_key :: "key \<Rightarrow> string" where
  "hash_map_key (AppData app_id block_number) =
     APP_DATA_CF @ '':'' @ show_word app_id @ '':'' @ show_word block_number"
| "hash_map_key (BlockHeader block_number) = BLOCK_HEADER_CF @ '':'' @ show_word block_number"
| "hash_map_key (VerifiedCellCount block_number) = CONFIDENCE_FACTOR_CF @ '':'' @ show_word block_number"
| "hash_map_key FinalitySyncCheckpointKey = FINALITY_SYNC_CHECKPOINT_KEY"

text \<open>\<open>serde_json::to_string\<close> and \<open>from_str\<close>, the latter at the type stored under the key.\<close>

record json_codec =
  to_json :: "db_value \<Rightarrow> string result"
  from_json :: "key \<Rightarrow> string \<Rightarrow> db_value result"

type_synonym memory_db = "string \<rightharpoonup> string"

definition mem_put :: "json_codec \<Rightarrow> memory_db \<Rightarrow> key \<Rightarrow> db_value \<Rightarrow> memory_db result" where
  "mem_put J m k v = map_res (\<lambda>s. m(hash_map_key k \<mapsto> s)) (to_json J v)"

definition mem_get :: "json_codec \<Rightarrow> memory_db \<Rightarrow> key \<Rightarrow> db_value option result" where
  "mem_get J m k =
     (case m (hash_map_key k) of None \<Rightarrow> Ok None | Some s \<Rightarrow> map_res Some (from_json J k s))"

definition mem_delete :: "memory_db \<Rightarrow> key \<Rightarrow> memory_db result" where
  "mem_delete m k = Ok (m(hash_map_key k := None))"

section \<open>RocksDB\<close>

definition to_be_bytes :: "u32 \<Rightarrow> bytes" where
  "to_be_bytes w = map (\<lambda>i. ucast (drop_bit (8 * i) w)) [3, 2, 1, 0]"

definition as_bytes :: "string \<Rightarrow> bytes" where
  "as_bytes s = map (\<lambda>c. word_of_nat (of_char c)) s"

fun rocks_key :: "key \<Rightarrow> string option \<times> bytes" where
  "rocks_key (AppData app_id block_number) =
     (Some APP_DATA_CF, as_bytes (show_word app_id @ '':'' @ show_word block_number))"
| "rocks_key (BlockHeader block_number) = (Some BLOCK_HEADER_CF, to_be_bytes block_number)"
| "rocks_key (VerifiedCellCount block_number) = (Some CONFIDENCE_FACTOR_CF, to_be_bytes block_number)"
| "rocks_key FinalitySyncCheckpointKey = (Some STATE_CF, as_bytes FINALITY_SYNC_CHECKPOINT_KEY)"

text \<open>The operations of the \<open>rocksdb\<close> crate on an opened database. The column family is \<open>None\<close> for
  the default partition.\<close>

record 'db rocksdb =
  rdb_cf_handle :: "'db \<Rightarrow> string \<Rightarrow> bool"
  rdb_put :: "'db \<Rightarrow> string option \<Rightarrow> bytes \<Rightarrow> bytes \<Rightarrow> 'db result"
  rdb_get :: "'db \<Rightarrow> string option \<Rightarrow> bytes \<Rightarrow> bytes option result"
  rdb_delete :: "'db \<Rightarrow> string option \<Rightarrow> bytes \<Rightarrow> 'db result"

record scale_codec =
  scale_encode :: "db_value \<Rightarrow> bytes"
  scale_decode :: "key \<Rightarrow> bytes \<Rightarrow> db_value result"

definition rocks_column_families :: "string list" where
  "rocks_column_families =
     [CONFIDENCE_FACTOR_CF, BLOCK_HEADER_CF, APP_DATA_CF, STATE_CF, KADEMLIA_STORE_CF]"

definition rocks_put ::
    "'db rocksdb \<Rightarrow> scale_codec \<Rightarrow> 'db \<Rightarrow> key \<Rightarrow> db_value \<Rightarrow> 'db result" where
  "rocks_put R S db k v =
     (case rocks_key k of
        (None, bs) \<Rightarrow>
          wrap_err ''Put operation failed on RocksDB'' (rdb_put R db None bs (scale_encode S v))
      | (Some cf, bs) \<Rightarrow>
          if \<not> rdb_cf_handle R db cf then Err [''Couldn't get Column Family handle from RocksDB'']
          else wrap_err ''Put operation with Column Family failed on RocksDB''
                 (rdb_put R db (Some cf) bs (scale_encode S v)))"

definition rocks_get ::
    "'db rocksdb \<Rightarrow> scale_codec \<Rightarrow> 'db \<Rightarrow> key \<Rightarrow> db_value option result" where
  "rocks_get R S db k =
     (let decode = (\<lambda>v. case v of
              None \<Rightarrow> Ok None
            | Some bs \<Rightarrow> map_res Some (wrap_err ''Failed decoding the app data.'' (scale_decode S k bs)))
      in case rocks_key k of
        (None, bs) \<Rightarrow>
          and_then (rdb_get R db None bs) (\<lambda>v. wrap_err ''Get operation failed on RocksDB'' (decode v))
      | (Some cf, bs) \<Rightarrow>
          if \<not> rdb_cf_handle R db cf then Err [''Couldn't get Column Family handle from RocksDB'']
          else and_then (rdb_get R db (Some cf) bs)
                 (\<lambda>v. wrap_err ''Get operation with Column Family failed on RocksDB'' (decode v)))"

definition rocks_delete :: "'db rocksdb \<Rightarrow> 'db \<Rightarrow> key \<Rightarrow> 'db result" where
  "rocks_delete R db k =
     (case rocks_key k of
        (None, bs) \<Rightarrow> wrap_err ''Delete operation failed on RocksDB'' (rdb_delete R db None bs)
      | (Some cf, bs) \<Rightarrow>
          if \<not> rdb_cf_handle R db cf then Err [''Couldn't get Column Family handle from RocksDB'']
          else wrap_err ''Delete operation with Column Family failed on RocksDB''
                 (rdb_delete R db (Some cf) bs))"

section \<open>Instances of the parameters for examples\<close>

text \<open>A crate that keeps the bytes last put under a key of a column family, and codecs for the
  counts only.\<close>

type_synonym cf_map = "string option \<times> bytes \<rightharpoonup> bytes"

definition map_rocksdb :: "string list \<Rightarrow> cf_map rocksdb" where
  "map_rocksdb cfs = \<lparr>
     rdb_cf_handle = (\<lambda>db cf. cf \<in> set cfs),
     rdb_put = (\<lambda>db cf k v. Ok (db((cf, k) \<mapsto> v))),
     rdb_get = (\<lambda>db cf k. Ok (db (cf, k))),
     rdb_delete = (\<lambda>db cf k. Ok (db((cf, k) := None)))\<rparr>"

definition sample_json :: json_codec where
  "sample_json = \<lparr>
     to_json = (\<lambda>v. case v of CountValue c \<Rightarrow> Ok (show_word c) | _ \<Rightarrow> Err [''unsupported'']),
     from_json = (\<lambda>k s. map_res CountValue (map_err (\<lambda>e. [int_error_text e]) (parse_u32 s)))\<rparr>"

definition sample_scale :: scale_codec where
  "sample_scale = \<lparr>
     scale_encode = (\<lambda>v. case v of CountValue c \<Rightarrow> to_be_bytes c | _ \<Rightarrow> []),
     scale_decode = (\<lambda>k bs. if bs = to_be_bytes 7 then Ok (CountValue 7) else Err [''unsupported''])\<rparr>"

section \<open>What the trait promises\<close>

text \<open>Puts in sequence, the way the clients issue them; the first failure ends the sequence.\<close>

fun put_all ::
    "('s \<Rightarrow> key \<Rightarrow> db_value \<Rightarrow> 's result) \<Rightarrow> 's \<Rightarrow> (key \<times> db_value) list \<Rightarrow> 's result" where
  "put_all put s [] = Ok s"
| "put_all put s ((k, v) # kvs) = and_then (put s k v) (\<lambda>s'. put_all put s' kvs)"

definition scale_admits :: "scale_codec \<Rightarrow> key \<Rightarrow> db_value \<Rightarrow> bool" where
  "scale_admits S k v \<longleftrightarrow> scale_decode S k (scale_encode S v) = Ok v"

definition json_admits :: "json_codec \<Rightarrow> key \<Rightarrow> db_value \<Rightarrow> bool" where
  "json_admits J k v \<longleftrightarrow> (case to_json J v of Ok s \<Rightarrow> from_json J k s = Ok v | _ \<Rightarrow> True)"

definition all_cfs_open :: "'db rocksdb \<Rightarrow> 'db \<Rightarrow> bool" where
  "all_cfs_open R db \<longleftrightarrow> list_all (rdb_cf_handle R db) rocks_column_families"

text \<open>The laws speak about the values that survive the backend's serializer under the key
  (\<open>admits\<close>); every value does that in the abstract database.\<close>

locale key_value =
  fixes put :: "'s \<Rightarrow> key \<Rightarrow> db_value \<Rightarrow> 's result"
    and get :: "'s \<Rightarrow> key \<Rightarrow> db_value option result"
    and delete :: "'s \<Rightarrow> key \<Rightarrow> 's result"
    and admits :: "key \<Rightarrow> db_value \<Rightarrow> bool"
    and readable :: "'s \<Rightarrow> bool"
  assumes get_put: "put s k v = Ok s' \<Longrightarrow> admits k v \<Longrightarrow> readable s \<Longrightarrow>
      get s' k' = (if k' = k then Ok (Some v) else get s k')"
    and get_delete: "delete s k = Ok s' \<Longrightarrow> readable s \<Longrightarrow>
      get s' k' = (if k' = k then Ok None else get s k')"
    and readable_put: "put s k v = Ok s' \<Longrightarrow> readable s \<Longrightarrow> readable s'"
    and readable_delete: "delete s k = Ok s' \<Longrightarrow> readable s \<Longrightarrow> readable s'"
begin

lemma get_put_all:
  "put_all put s kvs = Ok s' \<Longrightarrow> readable s \<Longrightarrow> (\<And>k v. (k, v) \<in> set kvs \<Longrightarrow> admits k v) \<Longrightarrow>
     get s' k = (case map_of (rev kvs) k of Some v \<Rightarrow> Ok (Some v) | None \<Rightarrow> get s k)"
proof (induction kvs arbitrary: s)
  case Nil
  then show ?case by simp
next
  case (Cons kv kvs)
  obtain k1 v1 where kv: "kv = (k1, v1)" by (cases kv)
  with Cons.prems(1) obtain s1 where s1: "put s k1 v1 = Ok s1" and rest: "put_all put s1 kvs = Ok s'"
    by (auto simp: res_simps)
  have "admits k1 v1" using Cons.prems(3) kv by simp
  with get_put [OF s1] Cons.prems(2)
  have get1: "get s1 k = (if k = k1 then Ok (Some v1) else get s k)" by simp
  have "readable s1" using readable_put [OF s1 Cons.prems(2)] .
  with Cons.IH [OF rest] Cons.prems(3) kv get1 show ?case
    by (auto simp: map_add_def split: option.splits)
qed

lemma get_put_delete:
  assumes "put s k v = Ok s1" "admits k v" "readable s" "delete s1 k = Ok s2"
  shows "get s2 k' = (if k' = k then Ok None else get s k')"
  using assms readable_put [OF assms(1,3)]
  by (simp add: get_put [OF assms(1-3)] get_delete [OF assms(4)])

end

text \<open>What \<open>RocksDB\<close> relies on in the crate \<open>rocksdb\<close>: a put or a delete that succeeds is seen by the
  next get of the same column family and key, touches nothing else and keeps the column families.\<close>

locale rocks_backend =
  fixes R :: "'db rocksdb"
  assumes cf_put: "rdb_put R db cf k v = Ok db' \<Longrightarrow> rdb_cf_handle R db' = rdb_cf_handle R db"
    and cf_delete: "rdb_delete R db cf k = Ok db' \<Longrightarrow> rdb_cf_handle R db' = rdb_cf_handle R db"
    and rdb_get_put: "rdb_put R db cf k v = Ok db' \<Longrightarrow>
      rdb_get R db' cf' k' = (if cf' = cf \<and> k' = k then Ok (Some v) else rdb_get R db cf' k')"
    and rdb_get_delete: "rdb_delete R db cf k = Ok db' \<Longrightarrow>
      rdb_get R db' cf' k' = (if cf' = cf \<and> k' = k then Ok None else rdb_get R db cf' k')"

section \<open>The key encodings are injective\<close>

lemma to_be_bytes_inj: "to_be_bytes v = to_be_bytes w \<Longrightarrow> v = w"
proof (rule bit_word_eqI)
  fix n assume eq: "to_be_bytes v = to_be_bytes w" and n: "n < LENGTH(32)"
  have "(ucast (drop_bit (8 * (n div 8)) v) :: u8) = ucast (drop_bit (8 * (n div 8)) w)"
  proof -
    have "n div 8 \<in> {0, 1, 2, 3}" using n by auto
    with eq show ?thesis by (auto simp: to_be_bytes_def)
  qed
  then have "bit (ucast (drop_bit (8 * (n div 8)) v) :: u8) (n mod 8) =
             bit (ucast (drop_bit (8 * (n div 8)) w) :: u8) (n mod 8)" by simp
  then show "bit v n = bit w n"
    using n by (simp add: bit_ucast_iff bit_drop_bit_eq)
qed

lemma as_bytes_inj [simp]: "as_bytes s = as_bytes t \<longleftrightarrow> s = t"
proof -
  have "inj (\<lambda>c :: char. word_of_nat (of_char c) :: u8)"
  proof (rule injI)
    fix c d :: char
    have lt: "(of_char x :: nat) < 256" for x :: char by (rule nat_of_char_less_256)
    assume "(word_of_nat (of_char c) :: u8) = word_of_nat (of_char d)"
    then have "unat (word_of_nat (of_char c) :: u8) = unat (word_of_nat (of_char d) :: u8)" by simp
    then have "(of_char c :: nat) = of_char d"
      using lt by (simp add: unat_of_nat take_bit_nat_eq_self)
    then show "c = d" by simp
  qed
  then show ?thesis unfolding as_bytes_def by (rule inj_map_eq_map)
qed

lemma colon_free: "CHR '':'' \<notin> set (show_word (w :: u32))"
  by (rule show_word_free) simp

lemma show_pair_inj:
  "show_word (a :: u32) @ '':'' @ show_word (b :: u32) = show_word c @ '':'' @ show_word d \<longleftrightarrow>
     a = c \<and> b = d"
proof
  assume eq: "show_word a @ '':'' @ show_word b = show_word c @ '':'' @ show_word d"
  have "split_on CHR '':'' (show_word x @ '':'' @ show_word y) = [show_word x, show_word y]"
    for x y :: u32
    by (simp add: split_on_append split_on_free colon_free)
  from arg_cong [OF eq, of "split_on CHR '':''"] this show "a = c \<and> b = d" by simp
qed simp

lemmas cf_names = APP_DATA_CF_def BLOCK_HEADER_CF_def CONFIDENCE_FACTOR_CF_def STATE_CF_def
  KADEMLIA_STORE_CF_def FINALITY_SYNC_CHECKPOINT_KEY_def

lemma hash_map_key_inj [simp]: "hash_map_key k = hash_map_key k' \<longleftrightarrow> k = k'"
proof
  assume eq: "hash_map_key k = hash_map_key k'"
  show "k = k'"
  proof (cases k; cases k')
    fix a b c d assume k: "k = AppData a b" "k' = AppData c d"
    with eq have "show_word a @ '':'' @ show_word b = show_word c @ '':'' @ show_word d" by simp
    with k show ?thesis by (simp only: show_pair_inj)
  qed (use eq in \<open>simp_all add: cf_names\<close>)
qed simp

lemma rocks_key_inj [simp]: "rocks_key k = rocks_key k' \<longleftrightarrow> k = k'"
proof
  assume eq: "rocks_key k = rocks_key k'"
  show "k = k'"
  proof (cases k; cases k')
    fix a b c d assume k: "k = AppData a b" "k' = AppData c d"
    with eq have "show_word a @ '':'' @ show_word b = show_word c @ '':'' @ show_word d" by simp
    with k show ?thesis by (simp only: show_pair_inj)
  qed (use eq in \<open>auto simp: cf_names dest: to_be_bytes_inj\<close>)
qed simp

lemma rocks_key_cf: "\<exists>cf bs. rocks_key k = (Some cf, bs) \<and> cf \<in> set rocks_column_families"
  by (cases k) (simp_all add: rocks_column_families_def)

lemma db_put_op_eq_Ok [res_simps]:
  "db_put_op k v d = (Ok u, d') \<longleftrightarrow> db_put d k v = Ok d'"
  by (auto simp: db_put_op_def split: res.splits)

lemma db_put_entries [store_simps]:
  "db_put d k v = Ok d' \<Longrightarrow> db_entries d' = (db_entries d)(k \<mapsto> v)"
  by (auto simp: db_put_def split: option.splits)

lemma db_put_op_entries:
  "db_entries (snd (db_put_op k v d)) = db_entries d \<or>
   db_entries (snd (db_put_op k v d)) = (db_entries d)(k \<mapsto> v)"
  by (auto simp: db_put_op_def db_put_entries split: res.splits)

section \<open>The implementations keep the promise\<close>

lemma rocks_put_eq_Ok:
  "rocks_put R S db k v = Ok db' \<longleftrightarrow>
     (\<exists>cf bs. rocks_key k = (Some cf, bs) \<and> rdb_cf_handle R db cf \<and>
        rdb_put R db (Some cf) bs (scale_encode S v) = Ok db')"
  using rocks_key_cf [of k] by (auto simp: rocks_put_def res_simps split: if_splits)

lemma rocks_delete_eq_Ok:
  "rocks_delete R db k = Ok db' \<longleftrightarrow>
     (\<exists>cf bs. rocks_key k = (Some cf, bs) \<and> rdb_cf_handle R db cf \<and>
        rdb_delete R db (Some cf) bs = Ok db')"
  using rocks_key_cf [of k] by (auto simp: rocks_delete_def res_simps split: if_splits)

context rocks_backend
begin

lemma rocks_get_put:
  assumes "rocks_put R S db k v = Ok db'" and "scale_admits S k v" and "all_cfs_open R db"
  shows "rocks_get R S db' k' = (if k' = k then Ok (Some v) else rocks_get R S db k')"
proof -
  obtain cf bs where k: "rocks_key k = (Some cf, bs)" "rdb_cf_handle R db cf"
    and p: "rdb_put R db (Some cf) bs (scale_encode S v) = Ok db'"
    using assms(1) by (auto simp: rocks_put_eq_Ok)
  obtain cf' bs' where k': "rocks_key k' = (Some cf', bs')" "cf' \<in> set rocks_column_families"
    using rocks_key_cf by blast
  have eq: "cf' = cf \<and> bs' = bs \<longleftrightarrow> k' = k" using rocks_key_inj [of k' k] k k' by auto
  show ?thesis
    using assms(2) k k' eq
    by (auto simp: rocks_get_def cf_put [OF p] rdb_get_put [OF p] scale_admits_def Let_def)
qed

lemma rocks_get_delete:
  assumes "rocks_delete R db k = Ok db'" and "all_cfs_open R db"
  shows "rocks_get R S db' k' = (if k' = k then Ok None else rocks_get R S db k')"
proof -
  obtain cf bs where k: "rocks_key k = (Some cf, bs)" "rdb_cf_handle R db cf"
    and p: "rdb_delete R db (Some cf) bs = Ok db'"
    using assms(1) by (auto simp: rocks_delete_eq_Ok)
  obtain cf' bs' where k': "rocks_key k' = (Some cf', bs')" "cf' \<in> set rocks_column_families"
    using rocks_key_cf by blast
  have eq: "cf' = cf \<and> bs' = bs \<longleftrightarrow> k' = k" using rocks_key_inj [of k' k] k k' by auto
  show ?thesis
    using k k' eq by (auto simp: rocks_get_def cf_delete [OF p] rdb_get_delete [OF p] Let_def)
qed

lemma all_cfs_open_put: "rocks_put R S db k v = Ok db' \<Longrightarrow> all_cfs_open R db \<Longrightarrow> all_cfs_open R db'"
  by (auto simp: rocks_put_eq_Ok all_cfs_open_def dest: cf_put)

lemma all_cfs_open_delete: "rocks_delete R db k = Ok db' \<Longrightarrow> all_cfs_open R db \<Longrightarrow> all_cfs_open R db'"
  by (auto simp: rocks_delete_eq_Ok all_cfs_open_def dest: cf_delete)

end

sublocale rocks_backend \<subseteq> rocks: key_value "rocks_put R S" "rocks_get R S" "rocks_delete R"
    "scale_admits S" "all_cfs_open R" for S
  by unfold_locales
    (auto simp: rocks_get_put rocks_get_delete intro: all_cfs_open_put all_cfs_open_delete)

context rocks_backend
begin

lemmas rocks_get_put_all = rocks.get_put_all

lemmas rocks_get_put_delete = rocks.get_put_delete

end

lemma map_rocksdb_simps [simp]:
  "rdb_cf_handle (map_rocksdb cfs) db cf = (cf \<in> set cfs)"
  "rdb_put (map_rocksdb cfs) db cfo k v = Ok (db((cfo, k) \<mapsto> v))"
  "rdb_get (map_rocksdb cfs) db cfo k = Ok (db (cfo, k))"
  "rdb_delete (map_rocksdb cfs) db cfo k = Ok (db((cfo, k) := None))"
  by (simp_all add: map_rocksdb_def)

interpretation map_backend: rocks_backend "map_rocksdb cfs" for cfs
  by unfold_locales auto

interpretation memory: key_value "mem_put J" "mem_get J" mem_delete "json_admits J" "\<lambda>_. True" for J
  by unfold_locales
    (auto simp: mem_put_def mem_get_def mem_delete_def json_admits_def res_simps)

interpretation abstract_db: key_value db_put db_get db_delete "\<lambda>_ _. True"
    "\<lambda>d. \<forall>k. db_get_fault d k = None"
  by unfold_locales
    (auto simp: db_put_def db_get_def db_delete_def split: option.splits)

section \<open>Properties\<close>

text \<open>A value that is put into \<open>RocksDB\<close> is returned by the next get of the same key and leaves
  the values of all other keys alone, for all four kinds of keys: no two keys share a column family and
  bytes. The crate \<open>rocksdb\<close> is assumed to behave so per column family and key, and the value to
  survive its codec.\<close>

theorem rocks_get_after_put:
  assumes "rocks_backend R" and "all_cfs_open R db" and "scale_admits S k v"
    and "rocks_put R S db k v = Ok db'"
  shows "rocks_get R S db' k' = (if k' = k then Ok (Some v) else rocks_get R S db k')"
  by (rule rocks_backend.rocks_get_put [OF assms(1,4,3,2)])

theorem rocks_get_after_put_witness:
  "rocks_get (map_rocksdb rocks_column_families) sample_scale
     (Map.empty(rocks_key (VerifiedCellCount 5) \<mapsto> to_be_bytes 7)) (VerifiedCellCount 5) =
       Ok (Some (CountValue 7))"
proof -
  let ?R = "map_rocksdb rocks_column_families"
  have "rocks_put ?R sample_scale Map.empty (VerifiedCellCount 5) (CountValue 7) =
      Ok (Map.empty(rocks_key (VerifiedCellCount 5) \<mapsto> to_be_bytes 7))"
    by (simp add: rocks_put_def sample_scale_def rocks_column_families_def)
  moreover have "rocks_backend ?R" by (rule map_backend.rocks_backend_axioms)
  moreover have "all_cfs_open ?R Map.empty" by (simp add: all_cfs_open_def list_all_iff)
  moreover have "scale_admits sample_scale (VerifiedCellCount 5) (CountValue 7)"
    by (simp add: scale_admits_def sample_scale_def)
  ultimately show ?thesis using rocks_get_after_put [of ?R Map.empty sample_scale] by simp
qed

text \<open>Tests run on \<open>MemoryDB\<close> and the program on \<open>RocksDB\<close>. After the same sequence of puts, into
  a memory database and a RocksDB that agreed before, every get returns the same on both, and it is
  the last value put under the key if there is one.\<close>

theorem backends_agree:
  assumes "rocks_backend R" and "all_cfs_open R db"
    and "\<And>k v. (k, v) \<in> set kvs \<Longrightarrow> scale_admits S k v \<and> json_admits J k v"
    and "put_all (rocks_put R S) db kvs = Ok db'" and "put_all (mem_put J) m kvs = Ok m'"
    and "rocks_get R S db k = mem_get J m k"
  shows "rocks_get R S db' k = mem_get J m' k \<and>
    (\<forall>v. map_of (rev kvs) k = Some v \<longrightarrow> mem_get J m' k = Ok (Some v))"
proof -
  have "rocks_get R S db' k =
      (case map_of (rev kvs) k of Some v \<Rightarrow> Ok (Some v) | None \<Rightarrow> rocks_get R S db k)"
    using rocks_backend.rocks_get_put_all [OF assms(1,4,2)] assms(3) by blast
  moreover have "mem_get J m' k =
      (case map_of (rev kvs) k of Some v \<Rightarrow> Ok (Some v) | None \<Rightarrow> mem_get J m k)"
    using memory.get_put_all [OF assms(5)] assms(3) by blast
  ultimately show ?thesis using assms(6) by (simp split: option.splits)
qed

theorem backends_agree_witness:
  "mem_get sample_json (Map.empty(hash_map_key (VerifiedCellCount 5) \<mapsto> ''7'')) (VerifiedCellCount 5) =
     Ok (Some (CountValue 7))"
proof -
  let ?R = "map_rocksdb rocks_column_families" and ?kvs = "[(VerifiedCellCount 5, CountValue 7)]"
  have seven: "show_word (7 :: u32) = ''7''" by code_simp
  have "put_all (rocks_put ?R sample_scale) Map.empty ?kvs =
      Ok (Map.empty(rocks_key (VerifiedCellCount 5) \<mapsto> to_be_bytes 7))"
    by (simp add: rocks_put_def sample_scale_def rocks_column_families_def)
  moreover have "put_all (mem_put sample_json) Map.empty ?kvs =
      Ok (Map.empty(hash_map_key (VerifiedCellCount 5) \<mapsto> ''7''))"
    by (simp add: mem_put_def sample_json_def seven)
  moreover have "rocks_get ?R sample_scale Map.empty (VerifiedCellCount 5) =
      mem_get sample_json Map.empty (VerifiedCellCount 5)"
    by (simp add: rocks_get_def mem_get_def rocks_column_families_def)
  moreover have "rocks_backend ?R" by (rule map_backend.rocks_backend_axioms)
  moreover have "all_cfs_open ?R Map.empty" by (simp add: all_cfs_open_def list_all_iff)
  ultimately show ?thesis
    using backends_agree [of ?R Map.empty ?kvs sample_scale sample_json]
    by (simp add: scale_admits_def sample_scale_def json_admits_def sample_json_def parse_u32_show_word)
qed

end
