(* ===== verification/Subscriptions.thy ===== *)
theory Subscriptions
  imports Rpc_Api Data
begin

text \<open>
  The subscription loop (\<open>src/network/rpc/subscriptions.rs\<close>): it pairs the headers and the
  justifications that the node pushes, checks finality and sends the finalized headers, with the
  skipped ones in front, to the clients.

  The state \<open>sub_loop\<close> has the fields of \<open>SubscriptionLoop\<close> and \<open>BlockData\<close>; \<open>sl_events\<close> is what has
  been sent on the broadcast channel. A failed \<open>expect\<close>, \<open>unwrap\<close> or \<open>assert!\<close> is a \<open>Panic\<close>. The
  environment has the RPC client, the signature scheme, whether the channel has receivers, and the
  instants at which headers are received.

  The lemmas show that the headers are sent in order and without a gap, and that a header is
  reported as finalized only after a justification for its hash has passed the finality check
  against the validator set that the headers before it determine.
\<close>

section \<open>State and environment\<close>

datatype event = HeaderUpdate (ev_header: header) (ev_received_at: nat)

datatype subscription = HeaderSub header | JustificationSub grandpa_justification

record sub_loop =
  sl_state :: state
  sl_db :: database
  sl_justifications :: "grandpa_justification list"
  sl_unverified_headers :: "(header \<times> nat \<times> validator_set) list"
  sl_current_valset :: validator_set
  sl_next_valset :: "validator_set option"
  sl_last_finalized_block_header :: "header option"
  sl_events :: "event list"

record ('dim, 'lk) sub_env =
  se_kate :: "('dim, 'lk) kate"
  se_verify :: sig_verifier
  se_rpc :: rpc_api
  se_has_receivers :: bool
  se_fetched_at :: "u32 \<Rightarrow> nat"

section \<open>Operations\<close>

definition sub_loop_new :: "rpc_api \<Rightarrow> state \<Rightarrow> database \<Rightarrow> sub_loop result" where
  "sub_loop_new R st db =
     and_then (rpc_get_finalized_head_hash R) (\<lambda>last_finalized_block_hash.
     and_then (rpc_get_validator_set_by_hash R last_finalized_block_hash) (\<lambda>vset.
     and_then (rpc_fetch_set_id_at R last_finalized_block_hash) (\<lambda>set_id.
     and_then (rpc_get_header_by_hash R last_finalized_block_hash) (\<lambda>last_header.
       Ok \<lparr>sl_state = st, sl_db = db, sl_justifications = [], sl_unverified_headers = [],
           sl_current_valset = \<lparr>vs_set_id = set_id, vs_validator_set = vset\<rparr>,
           sl_next_valset = None, sl_last_finalized_block_header = Some last_header,
           sl_events = []\<rparr>))))"

definition send_event :: "('dim, 'lk) sub_env \<Rightarrow> event \<Rightarrow> sub_loop \<Rightarrow> sub_loop result" where
  "send_event E ev s =
     (if se_has_receivers E then Ok (s\<lparr>sl_events := sl_events s @ [ev]\<rparr>)
      else Panic ''called `Result::unwrap()` on an `Err` value'')"

text \<open>One skipped block: its header from the unverified ones, or from the node.\<close>

definition send_skipped ::
    "('dim, 'lk) sub_env \<Rightarrow> u32 \<Rightarrow> sub_loop \<Rightarrow> sub_loop result" where
  "send_skipped E bl_num s =
     (case find_position (\<lambda>(h, _, _). h_number h = bl_num) (sl_unverified_headers s) of
        Some pos \<Rightarrow>
          (case sl_unverified_headers s ! pos of (h, received_at, _) \<Rightarrow>
             send_event E (HeaderUpdate h received_at)
               (s\<lparr>sl_unverified_headers := swap_remove pos (sl_unverified_headers s)\<rparr>))
      | None \<Rightarrow>
          (case rpc_get_header_by_block_number (se_rpc E) bl_num of
             Ok (h, _) \<Rightarrow> send_event E (HeaderUpdate h (se_fetched_at E bl_num)) s
           | _ \<Rightarrow> Panic ''called `Result::unwrap()` on an `Err` value''))"

fun send_skipped_all ::
    "('dim, 'lk) sub_env \<Rightarrow> u32 list \<Rightarrow> sub_loop \<Rightarrow> sub_loop result" where
  "send_skipped_all E [] s = Ok s"
| "send_skipped_all E (bl_num # bl_nums) s =
     and_then (send_skipped E bl_num s) (send_skipped_all E bl_nums)"

definition store_finality_checkpoint :: "header \<Rightarrow> sub_loop \<Rightarrow> sub_loop result" where
  "store_finality_checkpoint hdr s =
     (case db_put (sl_db s) FinalitySyncCheckpointKey
        (CheckpointValue \<lparr>fc_number = h_number hdr, fc_set_id = vs_set_id (sl_current_valset s),
           fc_validator_set = vs_validator_set (sl_current_valset s)\<rparr>) of
        Ok d \<Rightarrow> Ok (s\<lparr>sl_db := d\<rparr>)
      | _ \<Rightarrow> Panic ''called `Result::unwrap()` on an `Err` value'')"

text \<open>The body of the loop for a justification whose header is at \<open>pos\<close>. The flag caches
  \<open>finality_synced\<close> of the shared state.\<close>

definition finalize_header ::
    "('dim, 'lk) sub_env \<Rightarrow> grandpa_justification \<Rightarrow> nat \<Rightarrow> bool \<Rightarrow> sub_loop \<Rightarrow>
     (bool \<times> sub_loop) result" where
  "finalize_header E j pos synced s =
     (case sl_unverified_headers s ! pos of (hdr, received_at, valset) \<Rightarrow>
       (let s1 = s\<lparr>sl_unverified_headers := swap_remove pos (sl_unverified_headers s)\<rparr>
        in case check_finality (se_kate E) (se_verify E) valset j of
             Err _ \<Rightarrow> Panic ''Finality check failed''
           | Panic m \<Rightarrow> Panic m
           | Ok _ \<Rightarrow>
               (let synced' = (if synced then True else st_finality_synced (sl_state s1))
                in and_then (if synced' then store_finality_checkpoint hdr s1 else Ok s1) (\<lambda>s2.
                   and_then
                     (case sl_last_finalized_block_header s2 of
                        None \<Rightarrow> Ok s2
                      | Some last_header \<Rightarrow>
                          send_skipped_all E (range_u32 (h_number last_header + 1) (h_number hdr)) s2)
                     (\<lambda>s3.
                       let s4 = s3\<lparr>sl_last_finalized_block_header := Some hdr,
                                   sl_state := (sl_state s3)\<lparr>st_header_verified :=
                                     range_set (st_header_verified (sl_state s3)) (h_number hdr)\<rparr>\<rparr>
                       in map_res (Pair synced') (send_event E (HeaderUpdate hdr received_at) s4))))))"

text \<open>The loop pops justifications until one has no header yet; the third argument is the stack with
  its top first, which no other statement of the body touches.\<close>

fun verify_loop ::
    "('dim, 'lk) sub_env \<Rightarrow> bool \<Rightarrow> grandpa_justification list \<Rightarrow> sub_loop \<Rightarrow> sub_loop result" where
  "verify_loop E synced [] s = Ok (s\<lparr>sl_justifications := []\<rparr>)"
| "verify_loop E synced (j # js) s =
     (case find_position (\<lambda>(h, _, _). cm_target_hash (gj_commit j) = hash_of (se_kate E) h)
             (sl_unverified_headers s) of
        Some pos \<Rightarrow>
          and_then (finalize_header E j pos synced s) (\<lambda>(synced', s'). verify_loop E synced' js s')
      | None \<Rightarrow> Ok (s\<lparr>sl_justifications := rev (j # js)\<rparr>))"

definition verify_and_output_block_headers ::
    "('dim, 'lk) sub_env \<Rightarrow> sub_loop \<Rightarrow> sub_loop result" where
  "verify_and_output_block_headers E s = verify_loop E False (rev (sl_justifications s)) s"

definition push_header :: "header \<Rightarrow> nat \<Rightarrow> sub_loop \<Rightarrow> sub_loop" where
  "push_header hdr received_at s =
     (let s1 = s\<lparr>sl_state := (sl_state s)\<lparr>st_latest := h_number hdr\<rparr>\<rparr>;
          s2 = (case sl_next_valset s1 of
                  Some v \<Rightarrow> s1\<lparr>sl_current_valset := v, sl_next_valset := None\<rparr>
                | None \<Rightarrow> s1)
      in s2\<lparr>sl_unverified_headers :=
              sl_unverified_headers s2 @ [(hdr, received_at, sl_current_valset s2)]\<rparr>)"

definition note_valset_change ::
    "('dim, 'lk) kate \<Rightarrow> header \<Rightarrow> sub_loop \<Rightarrow> sub_loop result" where
  "note_valset_change K hdr s =
     (case filter_auth_set_changes K hdr of
        [] \<Rightarrow> Ok s
      | [auths] \<Rightarrow>
          Ok (s\<lparr>sl_next_valset := Some \<lparr>vs_set_id = vs_set_id (sl_current_valset s) + 1,
                                         vs_validator_set = map fst auths\<rparr>\<rparr>)
      | _ \<Rightarrow> Panic ''There should be only one valset change!'')"

definition handle_new_subscription ::
    "('dim, 'lk) sub_env \<Rightarrow> nat \<Rightarrow> subscription \<Rightarrow> sub_loop \<Rightarrow> sub_loop result" where
  "handle_new_subscription E now sub s =
     and_then
       (case sub of
          HeaderSub hdr \<Rightarrow> note_valset_change (se_kate E) hdr (push_header hdr now s)
        | JustificationSub j \<Rightarrow> Ok (s\<lparr>sl_justifications := sl_justifications s @ [j]\<rparr>))
       (verify_and_output_block_headers E)"

text \<open>\<open>run\<close>: the stream of subscriptions with their instants, up to its end or its first error.\<close>

fun sub_loop_run ::
    "('dim, 'lk) sub_env \<Rightarrow> (nat \<times> subscription result) list \<Rightarrow> sub_loop \<Rightarrow> sub_loop result" where
  "sub_loop_run E [] s = Ok s"
| "sub_loop_run E ((now, Ok sub) # subs) s =
     and_then (handle_new_subscription E now sub s) (sub_loop_run E subs)"
| "sub_loop_run E ((now, Err e) # subs) s = Err e"
| "sub_loop_run E ((now, Panic m) # subs) s = Panic m"

section \<open>Notions of the specification\<close>

text \<open>A header that changes the authority set, for an example below.\<close>

definition change_header :: "u32 \<Rightarrow> header" where
  "change_header n = (sample_header n)\<lparr>h_digest := [Consensus ''FRNK'' [1]]\<rparr>"

text \<open>A run for examples: block 5 and its justification arrive, block 4 was skipped.\<close>

definition sample_sub_env :: "(u16 \<times> u16, (u32 \<times> u32) list) sub_env" where
  "sample_sub_env = \<lparr>se_kate = sample_kate, se_verify = sample_verify, se_rpc = sample_rpc,
     se_has_receivers = True, se_fetched_at = (\<lambda>n. 0)\<rparr>"

definition sample_subs :: "(nat \<times> subscription result) list" where
  "sample_subs = [(10, Ok (HeaderSub (sample_header 5))),
     (11, Ok (JustificationSub (sample_justification [1, 2, 3])))]"

definition headers_of :: "(nat \<times> subscription result) list \<Rightarrow> header list" where
  "headers_of subs =
     concat (map (\<lambda>(_, r). case r of Ok (HeaderSub h) \<Rightarrow> [h] | _ \<Rightarrow> []) subs)"

definition justifications_of :: "(nat \<times> subscription result) list \<Rightarrow> grandpa_justification list" where
  "justifications_of subs =
     concat (map (\<lambda>(_, r). case r of Ok (JustificationSub j) \<Rightarrow> [j] | _ \<Rightarrow> []) subs)"

definition sent_numbers :: "sub_loop \<Rightarrow> u32 list" where
  "sent_numbers s = map (\<lambda>e. h_number (ev_header e)) (sl_events s)"

definition unverified_numbers :: "sub_loop \<Rightarrow> u32 list" where
  "unverified_numbers s = map (\<lambda>e. h_number (fst e)) (sl_unverified_headers s)"

text \<open>The blocks after \<open>a\<close> up to and including \<open>b\<close>.\<close>

definition blocks_after :: "u32 \<Rightarrow> u32 \<Rightarrow> u32 list" where
  "blocks_after a b = map word_of_nat [Suc (unat a) ..< Suc (unat b)]"

definition rpc_numbers_ok :: "rpc_api \<Rightarrow> bool" where
  "rpc_numbers_ok R \<longleftrightarrow>
     (\<forall>n h g. rpc_get_header_by_block_number R n = Ok (h, g) \<longrightarrow> h_number h = n)"

text \<open>The header was finalized by a justification that holds for the validator set which the headers
  before it determine.\<close>

definition finalized_by ::
    "('dim, 'lk) sub_env \<Rightarrow> validator_set \<Rightarrow> header list \<Rightarrow> grandpa_justification set \<Rightarrow> header \<Rightarrow> bool" where
  "finalized_by E vs0 hs js h \<longleftrightarrow>
     (\<exists>pre post j. hs = pre @ h # post \<and> j \<in> js \<and>
        cm_target_hash (gj_commit j) = hash_of (se_kate E) h \<and>
        check_finality (se_kate E) (se_verify E) (valset_after (se_kate E) vs0 pre) j = Ok ())"

text \<open>The invariant about validator sets and finalized headers after the headers \<open>hs\<close> and the
  justifications \<open>js\<close>, and the one about block numbers, where \<open>m\<close> is the newest number seen.\<close>

definition valset_inv ::
    "('dim, 'lk) sub_env \<Rightarrow> validator_set \<Rightarrow> header \<Rightarrow> header list \<Rightarrow> grandpa_justification set \<Rightarrow>
     sub_loop \<Rightarrow> bool" where
  "valset_inv E vs0 h0 hs js s \<longleftrightarrow>
     (case sl_next_valset s of Some v \<Rightarrow> v | None \<Rightarrow> sl_current_valset s) =
        valset_after (se_kate E) vs0 hs \<and>
     (\<forall>(h, t, vs) \<in> set (sl_unverified_headers s).
        \<exists>pre post. hs = pre @ h # post \<and> vs = valset_after (se_kate E) vs0 pre) \<and>
     (\<exists>h. sl_last_finalized_block_header s = Some h \<and> (h = h0 \<or> finalized_by E vs0 hs js h))"

definition number_inv :: "u32 \<Rightarrow> u32 \<Rightarrow> sub_loop \<Rightarrow> bool" where
  "number_inv l0 m s \<longleftrightarrow>
     (\<exists>h. sl_last_finalized_block_header s = Some h \<and> l0 \<le> h_number h \<and> h_number h \<le> m \<and>
        sent_numbers s = blocks_after l0 (h_number h) \<and>
        distinct (unverified_numbers s) \<and>
        (\<forall>n \<in> set (unverified_numbers s). h_number h < n \<and> n \<le> m))"

text \<open>What sending a skipped block leaves alone.\<close>

definition same_but_headers :: "sub_loop \<Rightarrow> sub_loop \<Rightarrow> bool" where
  "same_but_headers s s' \<longleftrightarrow>
     s'\<lparr>sl_unverified_headers := sl_unverified_headers s, sl_events := sl_events s\<rparr> = s \<and>
     set (sl_unverified_headers s') \<subseteq> set (sl_unverified_headers s)"

lemmas sub_numbers = sent_numbers_def unverified_numbers_def

section \<open>Block numbers: nothing is skipped\<close>

lemma find_number:
  assumes "find_position (\<lambda>(h, _, _). h_number h = bl) (sl_unverified_headers s) = Some pos"
  shows "pos < length (sl_unverified_headers s) \<and>
         h_number (fst (sl_unverified_headers s ! pos)) = bl"
  using find_position_Some [OF assms] by (auto split: prod.splits)

lemma find_number_None:
  "find_position (\<lambda>(h, _, _). h_number h = bl) (sl_unverified_headers s) = None \<Longrightarrow>
     bl \<notin> set (unverified_numbers s)"
  by (auto simp: find_position_None sub_numbers)

lemma send_event_eq_Ok [res_simps]:
  "send_event E ev s = Ok s' \<longleftrightarrow> se_has_receivers E \<and> s' = s\<lparr>sl_events := sl_events s @ [ev]\<rparr>"
  by (auto simp: send_event_def)

lemma same_but_headers_fields:
  "same_but_headers s s' \<Longrightarrow>
     sl_state s' = sl_state s \<and> sl_db s' = sl_db s \<and> sl_current_valset s' = sl_current_valset s \<and>
     sl_next_valset s' = sl_next_valset s \<and>
     sl_last_finalized_block_header s' = sl_last_finalized_block_header s \<and>
     set (sl_unverified_headers s') \<subseteq> set (sl_unverified_headers s)"
  by (cases s; cases s') (auto simp: same_but_headers_def)

lemma send_skipped_frame: "send_skipped E bl s = Ok s' \<Longrightarrow> same_but_headers s s'"
  by (auto simp: send_skipped_def res_simps same_but_headers_def
      dest!: find_number dest: set_swap_remove_subset [THEN subsetD]
      split: option.splits prod.splits res.splits)

lemma send_skipped_all_frame: "send_skipped_all E bls s = Ok s' \<Longrightarrow> same_but_headers s s'"
proof (induction bls arbitrary: s)
  case Nil
  then show ?case by (simp add: same_but_headers_def)
next
  case (Cons bl bls)
  then obtain s1 where "same_but_headers s s1" "same_but_headers s1 s'"
    by (auto simp: res_simps dest: send_skipped_frame)
  then show ?case by (cases s; cases s1; cases s') (auto simp: same_but_headers_def)
qed

lemma send_skipped_numbers:
  assumes "rpc_numbers_ok (se_rpc E)" and "distinct (unverified_numbers s)"
    and "send_skipped E bl s = Ok s'"
  shows "sent_numbers s' = sent_numbers s @ [bl] \<and> distinct (unverified_numbers s') \<and>
         set (unverified_numbers s') = set (unverified_numbers s) - {bl}"
proof (cases "find_position (\<lambda>(h, _, _). h_number h = bl) (sl_unverified_headers s)")
  case None
  with assms show ?thesis
    using find_number_None [OF None]
    by (auto simp: send_skipped_def res_simps rpc_numbers_ok_def sub_numbers split: res.splits prod.splits)
next
  case (Some pos)
  let ?u = "sl_unverified_headers s" and ?f = "\<lambda>e. h_number (fst e)"
  from find_number [OF Some] have pos: "pos < length ?u" "?f (?u ! pos) = bl" by auto
  have d: "distinct (map ?f ?u)" using assms(2) by (simp add: unverified_numbers_def)
  note dsr = distinct_map_swap_remove [OF pos(1) d]
  have "?f ` set ?u = insert bl (?f ` set (swap_remove pos ?u))"
    using set_swap_remove [OF pos(1)] pos(2) by auto
  with dsr pos(2) have "?f ` set (swap_remove pos ?u) = ?f ` set ?u - {bl}" by auto
  with dsr(1) assms(3) Some pos(2) show ?thesis
    by (auto simp: send_skipped_def res_simps sub_numbers split: prod.splits)
qed

lemma send_skipped_all_numbers:
  "rpc_numbers_ok (se_rpc E) \<Longrightarrow> distinct (unverified_numbers s) \<Longrightarrow>
   send_skipped_all E bls s = Ok s' \<Longrightarrow>
     sent_numbers s' = sent_numbers s @ bls \<and> distinct (unverified_numbers s') \<and>
     set (unverified_numbers s') = set (unverified_numbers s) - set bls"
proof (induction bls arbitrary: s)
  case Nil
  then show ?case by simp
next
  case (Cons bl bls)
  from Cons.prems(3) obtain s1 where s1: "send_skipped E bl s = Ok s1" and
      rest: "send_skipped_all E bls s1 = Ok s'" by (auto simp: res_simps)
  note first = send_skipped_numbers [OF Cons.prems(1,2) s1]
  with Cons.IH [OF Cons.prems(1) _ rest] show ?case by auto
qed

lemma blocks_after_extend:
  assumes "l0 \<le> n" and "n < k"
  shows "blocks_after l0 n @ range_u32 (n + 1) k @ [k] = blocks_after l0 k"
proof -
  have n: "unat l0 \<le> unat n" "unat n < unat k"
    using assms by (simp_all add: word_le_nat_alt word_less_nat_alt)
  have "unat n + 1 < 4294967296" using n(2) unat_u32_less [of k] by linarith
  then have "unat (n + 1) = Suc (unat n)" by (simp add: unat_word_ariths)
  moreover have "[Suc (unat l0) ..< Suc (unat k)] =
      [Suc (unat l0) ..< Suc (unat n)] @ [Suc (unat n) ..< unat k] @ [unat k]"
    using n upt_add_eq_append [of "Suc (unat l0)" "Suc (unat n)" "unat k - unat n"]
    by (simp add: upt_add_eq_append [symmetric] upt_Suc_append)
  ultimately show ?thesis by (simp add: blocks_after_def range_u32_def)
qed

lemma find_hash:
  assumes "find_position (\<lambda>(h, _, _). t = hash_of K h) us = Some pos"
  shows "pos < length us \<and> t = hash_of K (fst (us ! pos))"
  using find_position_Some [OF assms] by (auto split: prod.splits)

lemma finalize_headerE:
  assumes "finalize_header E j pos synced s = Ok (synced', s')"
  obtains hdr t vs d s3 where
    "sl_unverified_headers s ! pos = (hdr, t, vs)"
    "check_finality (se_kate E) (se_verify E) vs j = Ok ()"
    "(case sl_last_finalized_block_header s of
        None \<Rightarrow> Ok (s\<lparr>sl_unverified_headers := swap_remove pos (sl_unverified_headers s), sl_db := d\<rparr>)
      | Some l \<Rightarrow> send_skipped_all E (range_u32 (h_number l + 1) (h_number hdr))
          (s\<lparr>sl_unverified_headers := swap_remove pos (sl_unverified_headers s), sl_db := d\<rparr>)) = Ok s3"
    "s' = s3\<lparr>sl_last_finalized_block_header := Some hdr,
         sl_state := (sl_state s3)\<lparr>st_header_verified :=
           range_set (st_header_verified (sl_state s3)) (h_number hdr)\<rparr>,
         sl_events := sl_events s3 @ [HeaderUpdate hdr t]\<rparr>"
proof -
  obtain hdr t vs where at: "sl_unverified_headers s ! pos = (hdr, t, vs)" by (metis prod_cases3)
  let ?s1 = "s\<lparr>sl_unverified_headers := swap_remove pos (sl_unverified_headers s)\<rparr>"
  let ?sy = "if synced then True else st_finality_synced (sl_state s)"
  from assms at obtain s2 s3 where chk: "check_finality (se_kate E) (se_verify E) vs j = Ok ()"
    and s2: "(if ?sy then store_finality_checkpoint hdr ?s1 else Ok ?s1) = Ok s2"
    and s3: "(case sl_last_finalized_block_header s2 of None \<Rightarrow> Ok s2
      | Some l \<Rightarrow> send_skipped_all E (range_u32 (h_number l + 1) (h_number hdr)) s2) = Ok s3"
    and s': "s' = s3\<lparr>sl_last_finalized_block_header := Some hdr,
         sl_state := (sl_state s3)\<lparr>st_header_verified :=
           range_set (st_header_verified (sl_state s3)) (h_number hdr)\<rparr>,
         sl_events := sl_events s3 @ [HeaderUpdate hdr t]\<rparr>"
    by (auto simp: finalize_header_def Let_def res_simps split: res.splits if_splits)
  have "\<exists>d. s2 = ?s1\<lparr>sl_db := d\<rparr>"
    using s2 by (auto simp: store_finality_checkpoint_def split: res.splits if_splits intro: exI [of _ "sl_db s"])
  then obtain d where d: "s2 = ?s1\<lparr>sl_db := d\<rparr>" by blast
  from s3 have "(case sl_last_finalized_block_header s of None \<Rightarrow> Ok (?s1\<lparr>sl_db := d\<rparr>)
      | Some l \<Rightarrow> send_skipped_all E (range_u32 (h_number l + 1) (h_number hdr)) (?s1\<lparr>sl_db := d\<rparr>)) = Ok s3"
    unfolding d by simp
  then show thesis by (rule that [OF at chk _ s'])
qed

lemma finalize_number_inv:
  assumes "rpc_numbers_ok (se_rpc E)" and "number_inv l0 m s"
    and "pos < length (sl_unverified_headers s)"
    and "finalize_header E j pos synced s = Ok (synced', s')"
  shows "number_inv l0 m s'"
  using assms(4)
proof (rule finalize_headerE)
  fix hdr :: header and t vs d s3
  let ?u = "sl_unverified_headers s" and ?f = "\<lambda>e. h_number (fst e)" and ?k = "h_number hdr"
  assume at: "?u ! pos = (hdr, t, vs)"
    and s3: "(case sl_last_finalized_block_header s of
        None \<Rightarrow> Ok (s\<lparr>sl_unverified_headers := swap_remove pos ?u, sl_db := d\<rparr>)
      | Some l \<Rightarrow> send_skipped_all E (range_u32 (h_number l + 1) ?k)
          (s\<lparr>sl_unverified_headers := swap_remove pos ?u, sl_db := d\<rparr>)) = Ok s3"
    and s': "s' = s3\<lparr>sl_last_finalized_block_header := Some hdr,
         sl_state := (sl_state s3)\<lparr>st_header_verified :=
           range_set (st_header_verified (sl_state s3)) ?k\<rparr>,
         sl_events := sl_events s3 @ [HeaderUpdate hdr t]\<rparr>"
  from assms(2) obtain l where l: "sl_last_finalized_block_header s = Some l" "l0 \<le> h_number l"
    and ev: "sent_numbers s = blocks_after l0 (h_number l)" and d: "distinct (map ?f ?u)"
    and b: "\<And>n. n \<in> ?f ` set ?u \<Longrightarrow> h_number l < n \<and> n \<le> m"
    by (auto simp: number_inv_def unverified_numbers_def)
  have k: "h_number l < ?k" "?k \<le> m" using b [of ?k] at assms(3) nth_mem [OF assms(3)] by force+
  note dsr = distinct_map_swap_remove [OF assms(3) d]
  let ?s2 = "s\<lparr>sl_unverified_headers := swap_remove pos ?u, sl_db := d\<rparr>"
  have n2: "unverified_numbers ?s2 = map ?f (swap_remove pos ?u)" "sent_numbers ?s2 = sent_numbers s"
    by (simp_all add: sub_numbers)
  from s3 l(1) have "send_skipped_all E (range_u32 (h_number l + 1) ?k) ?s2 = Ok s3" by simp
  from send_skipped_all_numbers [OF assms(1) _ this] dsr(1) n2
  have n3: "sent_numbers s3 = sent_numbers s @ range_u32 (h_number l + 1) ?k"
    "distinct (unverified_numbers s3)"
    "set (unverified_numbers s3) = ?f ` set (swap_remove pos ?u) - set (range_u32 (h_number l + 1) ?k)"
    by auto
  have sub: "?f ` set (swap_remove pos ?u) \<subseteq> ?f ` set ?u - {?k}"
  proof -
    have "?k \<notin> ?f ` set (swap_remove pos ?u)" using dsr(2) at by simp
    then show ?thesis using image_mono [OF set_swap_remove_subset [OF assms(3)], of ?f] by blast
  qed
  have new: "?k < n \<and> n \<le> m" if "n \<in> set (unverified_numbers s3)" for n
  proof -
    from that n3(3) sub have n: "n \<in> ?f ` set ?u" "n \<noteq> ?k" "n \<notin> set (range_u32 (h_number l + 1) ?k)" by auto
    have "h_number l < n" using b n(1) by blast
    then have "h_number l + 1 \<le> n" by (metis add.commute inc_le)
    with n b show ?thesis by (auto simp: set_range_u32)
  qed
  have ev': "sent_numbers s' = blocks_after l0 ?k"
    using n3(1) ev blocks_after_extend [OF l(2) k(1)] by (simp add: s' sub_numbers)
  have "unverified_numbers s' = unverified_numbers s3" by (simp add: s' sub_numbers)
  with n3(2) new ev' k l(2) show "number_inv l0 m s'"
    unfolding number_inv_def by (auto simp: s')
qed

lemma verify_loop_number_inv:
  "rpc_numbers_ok (se_rpc E) \<Longrightarrow> number_inv l0 m s \<Longrightarrow> verify_loop E synced js s = Ok s' \<Longrightarrow>
     number_inv l0 m s'"
proof (induction js arbitrary: synced s)
  case Nil
  then show ?case by (auto simp: number_inv_def sub_numbers)
next
  case (Cons j js)
  show ?case
  proof (cases "find_position (\<lambda>(h, _, _). cm_target_hash (gj_commit j) = hash_of (se_kate E) h)
      (sl_unverified_headers s)")
    case None
    with Cons.prems show ?thesis by (auto simp: number_inv_def sub_numbers)
  next
    case (Some pos)
    with Cons.prems obtain f s1 where "finalize_header E j pos synced s = Ok (f, s1)"
        "verify_loop E f js s1 = Ok s'" by (auto simp: res_simps)
    with Cons.IH Cons.prems finalize_number_inv find_hash [OF Some] show ?thesis by blast
  qed
qed

section \<open>Validator sets and finalized headers\<close>

lemma valset_inv_justifications [simp]:
  "valset_inv E vs0 h0 hs js (s\<lparr>sl_justifications := x\<rparr>) = valset_inv E vs0 h0 hs js s"
  by (simp add: valset_inv_def cong: option.case_cong)

lemma valset_inv_finalized:
  "valset_inv E vs0 h0 hs js s \<Longrightarrow> finalized_by E vs0 hs js h \<Longrightarrow>
     set (sl_unverified_headers s') \<subseteq> set (sl_unverified_headers s) \<Longrightarrow>
     sl_next_valset s' = sl_next_valset s \<Longrightarrow> sl_current_valset s' = sl_current_valset s \<Longrightarrow>
     sl_last_finalized_block_header s' = Some h \<Longrightarrow> valset_inv E vs0 h0 hs js s'"
  unfolding valset_inv_def
  by (elim conjE, intro conjI)
    (simp cong: option.case_cong, rule ballI, drule (1) subsetD, drule (1) bspec, assumption, blast)

lemma finalize_valset_inv:
  assumes "valset_inv E vs0 h0 hs js s" and "j \<in> js"
    and "find_position (\<lambda>(h, _, _). cm_target_hash (gj_commit j) = hash_of (se_kate E) h)
           (sl_unverified_headers s) = Some pos"
    and "finalize_header E j pos synced s = Ok (synced', s')"
  shows "valset_inv E vs0 h0 hs js s'"
  using assms(4)
proof (rule finalize_headerE)
  fix hdr :: header and t vs d s3
  let ?u = "sl_unverified_headers s"
  let ?s2 = "s\<lparr>sl_unverified_headers := swap_remove pos ?u, sl_db := d\<rparr>"
  assume at: "?u ! pos = (hdr, t, vs)"
    and chk: "check_finality (se_kate E) (se_verify E) vs j = Ok ()"
    and s3: "(case sl_last_finalized_block_header s of None \<Rightarrow> Ok ?s2
      | Some l \<Rightarrow> send_skipped_all E (range_u32 (h_number l + 1) (h_number hdr)) ?s2) = Ok s3"
    and s': "s' = s3\<lparr>sl_last_finalized_block_header := Some hdr,
         sl_state := (sl_state s3)\<lparr>st_header_verified :=
           range_set (st_header_verified (sl_state s3)) (h_number hdr)\<rparr>,
         sl_events := sl_events s3 @ [HeaderUpdate hdr t]\<rparr>"
  from find_hash [OF assms(3)] at
  have pos: "pos < length ?u" "cm_target_hash (gj_commit j) = hash_of (se_kate E) hdr" by auto
  have "(hdr, t, vs) \<in> set ?u" using at pos(1) nth_mem by metis
  with assms(1) obtain pre post where pre: "hs = pre @ hdr # post"
      "vs = valset_after (se_kate E) vs0 pre"
    by (auto simp: valset_inv_def)
  with chk pos(2) assms(2) have fin: "finalized_by E vs0 hs js hdr"
    by (auto simp: finalized_by_def)
  have "same_but_headers ?s2 s3"
  proof (cases "sl_last_finalized_block_header s")
    case None
    with s3 show ?thesis by (simp add: same_but_headers_def)
  next
    case (Some l)
    with s3 show ?thesis by (simp add: send_skipped_all_frame)
  qed
  note f = same_but_headers_fields [OF this]
  then have "set (sl_unverified_headers s') \<subseteq> set ?u"
    using set_swap_remove_subset [OF pos(1)] by (auto simp: s')
  moreover have "sl_next_valset s' = sl_next_valset s" "sl_current_valset s' = sl_current_valset s"
    using f by (simp_all add: s')
  moreover have "sl_last_finalized_block_header s' = Some hdr" by (simp add: s')
  ultimately show "valset_inv E vs0 h0 hs js s'" using valset_inv_finalized [OF assms(1) fin] by simp
qed

lemma verify_loop_valset_inv:
  "valset_inv E vs0 h0 hs js s \<Longrightarrow> set stack \<subseteq> js \<Longrightarrow> verify_loop E synced stack s = Ok s' \<Longrightarrow>
     valset_inv E vs0 h0 hs js s' \<and> set (sl_justifications s') \<subseteq> js"
proof (induction stack arbitrary: synced s)
  case Nil
  then show ?case by auto
next
  case (Cons j stack)
  show ?case
  proof (cases "find_position (\<lambda>(h, _, _). cm_target_hash (gj_commit j) = hash_of (se_kate E) h)
      (sl_unverified_headers s)")
    case None
    with Cons.prems show ?thesis by auto
  next
    case (Some pos)
    with Cons.prems(3) obtain f s1 where fin: "finalize_header E j pos synced s = Ok (f, s1)"
      and rest: "verify_loop E f stack s1 = Ok s'" by (auto simp: res_simps)
    have "j \<in> js" "set stack \<subseteq> js" using Cons.prems(2) by auto
    with Cons.IH [OF _ _ rest] finalize_valset_inv [OF Cons.prems(1) _ Some fin] show ?thesis by simp
  qed
qed

lemma finalized_by_mono:
  "finalized_by E vs0 hs js h \<Longrightarrow> js \<subseteq> js' \<Longrightarrow> finalized_by E vs0 (hs @ hs') js' h"
  by (fastforce simp: finalized_by_def)

lemma push_header_valset_inv:
  assumes "valset_inv E vs0 h0 hs js s" and "note_valset_change (se_kate E) hdr (push_header hdr t s) = Ok s'"
  shows "valset_inv E vs0 h0 (hs @ [hdr]) js s' \<and> sl_justifications s' = sl_justifications s"
proof -
  let ?p = "push_header hdr t s" and ?v = "valset_after (se_kate E) vs0 hs"
  have cur: "sl_current_valset ?p = ?v" "sl_next_valset ?p = None"
    using assms(1) by (auto simp: valset_inv_def push_header_def Let_def split: option.splits)
  have u: "sl_unverified_headers ?p = sl_unverified_headers s @ [(hdr, t, ?v)]"
    "sl_last_finalized_block_header ?p = sl_last_finalized_block_header s"
    "sl_justifications ?p = sl_justifications s"
    using assms(1) by (auto simp: valset_inv_def push_header_def Let_def split: option.splits)
  have un: "\<exists>pre post. hs @ [hdr] = pre @ h # post \<and> vs = valset_after (se_kate E) vs0 pre"
    if "(h, r, vs) \<in> set (sl_unverified_headers ?p)" for h r vs
  proof -
    from that u(1) consider "(h, r, vs) \<in> set (sl_unverified_headers s)" | "h = hdr" "vs = ?v" by auto
    then show ?thesis
    proof cases
      case 1
      with assms(1) obtain pre post where "hs = pre @ h # post" "vs = valset_after (se_kate E) vs0 pre"
        by (auto simp: valset_inv_def)
      then have "hs @ [hdr] = pre @ h # (post @ [hdr])" "vs = valset_after (se_kate E) vs0 pre" by auto
      then show ?thesis by blast
    qed blast
  qed
  obtain h where h: "sl_last_finalized_block_header s = Some h" "h = h0 \<or> finalized_by E vs0 hs js h"
    using assms(1) by (auto simp: valset_inv_def)
  then have h': "h = h0 \<or> finalized_by E vs0 (hs @ [hdr]) js h" using finalized_by_mono by blast
  have "sl_unverified_headers s' = sl_unverified_headers ?p"
      "sl_last_finalized_block_header s' = Some h" "sl_justifications s' = sl_justifications s"
      "(case sl_next_valset s' of Some v \<Rightarrow> v | None \<Rightarrow> sl_current_valset s') = apply_change (se_kate E) ?v hdr"
    using assms(2) cur u(2,3) h(1)
    by (auto simp: note_valset_change_def apply_change_def split: list.splits)
  then show ?thesis using un h' unfolding valset_inv_def valset_after_simps by fastforce
qed

lemma valset_inv_more_js: "valset_inv E vs0 h0 hs js s \<Longrightarrow> js \<subseteq> js' \<Longrightarrow> valset_inv E vs0 h0 hs js' s"
  using finalized_by_mono [of E vs0 hs js _ js' "[]"] by (fastforce simp: valset_inv_def)

lemma handle_valset_inv:
  assumes "valset_inv E vs0 h0 hs js s" and "set (sl_justifications s) \<subseteq> js"
    and "handle_new_subscription E now sub s = Ok s'"
  shows "case sub of
      HeaderSub h \<Rightarrow> valset_inv E vs0 h0 (hs @ [h]) js s' \<and> set (sl_justifications s') \<subseteq> js
    | JustificationSub j \<Rightarrow>
        valset_inv E vs0 h0 hs (insert j js) s' \<and> set (sl_justifications s') \<subseteq> insert j js"
proof (cases sub)
  case (HeaderSub h)
  with assms(3) obtain s1 where s1: "note_valset_change (se_kate E) h (push_header h now s) = Ok s1"
      "verify_loop E False (rev (sl_justifications s1)) s1 = Ok s'"
    by (auto simp: handle_new_subscription_def verify_and_output_block_headers_def res_simps)
  have "valset_inv E vs0 h0 (hs @ [h]) js s1 \<and> sl_justifications s1 = sl_justifications s"
    by (rule push_header_valset_inv [OF assms(1) s1(1)])
  with verify_loop_valset_inv [OF _ _ s1(2), of vs0 h0 "hs @ [h]" js] assms(2) HeaderSub
  show ?thesis by simp
next
  case (JustificationSub j)
  let ?s1 = "s\<lparr>sl_justifications := sl_justifications s @ [j]\<rparr>"
  have run: "verify_loop E False (rev (sl_justifications ?s1)) ?s1 = Ok s'"
    using assms(3) JustificationSub
    by (simp add: handle_new_subscription_def verify_and_output_block_headers_def del: verify_loop.simps)
  have inv: "valset_inv E vs0 h0 hs (insert j js) ?s1"
    using valset_inv_more_js [OF assms(1), of "insert j js"] by auto
  have "set (rev (sl_justifications ?s1)) \<subseteq> insert j js" using assms(2) by auto
  from verify_loop_valset_inv [OF inv this run] JustificationSub show ?thesis by simp
qed

lemma run_valset_inv:
  "valset_inv E vs0 h0 hs js s \<Longrightarrow> set (sl_justifications s) \<subseteq> js \<Longrightarrow> sub_loop_run E subs s = Ok s' \<Longrightarrow>
     valset_inv E vs0 h0 (hs @ headers_of subs) (js \<union> set (justifications_of subs)) s'"
proof (induction E subs s arbitrary: hs js rule: sub_loop_run.induct)
  case (1 E s)
  then show ?case by (simp add: headers_of_def justifications_of_def)
next
  case (2 E now sub subs s)
  then obtain s1 where s1: "handle_new_subscription E now sub s = Ok s1" "sub_loop_run E subs s1 = Ok s'"
    by (auto simp: res_simps)
  note h = handle_valset_inv [OF "2.prems"(1,2) s1(1)]
  show ?case
  proof (cases sub)
    case (HeaderSub h)
    with h "2.IH" [OF _ _ s1(2), of "hs @ [h]" js] s1 show ?thesis
      by (simp add: headers_of_def justifications_of_def)
  next
    case (JustificationSub j)
    with h "2.IH" [OF _ _ s1(2), of hs "insert j js"] s1 show ?thesis
      by (simp add: headers_of_def justifications_of_def)
  qed
qed simp_all

lemma push_header_number_inv:
  assumes "number_inv l0 m s" "m < h_number h" "note_valset_change K h (push_header h now s) = Ok s1"
  shows "number_inv l0 (h_number h) s1"
proof -
  have "unverified_numbers (push_header h now s) = unverified_numbers s @ [h_number h]"
      "sent_numbers (push_header h now s) = sent_numbers s"
      "sl_last_finalized_block_header (push_header h now s) = sl_last_finalized_block_header s"
    by (simp_all add: push_header_def Let_def sub_numbers split: option.splits)
  then have "number_inv l0 (h_number h) (push_header h now s)"
    using assms(1,2) unfolding number_inv_def by fastforce
  then show ?thesis
    using assms(3) by (auto simp: note_valset_change_def number_inv_def sub_numbers split: list.splits)
qed

lemma push_justification_number_inv:
  "number_inv l0 m s \<Longrightarrow> number_inv l0 m (s\<lparr>sl_justifications := js\<rparr>)"
  by (simp add: number_inv_def sub_numbers)

lemma handle_number_inv:
  assumes "rpc_numbers_ok (se_rpc E)" and "number_inv l0 m s"
    and "handle_new_subscription E now sub s = Ok s'"
  shows "case sub of HeaderSub h \<Rightarrow> m < h_number h \<longrightarrow> number_inv l0 (h_number h) s'
    | JustificationSub j \<Rightarrow> number_inv l0 m s'"
proof (cases sub)
  case (HeaderSub h)
  with assms show ?thesis
    by (auto simp: handle_new_subscription_def verify_and_output_block_headers_def res_simps
        dest: verify_loop_number_inv push_header_number_inv)
next
  case (JustificationSub j)
  with assms show ?thesis
    by (auto simp: handle_new_subscription_def verify_and_output_block_headers_def
        simp del: verify_loop.simps dest: verify_loop_number_inv [OF _ push_justification_number_inv])
qed

lemma run_number_inv:
  "rpc_numbers_ok (se_rpc E) \<Longrightarrow> number_inv l0 m s \<Longrightarrow>
   sorted_wrt (<) (m # map h_number (headers_of subs)) \<Longrightarrow> sub_loop_run E subs s = Ok s' \<Longrightarrow>
     \<exists>m'. number_inv l0 m' s'"
proof (induction E subs s arbitrary: m rule: sub_loop_run.induct)
  case (1 E s)
  then show ?case by auto
next
  case (2 E now sub subs s)
  then obtain s1 where s1: "handle_new_subscription E now sub s = Ok s1" "sub_loop_run E subs s1 = Ok s'"
    by (auto simp: res_simps)
  note h = handle_number_inv [OF "2.prems"(1,2) s1(1)]
  show ?case
  proof (cases sub)
    case (HeaderSub h)
    with h "2.prems" "2.IH" [OF "2.prems"(1), of "h_number h"] s1(2) show ?thesis
      by (simp add: headers_of_def)
  next
    case (JustificationSub j)
    with h "2.prems" "2.IH" [OF "2.prems"(1), of m] s1(2) show ?thesis
      by (simp add: headers_of_def)
  qed
qed simp_all

section \<open>Properties\<close>

lemma number_inv_new:
  "sl_last_finalized_block_header s = Some h \<Longrightarrow> sl_events s = [] \<Longrightarrow> sl_unverified_headers s = [] \<Longrightarrow>
     number_inv (h_number h) (h_number h) s"
  by (simp add: number_inv_def sub_numbers blocks_after_def)

lemma sub_loop_new_fields:
  assumes "sub_loop_new R st db = Ok s"
  shows "\<exists>h0. sl_last_finalized_block_header s = Some h0 \<and> sl_events s = [] \<and>
    sl_unverified_headers s = [] \<and> sl_justifications s = [] \<and> sl_next_valset s = None"
  using assms by (auto simp: sub_loop_new_def res_simps)


lemma sample_rpc_numbers: "rpc_numbers_ok (se_rpc sample_sub_env)"
  by (simp add: rpc_numbers_ok_def sample_sub_env_def)

lemma sample_sub_loop_new:
  "sub_loop_new sample_rpc st db =
     Ok \<lparr>sl_state = st, sl_db = db, sl_justifications = [], sl_unverified_headers = [],
         sl_current_valset = \<lparr>vs_set_id = 20, vs_validator_set = [1, 2, 3, 4]\<rparr>, sl_next_valset = None,
         sl_last_finalized_block_header = Some (sample_header 3), sl_events = []\<rparr>"
  by (simp add: sub_loop_new_def)

lemma sample_run:
  "\<exists>s0 s. sub_loop_new sample_rpc state_default db_empty = Ok s0 \<and>
     sl_last_finalized_block_header s0 = Some (sample_header 3) \<and>
     sl_current_valset s0 = \<lparr>vs_set_id = 20, vs_validator_set = [1, 2, 3, 4]\<rparr> \<and>
     sub_loop_run sample_sub_env sample_subs s0 = Ok s \<and>
     sl_last_finalized_block_header s = Some (sample_header 5)"
proof -
  have "range_u32 4 5 = [4]" by (simp add: range_u32_Cons range_u32_empty)
  moreover have "check_finality sample_kate sample_verify \<lparr>vs_set_id = 20, vs_validator_set = [1, 2, 3, 4]\<rparr>
      (sample_justification [1, 2, 3]) = Ok ()"
    by (rule sample_justification_ok) simp
  moreover have "cm_target_hash (gj_commit (sample_justification ks)) = 5" for ks
    by (simp add: sample_justification_def)
  ultimately show ?thesis
    by (simp add: sample_sub_loop_new sample_subs_def sample_sub_env_def handle_new_subscription_def
        push_header_def note_valset_change_def verify_and_output_block_headers_def
        finalize_header_def send_skipped_def send_event_def state_default_def swap_remove_def Let_def)
qed


text \<open>C4: A header becomes the last finalized one, which is what \<open>header_verified\<close> reports, only if the
  node sent it and sent a justification for its hash that passes \<open>check_finality\<close> against the right
  validator set: the initial one with the changes announced by the headers before it, each under
  the next set id.\<close>

theorem subscription_finalized_sound:
  assumes "sub_loop_new R st db = Ok s0" and "sl_last_finalized_block_header s0 = Some h0"
    and "sub_loop_run E subs s0 = Ok s"
  shows "\<exists>h. sl_last_finalized_block_header s = Some h \<and>
    (h = h0 \<or> finalized_by E (sl_current_valset s0) (headers_of subs) (set (justifications_of subs)) h)"
proof -
  have "valset_inv E (sl_current_valset s0) h0 [] {} s0" "sl_justifications s0 = []"
    using sub_loop_new_fields [OF assms(1)] assms(2) by (auto simp: valset_inv_def)
  from run_valset_inv [OF this(1) _ assms(3)] this(2) show ?thesis by (auto simp: valset_inv_def)
qed

theorem subscription_finalized_sound_witness:
  "finalized_by sample_sub_env \<lparr>vs_set_id = 20, vs_validator_set = [1, 2, 3, 4]\<rparr> [sample_header 5]
     {sample_justification [1, 2, 3]} (sample_header 5)"
proof -
  obtain s0 s where run: "sub_loop_new sample_rpc state_default db_empty = Ok s0"
      "sl_last_finalized_block_header s0 = Some (sample_header 3)"
      "sl_current_valset s0 = \<lparr>vs_set_id = 20, vs_validator_set = [1, 2, 3, 4]\<rparr>"
      "sub_loop_run sample_sub_env sample_subs s0 = Ok s"
      "sl_last_finalized_block_header s = Some (sample_header 5)"
    using sample_run by blast
  have "sample_header 5 \<noteq> sample_header 3"
    by (simp add: sample_header_def)
  with subscription_finalized_sound [OF run(1,2,4)] run(3,5) show ?thesis
    by (simp add: headers_of_def justifications_of_def sample_subs_def)
qed


end
