(* ===== verification/Sync_Finality.thy ===== *)
theory Sync_Finality
  imports Rpc_Api Data
begin

text \<open>
  The finality sync (\<open>src/sync_finality.rs\<close>): from the stored checkpoint, or from genesis, it walks over
  all blocks up to the finalized head, checks that each header names the hash of its predecessor as
  parent, stores it, and at each block that changes the authority set checks a finality proof
  against the current set and stores a new checkpoint.

  The methods of \<open>impl Client for SyncFinality\<close> are the definitions \<open>sf_*\<close> over the RPC
  interface and the database. The loop ends because the distance from the current to the last block number, modulo
  \<open>2^32\<close>, decreases. \<open>twox_128\<close> is a parameter.

  The lemmas show that a successful run has checked a chain of headers linked by their hashes,
  and that every checkpoint, also of a run that fails, is backed by such a chain.
\<close>

section \<open>The client of the sync\<close>

definition sf_get_paged_storage_keys :: "rpc_api \<Rightarrow> bytes \<Rightarrow> nat \<Rightarrow> h256 \<Rightarrow> storage_key list result" where
  "sf_get_paged_storage_keys R k cnt h =
     wrap_err ''Finality Sync Client failed to get paged Storage Keys'' (rpc_get_paged_storage_keys R k cnt h)"

definition sf_get_genesis_hash :: "rpc_api \<Rightarrow> h256 result" where
  "sf_get_genesis_hash R =
     wrap_err ''Finality Sync Client failed to get Genesis Hash'' (rpc_get_genesis_hash R)"

definition sf_fetch_set_id_at :: "rpc_api \<Rightarrow> h256 \<Rightarrow> u64 result" where
  "sf_fetch_set_id_at R h =
     wrap_err ''Finality Sync Client failed to fetch Set ID at provided Block Hash'' (rpc_fetch_set_id_at R h)"

definition sf_get_validator_set_at :: "rpc_api \<Rightarrow> h256 \<Rightarrow> account_id list option result" where
  "sf_get_validator_set_at R h =
     wrap_err ''Finality Sync Client failed to get Validator Set at provided Block Hash''
       (rpc_get_validator_set_at R h)"

definition sf_get_session_key_owner_at ::
    "rpc_api \<Rightarrow> h256 \<Rightarrow> public_key \<Rightarrow> account_id option result" where
  "sf_get_session_key_owner_at R h k =
     wrap_err ''Finality Sync Client failed to get Session Key Owner for provided Block Hash''
       (rpc_get_session_key_owner_at R h k)"

definition sf_get_block_hash :: "rpc_api \<Rightarrow> u32 \<Rightarrow> h256 result" where
  "sf_get_block_hash R n =
     wrap_err ''Finality Sync Client failed to get Block Hash'' (rpc_get_block_hash R n)"

definition sf_get_header_by_hash :: "rpc_api \<Rightarrow> h256 \<Rightarrow> header result" where
  "sf_get_header_by_hash R h =
     wrap_err ''Finality Sync Client failed to get Header by Hash'' (rpc_get_header_by_hash R h)"

definition sf_request_finality_proof :: "rpc_api \<Rightarrow> u32 \<Rightarrow> finality_proof result" where
  "sf_request_finality_proof R n =
     wrap_err ''Finality Sync Client failed to request Finality Proof'' (rpc_request_finality_proof R n)"

definition sf_store_block_header :: "u32 \<Rightarrow> header \<Rightarrow> (database, unit) op" where
  "sf_store_block_header n h =
     op_wrap_err ''Finality Sync Client failed to store Block Header'' (db_put_op (BlockHeader n) (HeaderValue h))"

definition sf_get_checkpoint :: "database \<Rightarrow> finality_sync_checkpoint option result" where
  "sf_get_checkpoint d =
     wrap_err ''Finality Sync Client failed to get Checkpoint'' (db_get_checkpoint d)"

definition sf_store_checkpoint :: "finality_sync_checkpoint \<Rightarrow> (database, unit) op" where
  "sf_store_checkpoint c =
     op_wrap_err ''Finality Sync Client failed to store Checkpoint''
       (db_put_op FinalitySyncCheckpointKey (CheckpointValue c))"

lemmas sf_calls = sf_get_paged_storage_keys_def sf_get_genesis_hash_def sf_fetch_set_id_at_def
  sf_get_validator_set_at_def sf_get_session_key_owner_at_def sf_get_block_hash_def
  sf_get_header_by_hash_def sf_request_finality_proof_def

section \<open>The validator set at genesis\<close>

definition GRANDPA_KEY_ID :: bytes where "GRANDPA_KEY_ID = as_bytes ''gran''"
definition GRANDPA_KEY_LEN :: nat where "GRANDPA_KEY_LEN = 32"

text \<open>\<open>ed25519::Public::from_raw\<close> of 32 bytes, and \<open>slice::windows(n).any(|e| e == w)\<close>.\<close>

definition public_from_raw :: "bytes \<Rightarrow> public_key" where
  "public_from_raw bs = foldl (\<lambda>a b. a * 256 + ucast b) 0 bs"

fun any_window :: "'a list \<Rightarrow> 'a list \<Rightarrow> bool" where
  "any_window w [] = (w = [])"
| "any_window w (x # xs) = (take (length w) (x # xs) = w \<or> any_window w xs)"

text \<open>One storage key without its prefix: a key shorter than the prefix, or a rest shorter than 32
  bytes, is a panic of the slice.\<close>

definition strip_prefix_len :: "nat \<Rightarrow> storage_key \<Rightarrow> bytes result" where
  "strip_prefix_len n e = (if n \<le> length e then Ok (drop n e) else Panic ''range start index out of range'')"

definition is_grandpa_key :: "bytes \<Rightarrow> bool result" where
  "is_grandpa_key e =
     (if length e < GRANDPA_KEY_LEN then Panic ''range end index out of range''
      else Ok (any_window GRANDPA_KEY_ID (take (length e - GRANDPA_KEY_LEN) e)))"

definition grandpa_key_of :: "nat \<Rightarrow> storage_key \<Rightarrow> public_key option result" where
  "grandpa_key_of n key =
     and_then (strip_prefix_len n key) (\<lambda>e.
     map_res (\<lambda>keep. if keep then Some (public_from_raw (drop (length e - GRANDPA_KEY_LEN) e)) else None)
       (is_grandpa_key e))"

definition owner_of_key :: "rpc_api \<Rightarrow> h256 \<Rightarrow> public_key \<Rightarrow> account_id result" where
  "owner_of_key R h k =
     (case sf_get_session_key_owner_at R h k of
        Ok (Some a) \<Rightarrow> Ok a
      | Ok None \<Rightarrow> Panic ''Result is empty (grandpa key has no owner?)''
      | Err _ \<Rightarrow> Panic ''Couldn't get session key owner for grandpa key!''
      | Panic m \<Rightarrow> Panic m)"

definition get_valset_at_genesis ::
    "(bytes \<Rightarrow> bytes) \<Rightarrow> rpc_api \<Rightarrow> h256 \<Rightarrow> public_key list result" where
  "get_valset_at_genesis twox_128 R genesis_hash =
     (let k1 = twox_128 (as_bytes ''Session'') @ twox_128 (as_bytes ''KeyOwner'')
      in and_then (wrap_err ''Couldn't get initial validator set'' (sf_get_validator_set_at R genesis_hash)) (\<lambda>v.
         and_then (ok_or [''Validator set is empty!''] v) (\<lambda>validator_set_pre.
         and_then (wrap_err ''Couldn't get storage keys associated with key owners!''
                     (sf_get_paged_storage_keys R k1 1000 genesis_hash)) (\<lambda>keys.
         and_then (map_res flatten_options (collect_res (map (grandpa_key_of (length k1)) keys))) (\<lambda>grandpa_keys.
         and_then (collect_res (map (owner_of_key R genesis_hash) grandpa_keys)) (\<lambda>grandpa_accounts.
           Ok (map fst (filter (\<lambda>(_, parent_acc). parent_acc \<in> set validator_set_pre)
                 (zip grandpa_keys grandpa_accounts)))))))))"

section \<open>The loop\<close>

text \<open>The body of the loop for one block. It returns the hash and the validator set with which the
  loop goes on at the next block.\<close>

definition sync_block ::
    "('dim, 'lk) kate \<Rightarrow> sig_verifier \<Rightarrow> rpc_api \<Rightarrow> u32 \<Rightarrow> h256 \<Rightarrow> validator_set \<Rightarrow>
     (database, h256 \<times> validator_set) op" where
  "sync_block K V R curr_num prev_hash vs =
     op_bind (op_lift (wrap_err ''Couldn't get hash for block no.'' (sf_get_block_hash R curr_num))) (\<lambda>hash.
     op_bind (op_lift (wrap_err ''Couldn't get header for hash'' (sf_get_header_by_hash R hash))) (\<lambda>from_header.
     op_bind (sf_store_block_header curr_num from_header) (\<lambda>_.
     if h_parent_hash from_header \<noteq> prev_hash then op_lift (Panic ''Parent hash doesn't match!'')
     else
       (let prev_hash' = hash_of K from_header
        in case filter_auth_set_changes K from_header of
             [] \<Rightarrow> op_return (prev_hash', vs)
           | auths # _ \<Rightarrow>
               op_bind (op_lift (wrap_err ''Couldn't get finality proof for block no.''
                                   (sf_request_finality_proof R curr_num))) (\<lambda>prf.
               op_bind (op_lift (wrap_err ''Couldn't get header for the proof''
                                   (sf_get_header_by_hash R (fp_block prf)))) (\<lambda>p_h.
               op_bind (op_lift (wrap_err ''Finality sync check failed''
                                   (check_finality K V vs (fp_justification prf)))) (\<lambda>_.
               let vs' = \<lparr>vs_set_id = vs_set_id vs + 1, vs_validator_set = map fst auths\<rparr>
               in op_bind (sf_store_checkpoint \<lparr>fc_number = curr_num + 1, fc_set_id = vs_set_id vs',
                             fc_validator_set = vs_validator_set vs'\<rparr>)
                    (\<lambda>_. op_return (prev_hash', vs')))))))))"

function sync_loop ::
    "('dim, 'lk) kate \<Rightarrow> sig_verifier \<Rightarrow> rpc_api \<Rightarrow> u32 \<Rightarrow> u32 \<Rightarrow> h256 \<Rightarrow> validator_set \<Rightarrow> database \<Rightarrow>
     unit result \<times> database" where
  "sync_loop K V R last_num curr_num prev_hash vs db =
     (if curr_num = last_num + 1 then (Ok (), db)
      else (case sync_block K V R curr_num prev_hash vs db of
              (Ok (prev_hash', vs'), db') \<Rightarrow> sync_loop K V R last_num (curr_num + 1) prev_hash' vs' db'
            | (Err e, db') \<Rightarrow> (Err e, db')
            | (Panic m, db') \<Rightarrow> (Panic m, db')))"
  by pat_completeness auto
termination
proof (relation "measure (\<lambda>(K, V, R, last_num, curr_num, _). unat (last_num + 1 - curr_num :: u32))", goal_cases)
  case (2 K V R last_num curr_num prev_hash vs db)
  then have "last_num + 1 - curr_num \<noteq> 0" by auto
  then have "unat (last_num + 1 - curr_num - 1) < unat (last_num + 1 - curr_num)"
    by (metis measure_unat)
  then show ?case by (simp add: algebra_simps)
qed simp

declare sync_loop.simps [simp del]

definition sync_start ::
    "(bytes \<Rightarrow> bytes) \<Rightarrow> rpc_api \<Rightarrow> h256 \<Rightarrow> finality_sync_checkpoint option \<Rightarrow> (u32 \<times> validator_set) result" where
  "sync_start twox_128 R gen_hash checkpoint =
     (case checkpoint of
        Some ch \<Rightarrow> Ok (fc_number ch, \<lparr>vs_set_id = fc_set_id ch, vs_validator_set = fc_validator_set ch\<rparr>)
      | None \<Rightarrow>
          and_then (get_valset_at_genesis twox_128 R gen_hash) (\<lambda>vset.
          and_then (wrap_err ''Couldn't get set_id at genesis'' (sf_fetch_set_id_at R gen_hash)) (\<lambda>set_id.
            Ok (1, \<lparr>vs_set_id = set_id, vs_validator_set = vset\<rparr>))))"

definition sync ::
    "('dim, 'lk) kate \<Rightarrow> sig_verifier \<Rightarrow> (bytes \<Rightarrow> bytes) \<Rightarrow> rpc_api \<Rightarrow> header \<Rightarrow> state \<Rightarrow> database \<Rightarrow>
     unit result \<times> state \<times> database" where
  "sync K V twox_128 R from_header st db =
     (case and_then (sf_get_genesis_hash R) (\<lambda>gen_hash.
           and_then (sf_get_checkpoint db) (\<lambda>checkpoint.
           and_then (sync_start twox_128 R gen_hash checkpoint) (\<lambda>(curr_num, vs).
           and_then (wrap_err ''Hash doesn't exist?'' (sf_get_block_hash R (curr_num - 1))) (\<lambda>prev_hash.
             Ok (curr_num, vs, prev_hash))))) of
        Ok (curr_num, vs, prev_hash) \<Rightarrow>
          (case sync_loop K V R (h_number from_header) curr_num prev_hash vs db of
             (Ok _, db') \<Rightarrow> (Ok (), st\<lparr>st_finality_synced := True\<rparr>, db')
           | (Err e, db') \<Rightarrow> (Err e, st, db')
           | (Panic m, db') \<Rightarrow> (Panic m, st, db'))
      | Err e \<Rightarrow> (Err e, st, db)
      | Panic m \<Rightarrow> (Panic m, st, db))"

text \<open>\<open>run\<close>: the shutdown reason that a failed sync triggers, if any.\<close>

definition sync_finality_run ::
    "('dim, 'lk) kate \<Rightarrow> sig_verifier \<Rightarrow> (bytes \<Rightarrow> bytes) \<Rightarrow> rpc_api \<Rightarrow> header \<Rightarrow> state \<Rightarrow> database \<Rightarrow>
     string option \<times> state \<times> database" where
  "sync_finality_run K V twox_128 R from_header st db =
     (case sync K V twox_128 R from_header st db of
        (Err e, st', db') \<Rightarrow> (Some (''Cannot sync finality '' @ report_text e), st', db')
      | (_, st', db') \<Rightarrow> (None, st', db'))"

section \<open>Checked chains\<close>

text \<open>A run for examples, from genesis up to block 1, and a node that knows the blocks below 10 only.\<close>

definition sample_sync :: "rpc_api \<Rightarrow> database \<Rightarrow> u32 \<Rightarrow> unit result \<times> state \<times> database" where
  "sample_sync R db n = sync sample_kate sample_verify (\<lambda>_. []) R (sample_header n) state_default db"

definition short_rpc :: rpc_api where
  "short_rpc = sample_rpc\<lparr>rpc_get_block_hash :=
     (\<lambda>n. if n < 10 then Ok (ucast n) else Err [''no such block''])\<rparr>"

definition sample_checkpoint :: finality_sync_checkpoint where
  "sample_checkpoint = \<lparr>fc_number = 9, fc_set_id = 20, fc_validator_set = [1]\<rparr>"

text \<open>The headers are those the node returns for the blocks from \<open>n\<close> on, each names the hash of its
  predecessor as parent, and at each change of the authority set a finality proof of the node holds
  for the validator set so far.\<close>

fun checked_chain ::
    "('dim, 'lk) kate \<Rightarrow> sig_verifier \<Rightarrow> rpc_api \<Rightarrow> u32 \<Rightarrow> h256 \<Rightarrow> validator_set \<Rightarrow> header list \<Rightarrow> bool" where
  "checked_chain K V R n prev_hash vs [] = True"
| "checked_chain K V R n prev_hash vs (h # hs) =
     (h_parent_hash h = prev_hash \<and>
      (\<exists>g. rpc_get_block_hash R n = Ok g \<and> rpc_get_header_by_hash R g = Ok h) \<and>
      (filter_auth_set_changes K h \<noteq> [] \<longrightarrow>
         (\<exists>p. rpc_request_finality_proof R n = Ok p \<and> check_finality K V vs (fp_justification p) = Ok ())) \<and>
      checked_chain K V R (n + 1) (hash_of K h) (apply_change K vs h) hs)"

text \<open>A checkpoint that stands for the chain checked so far.\<close>

definition checkpoint_of :: "('dim, 'lk) kate \<Rightarrow> u32 \<Rightarrow> validator_set \<Rightarrow> header list \<Rightarrow> finality_sync_checkpoint" where
  "checkpoint_of K n vs hs =
     \<lparr>fc_number = n + word_of_nat (length hs), fc_set_id = vs_set_id (valset_after K vs hs),
      fc_validator_set = vs_validator_set (valset_after K vs hs)\<rparr>"

lemma sync_block_eq_Ok:
  assumes "sync_block K V R n prev_hash vs db = (Ok (prev_hash', vs'), db')"
  obtains h where "checked_chain K V R n prev_hash vs [h]" "prev_hash' = hash_of K h"
    "vs' = apply_change K vs h" "db_entries db' (BlockHeader n) = Some (HeaderValue h)"
    "\<forall>k. k \<noteq> n \<longrightarrow> db_entries db' (BlockHeader k) = db_entries db (BlockHeader k)"
  using assms
  by (auto simp: sync_block_def sf_calls sf_store_block_header_def sf_store_checkpoint_def res_simps
      store_simps Let_def apply_change_def split: if_splits list.splits)

lemma sync_loop_Ok_chain:
  "sync_loop K V R last_num n prev_hash vs db = (Ok u, db') \<Longrightarrow>
     \<exists>hs. length hs = unat (last_num + 1 - n) \<and> checked_chain K V R n prev_hash vs hs \<and>
       (\<forall>i < length hs. db_entries db' (BlockHeader (n + word_of_nat i)) = Some (HeaderValue (hs ! i))) \<and>
       (\<forall>k. unat (k - n) \<ge> length hs \<longrightarrow> db_entries db' (BlockHeader k) = db_entries db (BlockHeader k))"
proof (induction K V R last_num n prev_hash vs db rule: sync_loop.induct)
  case (1 K V R last_num n prev_hash vs db)
  show ?case
  proof (cases "n = last_num + 1")
    case True
    with "1.prems" show ?thesis using sync_loop.simps [of K V R last_num n prev_hash vs db] by auto
  next
    case False
    with "1.prems" obtain p' vs' db1 where
      b: "sync_block K V R n prev_hash vs db = (Ok (p', vs'), db1)"
      and rest: "sync_loop K V R last_num (n + 1) p' vs' db1 = (Ok u, db')"
      by (auto simp: sync_loop.simps [of K V R last_num n] split: prod.splits res.splits)
    from "1.IH" [OF False b [symmetric] refl refl rest] obtain hs where hs:
      "length hs = unat (last_num + 1 - (n + 1))" "checked_chain K V R (n + 1) p' vs' hs"
      "\<And>i. i < length hs \<Longrightarrow> db_entries db' (BlockHeader (n + 1 + word_of_nat i)) = Some (HeaderValue (hs ! i))"
      "\<And>k. unat (k - (n + 1)) \<ge> length hs \<Longrightarrow> db_entries db' (BlockHeader k) = db_entries db1 (BlockHeader k)"
      by blast
    from b obtain h where h: "checked_chain K V R n prev_hash vs [h]" "p' = hash_of K h"
      "vs' = apply_change K vs h" "db_entries db1 (BlockHeader n) = Some (HeaderValue h)"
      "\<forall>k. k \<noteq> n \<longrightarrow> db_entries db1 (BlockHeader k) = db_entries db (BlockHeader k)"
      by (rule sync_block_eq_Ok)
    have step: "unat (last_num + 1 - n) = Suc (unat (last_num + 1 - (n + 1)))"
      using False unat_minus_one [of "last_num + 1 - n"] unat_eq_zero [of "last_num + 1 - n"]
      by (simp add: algebra_simps)
    have wrap: "unat (n - (n + 1)) = 4294967295" by (simp add: unsigned_minus_1_eq_mask mask_eq_exp_minus_1)
    have "length hs \<le> 4294967295" using unat_u32_less [of "last_num + 1 - (n + 1)"] hs(1) by linarith
    with wrap hs(4) [of n] h(4) have first: "db_entries db' (BlockHeader n) = Some (HeaderValue h)" by simp
    have others: "db_entries db' (BlockHeader k) = db_entries db (BlockHeader k)"
      if "Suc (length hs) \<le> unat (k - n)" for k
    proof -
      have "k - n \<noteq> 0" using that by auto
      then have "unat (k - (n + 1)) = unat (k - n) - 1"
        using unat_minus_one [of "k - n"] by (simp add: algebra_simps)
      moreover have "k \<noteq> n" using \<open>k - n \<noteq> 0\<close> by auto
      ultimately show ?thesis using that hs(4) [of k] h(5) by simp
    qed
    have nth: "db_entries db' (BlockHeader (n + word_of_nat i)) = Some (HeaderValue ((h # hs) ! i))"
      if "i < Suc (length hs)" for i
      using that hs(3) [of "i - 1"] first by (cases i) (auto simp: algebra_simps)
    show ?thesis
      using h(1-3) hs(1,2) step nth others by (intro exI [of _ "h # hs"]) auto
  qed
qed

lemma sync_block_checkpoint:
  assumes "sync_block K V R n prev_hash vs db = (r, db')"
  shows "db_entries db' FinalitySyncCheckpointKey = db_entries db FinalitySyncCheckpointKey \<or>
    (\<exists>h. checked_chain K V R n prev_hash vs [h] \<and>
       db_entries db' FinalitySyncCheckpointKey = Some (CheckpointValue (checkpoint_of K n vs [h])))"
proof (cases r)
  case (Ok x)
  then show ?thesis
    using assms
    by (cases x)
      (auto simp: sync_block_def sf_calls sf_store_block_header_def sf_store_checkpoint_def res_simps
        store_simps Let_def checkpoint_of_def valset_after_def apply_change_def split: if_splits list.splits)
next
  case err: (Err e)
  have "db_entries (snd (sync_block K V R n prev_hash vs db)) FinalitySyncCheckpointKey =
        db_entries db FinalitySyncCheckpointKey"
    using assms err
    by (auto simp: sync_block_def sf_store_block_header_def sf_store_checkpoint_def op_bind_def op_lift_def
        op_return_def op_wrap_err_def db_put_op_def store_simps Let_def
        split: res.splits prod.splits if_splits list.splits)
  then show ?thesis using assms by simp
next
  case panic: (Panic m)
  have "db_entries (snd (sync_block K V R n prev_hash vs db)) FinalitySyncCheckpointKey =
        db_entries db FinalitySyncCheckpointKey"
    using assms panic
    by (auto simp: sync_block_def sf_store_block_header_def sf_store_checkpoint_def op_bind_def op_lift_def
        op_return_def op_wrap_err_def db_put_op_def store_simps Let_def
        split: res.splits prod.splits if_splits list.splits)
  then show ?thesis using assms by simp
qed

lemma checkpoint_of_Cons:
  "checkpoint_of K (n + 1) (apply_change K vs h) hs = checkpoint_of K n vs (h # hs)"
  by (simp add: checkpoint_of_def valset_after_Cons algebra_simps)

lemma sync_loop_checkpoint:
  "sync_loop K V R last_num n prev_hash vs db = (r, db') \<Longrightarrow>
     db_entries db' FinalitySyncCheckpointKey = db_entries db FinalitySyncCheckpointKey \<or>
     (\<exists>hs. checked_chain K V R n prev_hash vs hs \<and>
        db_entries db' FinalitySyncCheckpointKey = Some (CheckpointValue (checkpoint_of K n vs hs)))"
proof (induction K V R last_num n prev_hash vs db rule: sync_loop.induct)
  case (1 K V R last_num n prev_hash vs db)
  note unfold = sync_loop.simps [of K V R last_num n prev_hash vs db]
  show ?case
  proof (cases "n = last_num + 1")
    case True
    with "1.prems" unfold show ?thesis by auto
  next
    case False
    obtain b db1 where b: "sync_block K V R n prev_hash vs db = (b, db1)" by fastforce
    show ?thesis
    proof (cases "\<exists>p' vs'. b = Ok (p', vs')")
      case True
      then obtain p' vs' where ok: "sync_block K V R n prev_hash vs db = (Ok (p', vs'), db1)" using b by auto
      with "1.prems" unfold False have rest: "sync_loop K V R last_num (n + 1) p' vs' db1 = (r, db')" by simp
      from ok obtain h where h: "checked_chain K V R n prev_hash vs [h]" "p' = hash_of K h"
        "vs' = apply_change K vs h" by (rule sync_block_eq_Ok)
      have ext: "checked_chain K V R n prev_hash vs (h # hs)" if "checked_chain K V R (n + 1) p' vs' hs" for hs
        using that h by simp
      from "1.IH" [OF False ok [symmetric] refl refl rest] show ?thesis
      proof
        assume "db_entries db' FinalitySyncCheckpointKey = db_entries db1 FinalitySyncCheckpointKey"
        with sync_block_checkpoint [OF ok] show ?thesis by metis
      next
        assume "\<exists>hs. checked_chain K V R (n + 1) p' vs' hs \<and>
          db_entries db' FinalitySyncCheckpointKey = Some (CheckpointValue (checkpoint_of K (n + 1) vs' hs))"
        with ext h(3) checkpoint_of_Cons show ?thesis by metis
      qed
    next
      case False
      with b "1.prems" unfold \<open>n \<noteq> last_num + 1\<close> have "db' = db1"
        by (auto split: res.splits)
      with sync_block_checkpoint [OF b] show ?thesis by metis
    qed
  qed
qed

lemma checked_chain_hash:
  "checked_chain K V R n prev_hash vs hs \<Longrightarrow> i < length hs \<Longrightarrow>
     \<exists>g. rpc_get_block_hash R (n + word_of_nat i) = Ok g"
proof (induction hs arbitrary: n prev_hash vs i)
  case Nil
  then show ?case by simp
next
  case (Cons h hs)
  show ?case
  proof (cases i)
    case 0
    with Cons.prems show ?thesis by auto
  next
    case (Suc k)
    with Cons.IH [of "n + 1" "hash_of K h" "apply_change K vs h" k] Cons.prems show ?thesis
      by (simp add: algebra_simps)
  qed
qed

section \<open>Properties\<close>

text \<open>C7: When the sync succeeds, the state says that finality is synced, and every block from the
  start (checkpoint or block 1) up to the finalized head has been checked: the headers are linked by
  their hashes, each change of the authority set is justified under the set that the headers before it
  determine, and each header is stored under its number.\<close>

theorem sync_checks_chain:
  assumes "sync K V twox R from_header st db = (Ok (), st', db')"
  shows "st_finality_synced st' \<and>
    (\<exists>g ck n vs prev_hash hs. rpc_get_genesis_hash R = Ok g \<and> sf_get_checkpoint db = Ok ck \<and>
       sync_start twox R g ck = Ok (n, vs) \<and> rpc_get_block_hash R (n - 1) = Ok prev_hash \<and>
       length hs = unat (h_number from_header + 1 - n) \<and>
       checked_chain K V R n prev_hash vs hs \<and>
       (\<forall>i < length hs. db_entries db' (BlockHeader (n + word_of_nat i)) = Some (HeaderValue (hs ! i))))"
proof -
  from assms obtain g ck n vs prev_hash where
    s: "rpc_get_genesis_hash R = Ok g" "sf_get_checkpoint db = Ok ck" "sync_start twox R g ck = Ok (n, vs)"
      "rpc_get_block_hash R (n - 1) = Ok prev_hash"
    and l: "sync_loop K V R (h_number from_header) n prev_hash vs db = (Ok (), db')"
    and st: "st_finality_synced st'"
    by (auto simp: sync_def sf_calls res_simps split: res.splits prod.splits)
  from sync_loop_Ok_chain [OF l] s st show ?thesis by blast
qed

lemma sample_sync_result:
  "sample_sync sample_rpc db_empty 1 =
     (Ok (), state_default\<lparr>st_finality_synced := True\<rparr>,
      db_empty\<lparr>db_entries := [BlockHeader 1 \<mapsto> HeaderValue (sample_header 1)]\<rparr>)"
proof -
  have "sync_block sample_kate sample_verify sample_rpc 1 0 vs db_empty =
      (Ok (1, vs), db_empty\<lparr>db_entries := [BlockHeader 1 \<mapsto> HeaderValue (sample_header 1)]\<rparr>)" for vs
    by (simp add: sync_block_def sf_calls sf_store_block_header_def op_bind_def op_wrap_err_def
        op_lift_def op_return_def db_put_op_def db_put_def db_empty_def)
  then have "sync_loop sample_kate sample_verify sample_rpc 1 1 0 vs db_empty =
      (Ok (), db_empty\<lparr>db_entries := [BlockHeader 1 \<mapsto> HeaderValue (sample_header 1)]\<rparr>)" for vs
    by (simp add: sync_loop.simps)
  then show ?thesis
    by (simp add: sample_sync_def sync_def sf_calls sf_get_checkpoint_def db_get_checkpoint_def db_get_def
        db_empty_def sync_start_def get_valset_at_genesis_def Let_def)
qed

theorem sync_checks_chain_witness:
  "\<exists>n vs prev_hash hs. length hs = unat (2 - n) \<and>
     checked_chain sample_kate sample_verify sample_rpc n prev_hash vs hs"
  using sync_checks_chain [OF sample_sync_result [unfolded sample_sync_def]] by auto

text \<open>C8: Whatever the outcome of the sync, error and panic included, the checkpoint in the database is
  the one from before or stands for a chain that was checked from the start of this run: its number is the
  next block and its validator set the one after the changes in that chain. Restarting from it skips no
  check.\<close>

theorem sync_checkpoint_backed:
  assumes "sync K V twox R from_header st db = (r, st', db')"
  shows "db_entries db' FinalitySyncCheckpointKey = db_entries db FinalitySyncCheckpointKey \<or>
    (\<exists>g ck n vs prev_hash hs. rpc_get_genesis_hash R = Ok g \<and> sf_get_checkpoint db = Ok ck \<and>
       sync_start twox R g ck = Ok (n, vs) \<and> rpc_get_block_hash R (n - 1) = Ok prev_hash \<and>
       checked_chain K V R n prev_hash vs hs \<and>
       db_entries db' FinalitySyncCheckpointKey = Some (CheckpointValue (checkpoint_of K n vs hs)))"
proof (cases "db' = db")
  case True
  then show ?thesis by simp
next
  case False
  with assms obtain g ck n vs prev_hash r' where
    s: "rpc_get_genesis_hash R = Ok g" "sf_get_checkpoint db = Ok ck" "sync_start twox R g ck = Ok (n, vs)"
      "rpc_get_block_hash R (n - 1) = Ok prev_hash"
    and l: "sync_loop K V R (h_number from_header) n prev_hash vs db = (r', db')"
    by (auto simp: sync_def sf_calls res_simps split: res.splits prod.splits)
  from sync_loop_checkpoint [OF l] s show ?thesis by blast
qed

theorem sync_checkpoint_backed_witness:
  "\<exists>db'. sample_sync sample_rpc db_empty 1 = (Ok (), state_default\<lparr>st_finality_synced := True\<rparr>, db') \<and>
     (db_entries db' FinalitySyncCheckpointKey = None \<or>
      (\<exists>n vs prev_hash hs. checked_chain sample_kate sample_verify sample_rpc n prev_hash vs hs \<and>
        db_entries db' FinalitySyncCheckpointKey = Some (CheckpointValue (checkpoint_of sample_kate n vs hs))))"
  using sync_checkpoint_backed [OF sample_sync_result [unfolded sample_sync_def]] sample_sync_result
  by (auto simp: db_empty_def)

text \<open>The exit test compares for equality only. When the stored checkpoint is beyond the block
  after the finalized head that the node reports, the loop walks upwards past the head, so the sync does not succeed if
  the node lacks the hash of any block above the checkpoint.\<close>

theorem sync_beyond_head_fails:
  assumes "sf_get_checkpoint db = Ok (Some ck)" and "h_number from_header + 1 < fc_number ck"
    and "fc_number ck \<le> b" and "\<And>g. rpc_get_block_hash R b \<noteq> Ok g"
  shows "fst (sync K V twox R from_header st db) \<noteq> Ok ()"
proof
  assume "fst (sync K V twox R from_header st db) = Ok ()"
  then obtain st' db' where "sync K V twox R from_header st db = (Ok (), st', db')"
    by (metis prod.collapse)
  from sync_checks_chain [OF this] assms(1) obtain vs prev_hash hs where
    hs: "length hs = unat (h_number from_header + 1 - fc_number ck)"
      "checked_chain K V R (fc_number ck) prev_hash vs hs"
    by (auto simp: sync_start_def)
  have "unat (b - fc_number ck) < length hs"
    using assms(2,3) unat_u32_less [of b]
    by (simp add: hs(1) unat_sub_if' word_less_nat_alt word_le_nat_alt del: unat_u32_less)
  from checked_chain_hash [OF hs(2) this] assms(4) show False by simp
qed

theorem sync_beyond_head_fails_witness:
  "fst (sample_sync short_rpc
          (db_empty\<lparr>db_entries := [FinalitySyncCheckpointKey \<mapsto> CheckpointValue sample_checkpoint]\<rparr>) 3) \<noteq> Ok ()"
proof -
  let ?db = "db_empty\<lparr>db_entries := [FinalitySyncCheckpointKey \<mapsto> CheckpointValue sample_checkpoint]\<rparr>"
  have "sf_get_checkpoint ?db = Ok (Some sample_checkpoint)"
    by (simp add: sf_get_checkpoint_def db_get_checkpoint_def db_get_def db_empty_def)
  then show ?thesis
    unfolding sample_sync_def
    by (rule sync_beyond_head_fails [where b = 10]) (simp_all add: sample_checkpoint_def short_rpc_def)
qed

end
