(* ===== verification/Kad_Store.thy ===== *)
theory Kad_Store
  imports Data "HOL-Library.AList"
begin

text \<open>
  The Kademlia record stores: \<open>MemoryStore\<close> (\<open>src/network/p2p/kad_mem_store.rs\<close>), the provider lists
  (\<open>kad_mem_providers.rs\<close>) and \<open>RocksDBStore\<close> with its compaction filter
  (\<open>kad_rocksdb_store.rs\<close>). A \<open>HashMap\<close> whose size matters is an association list with distinct keys.
  An instant is a number of nanoseconds.

  Parameters: the crate \<open>rocksdb\<close> (the record of the theory \<open>Data\<close>, an iterator over a column family
  and a batch of deletions), the codec of \<open>KadRecord\<close>, the Kademlia distance of a peer from a key, \<open>Record::is_expired\<close>, the
  equality of \<open>ProviderRecord\<close> in a hash set, and whether bytes are those of a peer id.

  Both stores are interpretations of the locale \<open>record_store\<close>.
\<close>

section \<open>Records\<close>

type_synonym peer_id = bytes
type_synonym record_key = bytes

record kad_record =
  kr_key :: record_key
  kr_value :: bytes
  kr_publisher :: "peer_id option"
  kr_expires :: "nat option"

record provider_record =
  pr_key :: record_key
  pr_provider :: peer_id
  pr_expires :: "nat option"
  pr_addresses :: "string list"

datatype store_error = MaxRecords | MaxProvidedKeys | ValueTooLarge

definition nanos_per_sec :: nat where "nanos_per_sec = 1000000000"

section \<open>Providers\<close>

record providers_config =
  pc_max_providers_per_key :: nat
  pc_max_provided_keys :: nat

record providers =
  ps_config :: providers_config
  ps_providers :: "(record_key \<times> provider_record list) list"
  ps_provided :: "provider_record list"

definition providers_with_config :: "providers_config \<Rightarrow> providers" where
  "providers_with_config c = \<lparr>ps_config = c, ps_providers = [], ps_provided = []\<rparr>"

definition set_insert :: "('a \<Rightarrow> 'a \<Rightarrow> bool) \<Rightarrow> 'a \<Rightarrow> 'a list \<Rightarrow> 'a list" where
  "set_insert same x xs = (if list_ex (same x) xs then xs else x # xs)"

definition set_remove :: "('a \<Rightarrow> 'a \<Rightarrow> bool) \<Rightarrow> 'a \<Rightarrow> 'a list \<Rightarrow> 'a list" where
  "set_remove same x xs = filter (\<lambda>y. \<not> same x y) xs"

text \<open>The list of providers of one key, and the provided set: an existing provider is replaced in place, a new one
  is put before the first that is farther from the key, or at the end if there is room.\<close>

definition add_to_key ::
    "(record_key \<Rightarrow> peer_id \<Rightarrow> nat) \<Rightarrow> (provider_record \<Rightarrow> provider_record \<Rightarrow> bool) \<Rightarrow> nat \<Rightarrow> peer_id \<Rightarrow>
     provider_record \<Rightarrow> provider_record list \<Rightarrow> provider_record list \<Rightarrow>
     provider_record list \<times> provider_record list" where
  "add_to_key distance same max_per_key local_id r ps provided =
     (case find_position (\<lambda>p. pr_provider p = pr_provider r) ps of
        Some i \<Rightarrow> (ps[i := r], provided)
      | None \<Rightarrow>
          (case find_position (\<lambda>p. distance (pr_key r) (pr_provider r) < distance (pr_key r) (pr_provider p)) ps of
             Some i \<Rightarrow>
               (let provided1 = (if local_id = pr_provider r then set_insert same r provided else provided);
                    ps1 = insert_nth i r ps
                in if length ps1 > max_per_key
                   then (butlast ps1, set_remove same (last ps1) provided1)
                   else (ps1, provided1))
           | None \<Rightarrow>
               if length ps < max_per_key
               then (ps @ [r], if local_id = pr_provider r then set_insert same r provided else provided)
               else (ps, provided)))"

definition add_provider ::
    "(record_key \<Rightarrow> peer_id \<Rightarrow> nat) \<Rightarrow> (provider_record \<Rightarrow> provider_record \<Rightarrow> bool) \<Rightarrow> peer_id \<Rightarrow>
     provider_record \<Rightarrow> providers \<Rightarrow> (store_error, providers) res" where
  "add_provider distance same local_id r s =
     (let num_keys = length (ps_providers s);
          entry = map_of (ps_providers s) (pr_key r)
      in if entry = None \<and> pc_max_provided_keys (ps_config s) = num_keys then Err MaxProvidedKeys
         else (case add_to_key distance same (pc_max_providers_per_key (ps_config s)) local_id r
                      (case entry of None \<Rightarrow> [] | Some ps \<Rightarrow> ps) (ps_provided s) of
                 (ps, provided) \<Rightarrow>
                   Ok (s\<lparr>ps_providers := AList.update (pr_key r) ps (ps_providers s),
                         ps_provided := provided\<rparr>)))"

definition providers_of :: "record_key \<Rightarrow> providers \<Rightarrow> provider_record list" where
  "providers_of k s = (case map_of (ps_providers s) k of None \<Rightarrow> [] | Some ps \<Rightarrow> ps)"

definition provided_records :: "providers \<Rightarrow> provider_record list" where
  "provided_records s = ps_provided s"

definition remove_provider ::
    "(provider_record \<Rightarrow> provider_record \<Rightarrow> bool) \<Rightarrow> record_key \<Rightarrow> peer_id \<Rightarrow> providers \<Rightarrow> providers" where
  "remove_provider same k provider s =
     (case map_of (ps_providers s) k of
        None \<Rightarrow> s
      | Some ps \<Rightarrow>
          (let (ps1, provided1) =
                 (case find_position (\<lambda>p. pr_provider p = provider) ps of
                    Some i \<Rightarrow> (remove_nth i ps, set_remove same (ps ! i) (ps_provided s))
                  | None \<Rightarrow> (ps, ps_provided s))
           in s\<lparr>ps_providers := (if ps1 = [] then AList.delete k (ps_providers s)
                                 else AList.update k ps1 (ps_providers s)),
                ps_provided := provided1\<rparr>))"

section \<open>MemoryStore\<close>

record memory_store_config =
  ms_max_records :: nat
  ms_max_value_bytes :: nat
  ms_providers_config :: providers_config

record memory_store =
  ms_local_key :: peer_id
  ms_config :: memory_store_config
  ms_records :: "(record_key \<times> kad_record) list"
  ms_providers :: providers

definition memory_store_with_config :: "peer_id \<Rightarrow> memory_store_config \<Rightarrow> memory_store" where
  "memory_store_with_config local_id c =
     \<lparr>ms_local_key = local_id, ms_config = c, ms_records = [],
      ms_providers = providers_with_config (ms_providers_config c)\<rparr>"

definition ms_get :: "memory_store \<Rightarrow> record_key \<Rightarrow> kad_record option" where
  "ms_get s k = map_of (ms_records s) k"

definition ms_put :: "memory_store \<Rightarrow> kad_record \<Rightarrow> (store_error, memory_store) res" where
  "ms_put s r =
     (if length (kr_value r) \<ge> ms_max_value_bytes (ms_config s) then Err ValueTooLarge
      else (case map_of (ms_records s) (kr_key r) of
              Some _ \<Rightarrow> Ok (s\<lparr>ms_records := AList.update (kr_key r) r (ms_records s)\<rparr>)
            | None \<Rightarrow>
                if length (ms_records s) \<ge> ms_max_records (ms_config s) then Err MaxRecords
                else Ok (s\<lparr>ms_records := AList.update (kr_key r) r (ms_records s)\<rparr>)))"

definition ms_remove :: "memory_store \<Rightarrow> record_key \<Rightarrow> memory_store" where
  "ms_remove s k = s\<lparr>ms_records := AList.delete k (ms_records s)\<rparr>"

definition ms_all_records :: "memory_store \<Rightarrow> kad_record list" where
  "ms_all_records s = map snd (ms_records s)"

definition ms_retain :: "(record_key \<Rightarrow> kad_record \<Rightarrow> bool) \<Rightarrow> memory_store \<Rightarrow> memory_store" where
  "ms_retain f s = s\<lparr>ms_records := filter (\<lambda>(k, r). f k r) (ms_records s)\<rparr>"

definition ms_add_provider ::
    "(record_key \<Rightarrow> peer_id \<Rightarrow> nat) \<Rightarrow> (provider_record \<Rightarrow> provider_record \<Rightarrow> bool) \<Rightarrow>
     memory_store \<Rightarrow> provider_record \<Rightarrow> (store_error, memory_store) res" where
  "ms_add_provider distance same s r =
     map_res (\<lambda>p. s\<lparr>ms_providers := p\<rparr>) (add_provider distance same (ms_local_key s) r (ms_providers s))"

definition ms_remove_provider ::
    "(provider_record \<Rightarrow> provider_record \<Rightarrow> bool) \<Rightarrow> memory_store \<Rightarrow> record_key \<Rightarrow> peer_id \<Rightarrow> memory_store" where
  "ms_remove_provider same s k p = s\<lparr>ms_providers := remove_provider same k p (ms_providers s)\<rparr>"

section \<open>RocksDBStore\<close>

record stored_record =
  sr_value :: bytes
  sr_publisher :: bytes
  sr_ttl :: u32

record entry_codec =
  encode_entry :: "stored_record \<Rightarrow> bytes"
  decode_entry :: "bytes \<Rightarrow> stored_record option"

text \<open>The seconds from now until the expiry, at least one; the cast keeps the low 32 bits.\<close>

definition ttl :: "nat \<Rightarrow> nat \<Rightarrow> u32" where
  "ttl now expires = word_of_nat (max (expires - now) nanos_per_sec div nanos_per_sec)"

definition entry_of_record :: "nat \<Rightarrow> kad_record \<Rightarrow> record_key \<times> stored_record" where
  "entry_of_record now r =
     (kr_key r,
      \<lparr>sr_value = kr_value r,
       sr_publisher = (case kr_publisher r of None \<Rightarrow> [] | Some p \<Rightarrow> p),
       sr_ttl = (case kr_expires r of None \<Rightarrow> 0 | Some e \<Rightarrow> ttl now e)\<rparr>)"

definition record_of_entry :: "(bytes \<Rightarrow> bool) \<Rightarrow> nat \<Rightarrow> record_key \<times> stored_record \<Rightarrow> kad_record result" where
  "record_of_entry is_peer now e =
     (case e of (key, r) \<Rightarrow>
        if sr_publisher r \<noteq> [] \<and> \<not> is_peer (sr_publisher r) then Panic ''Invalid peer ID''
        else Ok \<lparr>kr_key = key, kr_value = sr_value r,
                 kr_publisher = (if sr_publisher r = [] then None else Some (sr_publisher r)),
                 kr_expires = (if sr_ttl r > 0 then Some (now + unat (sr_ttl r) * nanos_per_sec) else None)\<rparr>)"

definition into_kad_record ::
    "entry_codec \<Rightarrow> (bytes \<Rightarrow> bool) \<Rightarrow> nat \<Rightarrow> record_key \<times> bytes \<Rightarrow> kad_record result" where
  "into_kad_record C is_peer now kv =
     (case decode_entry C (snd kv) of
        None \<Rightarrow> Panic ''Expected valid encoded record, got invalid''
      | Some r \<Rightarrow> record_of_entry is_peer now (fst kv, r))"

record 'db kad_rocksdb =
  kdb :: "'db rocksdb"
  kdb_iterator :: "'db \<Rightarrow> string \<Rightarrow> (record_key \<times> bytes) result list"
  kdb_delete_batch :: "'db \<Rightarrow> string option \<Rightarrow> record_key list \<Rightarrow> 'db result"
  kdb_codec :: entry_codec
  kdb_is_peer :: "bytes \<Rightarrow> bool"

definition rs_has_cf :: "'db kad_rocksdb \<Rightarrow> 'db \<Rightarrow> bool" where
  "rs_has_cf Q db = rdb_cf_handle (kdb Q) db KADEMLIA_STORE_CF"

definition rs_get :: "'db kad_rocksdb \<Rightarrow> nat \<Rightarrow> 'db \<Rightarrow> record_key \<Rightarrow> kad_record option result" where
  "rs_get Q now db key =
     (if \<not> rs_has_cf Q db then Ok None
      else (case rdb_get (kdb Q) db (Some KADEMLIA_STORE_CF) key of
              Ok None \<Rightarrow> Ok None
            | Ok (Some v) \<Rightarrow> map_res Some (into_kad_record (kdb_codec Q) (kdb_is_peer Q) now (key, v))
            | Err _ \<Rightarrow> Ok None
            | Panic m \<Rightarrow> Panic m))"

definition rs_put ::
    "'db kad_rocksdb \<Rightarrow> nat \<Rightarrow> nat \<Rightarrow> 'db \<Rightarrow> kad_record \<Rightarrow> (store_error, 'db) res" where
  "rs_put Q max_value_bytes now db r =
     (if \<not> rs_has_cf Q db then Err ValueTooLarge
      else if length (kr_value r) \<ge> max_value_bytes then Err ValueTooLarge
      else (case entry_of_record now r of (key, e) \<Rightarrow>
              map_err (\<lambda>_. ValueTooLarge)
                (rdb_put (kdb Q) db (Some KADEMLIA_STORE_CF) key (encode_entry (kdb_codec Q) e))))"

definition rs_remove :: "'db kad_rocksdb \<Rightarrow> 'db \<Rightarrow> record_key \<Rightarrow> 'db" where
  "rs_remove Q db k =
     (if \<not> rs_has_cf Q db then db
      else (case rdb_delete (kdb Q) db (Some KADEMLIA_STORE_CF) k of Ok db' \<Rightarrow> db' | _ \<Rightarrow> db))"

definition rs_all_records :: "'db kad_rocksdb \<Rightarrow> nat \<Rightarrow> 'db \<Rightarrow> kad_record list result" where
  "rs_all_records Q now db =
     (if \<not> rs_has_cf Q db then Ok []
      else collect_res (map (into_kad_record (kdb_codec Q) (kdb_is_peer Q) now)
             (concat (map (\<lambda>r. case r of Ok kv \<Rightarrow> [kv] | _ \<Rightarrow> []) (kdb_iterator Q db KADEMLIA_STORE_CF)))))"

text \<open>\<open>retain\<close>: the batch deletes the keys without naming a column family, which is the default one.\<close>

definition rs_retain ::
    "'db kad_rocksdb \<Rightarrow> nat \<Rightarrow> (record_key \<Rightarrow> kad_record \<Rightarrow> bool) \<Rightarrow> 'db \<Rightarrow> 'db result" where
  "rs_retain Q now f db =
     and_then (rs_all_records Q now db) (\<lambda>rs.
       case kdb_delete_batch Q db None (map kr_key (filter (\<lambda>r. \<not> f (kr_key r) r) rs)) of
         Ok db' \<Rightarrow> Ok db' | _ \<Rightarrow> Ok db)"

text \<open>The compaction filter, created at \<open>created\<close> and applied to an entry at \<open>now\<close>: whether it is removed.\<close>

definition compaction_filter ::
    "entry_codec \<Rightarrow> (bytes \<Rightarrow> bool) \<Rightarrow> (kad_record \<Rightarrow> nat \<Rightarrow> bool) \<Rightarrow> nat \<Rightarrow> nat \<Rightarrow> record_key \<times> bytes \<Rightarrow> bool result" where
  "compaction_filter C is_peer is_expired created now kv =
     map_res (\<lambda>r. is_expired r created) (into_kad_record C is_peer now kv)"

section \<open>Reachable memory stores\<close>

inductive ms_step ::
    "(record_key \<Rightarrow> peer_id \<Rightarrow> nat) \<Rightarrow> (provider_record \<Rightarrow> provider_record \<Rightarrow> bool) \<Rightarrow>
     memory_store \<Rightarrow> memory_store \<Rightarrow> bool"
  for distance same where
  ms_step_put: "ms_put s r = Ok s' \<Longrightarrow> ms_step distance same s s'"
| ms_step_remove: "ms_step distance same s (ms_remove s k)"
| ms_step_retain: "ms_step distance same s (ms_retain f s)"
| ms_step_add: "ms_add_provider distance same s r = Ok s' \<Longrightarrow> ms_step distance same s s'"
| ms_step_remove_provider: "ms_step distance same s (ms_remove_provider same s k p)"

definition records_inv :: "memory_store \<Rightarrow> bool" where
  "records_inv s \<longleftrightarrow> distinct (map fst (ms_records s)) \<and>
     length (ms_records s) \<le> ms_max_records (ms_config s) \<and>
     (\<forall>(k, r) \<in> set (ms_records s). kr_key r = k \<and> length (kr_value r) < ms_max_value_bytes (ms_config s))"

text \<open>The list of providers of a key: one record per provider, nearest first, not too long.\<close>

definition key_inv :: "(record_key \<Rightarrow> peer_id \<Rightarrow> nat) \<Rightarrow> nat \<Rightarrow> record_key \<Rightarrow> provider_record list \<Rightarrow> bool" where
  "key_inv distance max_per_key k ps \<longleftrightarrow>
     distinct (map pr_provider ps) \<and> sorted (map (\<lambda>p. distance k (pr_provider p)) ps) \<and>
     length ps \<le> max_per_key \<and> (\<forall>p \<in> set ps. pr_key p = k)"

definition providers_inv :: "(record_key \<Rightarrow> peer_id \<Rightarrow> nat) \<Rightarrow> providers \<Rightarrow> bool" where
  "providers_inv distance s \<longleftrightarrow> distinct (map fst (ps_providers s)) \<and>
     length (ps_providers s) \<le> pc_max_provided_keys (ps_config s) \<and>
     (\<forall>(k, ps) \<in> set (ps_providers s). key_inv distance (pc_max_providers_per_key (ps_config s)) k ps)"

definition ms_inv :: "(record_key \<Rightarrow> peer_id \<Rightarrow> nat) \<Rightarrow> memory_store_config \<Rightarrow> memory_store \<Rightarrow> bool" where
  "ms_inv distance c s \<longleftrightarrow> ms_config s = c \<and> ps_config (ms_providers s) = ms_providers_config c \<and>
     records_inv s \<and> providers_inv distance (ms_providers s)"

text \<open>An instance of the parameters for examples: the map of the theory \<open>Data\<close>, a lossless codec in which
  every byte is marked, and a batch that deletes key by key.\<close>

fun unmark :: "bytes \<Rightarrow> (bytes \<times> bytes) option" where
  "unmark (m # rest) =
     (if m = 0 then Some ([], rest)
      else (case rest of
              [] \<Rightarrow> None
            | b # rest' \<Rightarrow> map_option (\<lambda>(v, r). (b # v, r)) (unmark rest')))"
| "unmark [] = None"

definition mark :: "bytes \<Rightarrow> bytes" where
  "mark v = concat (map (\<lambda>b. [1, b]) v) @ [0]"

definition marking_codec :: entry_codec where
  "marking_codec = \<lparr>
     encode_entry = (\<lambda>r. mark (sr_value r) @ mark (sr_publisher r) @ mark (replicate (unat (sr_ttl r)) 1)),
     decode_entry = (\<lambda>bs. case unmark bs of None \<Rightarrow> None
       | Some (v, bs1) \<Rightarrow> (case unmark bs1 of None \<Rightarrow> None
         | Some (p, bs2) \<Rightarrow> map_option (\<lambda>(t, _).
             \<lparr>sr_value = v, sr_publisher = p, sr_ttl = word_of_nat (length t)\<rparr>) (unmark bs2)))\<rparr>"

definition map_kad_rocksdb :: "cf_map kad_rocksdb" where
  "map_kad_rocksdb = \<lparr>kdb = map_rocksdb rocks_column_families,
     kdb_iterator = (\<lambda>db cf. case db (Some cf, [7]) of None \<Rightarrow> [] | Some v \<Rightarrow> [Ok ([7], v)]),
     kdb_delete_batch = (\<lambda>db cf ks. Ok (\<lambda>(c, k). if c = cf \<and> k \<in> set ks then None else db (c, k))),
     kdb_codec = marking_codec,
     kdb_is_peer = (\<lambda>b. True)\<rparr>"

definition sample_record :: kad_record where
  "sample_record = \<lparr>kr_key = [7], kr_value = [1, 2], kr_publisher = None, kr_expires = Some 3000000000\<rparr>"

definition entry_codec_ok :: "entry_codec \<Rightarrow> bool" where
  "entry_codec_ok C \<longleftrightarrow> (\<forall>r. decode_entry C (encode_entry C r) = Some r)"

text \<open>The value that a get returns, whatever the instant.\<close>

definition rs_value :: "'db kad_rocksdb \<Rightarrow> 'db \<Rightarrow> record_key \<Rightarrow> bytes option" where
  "rs_value Q db k =
     (case rdb_get (kdb Q) db (Some KADEMLIA_STORE_CF) k of
        Ok (Some v) \<Rightarrow> map_option sr_value (decode_entry (kdb_codec Q) v)
      | _ \<Rightarrow> None)"

section \<open>What a record store promises\<close>

locale record_store =
  fixes lookup :: "'s \<Rightarrow> record_key \<Rightarrow> bytes option"
    and put :: "'s \<Rightarrow> kad_record \<Rightarrow> (store_error, 's) res"
    and remove :: "'s \<Rightarrow> record_key \<Rightarrow> 's"
    and limit :: "'s \<Rightarrow> nat"
  assumes lookup_put: "put s r = Ok s' \<Longrightarrow>
      lookup s' k = (if k = kr_key r then Some (kr_value r) else lookup s k)"
    and lookup_remove: "lookup (remove s k) k' = (if k' = k then None else lookup s k')"
    and put_limit: "put s r = Ok s' \<Longrightarrow> length (kr_value r) < limit s \<and> limit s' = limit s"
begin

lemma put_then_remove:
  assumes "put s r = Ok s'"
  shows "lookup (remove s' (kr_key r)) k = (if k = kr_key r then None else lookup s k)"
  by (simp add: lookup_remove lookup_put [OF assms])

lemma put_overwrites:
  assumes "put s r = Ok s1" and "put s1 r' = Ok s2" and "kr_key r' = kr_key r"
  shows "lookup s2 k = (if k = kr_key r' then Some (kr_value r') else lookup s k)"
  by (simp add: lookup_put [OF assms(2)] lookup_put [OF assms(1)] assms(3))

lemma values_bounded:
  assumes "put s r = Ok s'" and "\<And>k v. lookup s k = Some v \<Longrightarrow> length v < limit s"
    and "lookup s' k = Some v"
  shows "length v < limit s'"
  using assms put_limit [OF assms(1)] by (auto simp: lookup_put [OF assms(1)] split: if_splits)

end

text \<open>A RocksDB store whose crate keeps its promise, whose codec is lossless, and in which the column family exists
  and deletions do not fail.\<close>

locale rocks_store = rocks_backend "kdb Q" for Q :: "'db kad_rocksdb" +
  assumes codec_ok: "entry_codec_ok (kdb_codec Q)"
    and delete_ok: "\<exists>db'. rdb_delete (kdb Q) db cf k = Ok db'"
    and has_cf: "rs_has_cf Q db"

section \<open>Invariants of the memory store\<close>

lemma ms_put_eq_Ok:
  "ms_put s r = Ok s' \<longleftrightarrow> length (kr_value r) < ms_max_value_bytes (ms_config s) \<and>
     (kr_key r \<in> fst ` set (ms_records s) \<or> length (ms_records s) < ms_max_records (ms_config s)) \<and>
     s' = s\<lparr>ms_records := AList.update (kr_key r) r (ms_records s)\<rparr>"
proof (cases "map_of (ms_records s) (kr_key r)")
  case None
  then have "kr_key r \<notin> fst ` set (ms_records s)" by (simp add: map_of_eq_None_iff)
  with None show ?thesis by (auto simp: ms_put_def)
next
  case (Some x)
  then have "kr_key r \<in> fst ` set (ms_records s)" by (force dest: map_of_SomeD)
  with Some show ?thesis by (auto simp: ms_put_def)
qed

lemma length_update:
  "length (AList.update k v xs) = (if k \<in> fst ` set xs then length xs else Suc (length xs))"
  by (induction xs) auto

lemma set_update_distinct:
  "distinct (map fst xs) \<Longrightarrow> set (AList.update k v xs) = insert (k, v) {p \<in> set xs. fst p \<noteq> k}"
  by (induction xs) (auto simp: image_iff)

lemma records_inv_put: "records_inv s \<Longrightarrow> ms_put s r = Ok s' \<Longrightarrow> records_inv s'"
  by (auto simp: records_inv_def ms_put_eq_Ok length_update set_update_distinct distinct_update)

lemma set_AList_delete: "set (AList.delete k xs) = {p \<in> set xs. fst p \<noteq> k}"
  by (auto simp: AList.delete_eq)

lemma records_inv_remove: "records_inv s \<Longrightarrow> records_inv (ms_remove s k)"
  using length_delete_le [of k "ms_records s"]
  by (auto simp: records_inv_def ms_remove_def set_AList_delete distinct_delete)

lemma records_inv_retain: "records_inv s \<Longrightarrow> records_inv (ms_retain f s)"
  by (auto simp: records_inv_def ms_retain_def
      intro: distinct_map_filter order_trans [OF length_filter_le])

section \<open>Invariants of the providers\<close>

lemma sorted_insert_before:
  assumes "sorted (map d ps)" and "find_position (\<lambda>p. d r < d p) ps = Some i"
  shows "sorted (map d (insert_nth i r ps))"
proof -
  define a b where "a = take i ps" and "b = drop (Suc i) ps"
  have i: "i < length ps" "d r < d (ps ! i)" using find_position_Some [OF assms(2)] by auto
  have ps: "ps = a @ ps ! i # b" and a: "\<forall>x \<in> set a. \<not> d r < d x"
    using find_position_split [OF assms(2)] by (auto simp: a_def b_def)
  have "drop i ps = ps ! i # b" using i(1) by (simp add: b_def Cons_nth_drop_Suc)
  then have "insert_nth i r ps = a @ r # ps ! i # b" by (simp add: insert_nth_def a_def)
  moreover have "sorted (map d (a @ ps ! i # b))" using assms(1) ps by simp
  ultimately show ?thesis using a i(2) by (auto simp: sorted_append not_less)
qed

lemma sorted_append_last:
  "sorted (map d ps) \<Longrightarrow> find_position (\<lambda>p. d r < d p) ps = None \<Longrightarrow> sorted (map d (ps @ [r]))"
  by (auto simp: find_position_None sorted_append not_less)

lemma set_insert_nth: "i \<le> length xs \<Longrightarrow> set (insert_nth i x xs) = insert x (set xs)"
  by (metis Un_insert_right append_take_drop_id insert_nth_def list.simps(15) set_append)

lemma length_insert_nth [simp]: "i \<le> length xs \<Longrightarrow> length (insert_nth i x xs) = Suc (length xs)"
  by (simp add: insert_nth_def)

lemma distinct_insert_nth:
  "distinct (map f xs) \<Longrightarrow> f x \<notin> f ` set xs \<Longrightarrow> distinct (map f (insert_nth i x xs))"
proof -
  assume "distinct (map f xs)" and "f x \<notin> f ` set xs"
  then have "distinct (map f (take i xs) @ map f (drop i xs))" "f x \<notin> f ` set (take i xs) \<union> f ` set (drop i xs)"
    using set_take_subset [of i xs] set_drop_subset [of i xs] by (auto simp flip: map_append)
  then show ?thesis by (auto simp: insert_nth_def)
qed

lemma add_to_key_inv:
  assumes "key_inv distance m (pr_key r) ps"
    and "add_to_key distance same m local_id r ps pv = (ps', pv')"
  shows "key_inv distance m (pr_key r) ps'"
proof (cases "find_position (\<lambda>p. pr_provider p = pr_provider r) ps")
  case (Some i)
  then have "i < length ps" "pr_provider (ps ! i) = pr_provider r" using find_position_Some by blast+
  then have "map pr_provider (ps[i := r]) = map pr_provider ps"
      "map (\<lambda>p. distance (pr_key r) (pr_provider p)) (ps[i := r]) = map (\<lambda>p. distance (pr_key r) (pr_provider p)) ps"
    by (auto simp: map_update list_update_same_conv)
  with Some assms set_update_subset_insert [of ps i r] show ?thesis
    by (auto simp: add_to_key_def key_inv_def)
next
  case None
  then have new: "pr_provider r \<notin> pr_provider ` set ps" by (auto simp: find_position_None)
  let ?d = "\<lambda>p. distance (pr_key r) (pr_provider p)"
  show ?thesis
  proof (cases "find_position (\<lambda>p. ?d r < ?d p) ps")
    case none2: None
    with None assms new sorted_append_last [of ?d ps r] show ?thesis
      by (auto simp: add_to_key_def key_inv_def split: if_splits)
  next
    case (Some i)
    let ?l = "insert_nth i r ps"
    have i: "i \<le> length ps" using find_position_Some [OF Some] by simp
    have l: "distinct (map pr_provider ?l)" "sorted (map ?d ?l)" "\<forall>p \<in> set ?l. pr_key p = pr_key r"
      "length ?l = Suc (length ps)"
      using assms(1) new i sorted_insert_before [OF _ Some]
      by (auto simp: key_inv_def distinct_insert_nth set_insert_nth)
    have "distinct (map pr_provider (butlast ?l))" "sorted (map ?d (butlast ?l))"
      "\<forall>p \<in> set (butlast ?l). pr_key p = pr_key r"
      using l by (auto simp: map_butlast distinct_butlast sorted_butlast dest: in_set_butlastD)
    with l None Some assms show ?thesis
      by (auto simp: add_to_key_def key_inv_def Let_def split: if_splits)
  qed
qed

lemma providers_inv_provided [simp]:
  "providers_inv distance (s\<lparr>ps_provided := x\<rparr>) = providers_inv distance s"
  by (simp add: providers_inv_def)

lemma records_inv_providers [simp]: "records_inv (s\<lparr>ms_providers := x\<rparr>) = records_inv s"
  by (simp add: records_inv_def)

lemma key_inv_Nil: "key_inv distance m k []"
  by (simp add: key_inv_def)

lemma map_of_key_inv:
  "providers_inv distance s \<Longrightarrow> map_of (ps_providers s) k = Some ps \<Longrightarrow>
     key_inv distance (pc_max_providers_per_key (ps_config s)) k ps"
  by (auto simp: providers_inv_def dest!: map_of_SomeD)

lemma add_provider_inv:
  assumes "providers_inv distance s" and "add_provider distance same local_id r s = Ok s'"
  shows "providers_inv distance s' \<and> ps_config s' = ps_config s"
proof -
  let ?m = "pc_max_providers_per_key (ps_config s)"
  let ?old = "case map_of (ps_providers s) (pr_key r) of None \<Rightarrow> [] | Some ps \<Rightarrow> ps"
  obtain ps pv where a: "add_to_key distance same ?m local_id r ?old (ps_provided s) = (ps, pv)"
    by fastforce
  have guard: "map_of (ps_providers s) (pr_key r) = None \<longrightarrow>
      length (ps_providers s) \<noteq> pc_max_provided_keys (ps_config s)"
    and s': "s' = s\<lparr>ps_providers := AList.update (pr_key r) ps (ps_providers s), ps_provided := pv\<rparr>"
    using assms(2) a by (auto simp: add_provider_def Let_def split: if_splits)
  have "key_inv distance ?m (pr_key r) ?old"
    using map_of_key_inv [OF assms(1)] by (auto simp: key_inv_Nil split: option.splits)
  from add_to_key_inv [OF this a] have new: "key_inv distance ?m (pr_key r) ps" .
  have "length (AList.update (pr_key r) ps (ps_providers s)) \<le> pc_max_provided_keys (ps_config s)"
    using assms(1) guard by (auto simp: providers_inv_def length_update map_of_eq_None_iff)
  with assms(1) new show ?thesis
    by (auto simp: s' providers_inv_def set_update_distinct distinct_update)
qed

lemma key_inv_remove:
  assumes "key_inv distance m k ps"
  shows "key_inv distance m k (remove_nth i ps)"
proof -
  let ?d = "\<lambda>p. distance k (pr_provider p)" and ?a = "take i ps" and ?b = "drop (Suc i) ps"
  show ?thesis
  proof (cases "i < length ps")
    case True
    then have ps: "ps = ?a @ ps ! i # ?b" by (rule id_take_nth_drop)
    have "key_inv distance m k (?a @ ps ! i # ?b)" using assms ps by simp
    then show ?thesis by (simp add: key_inv_def remove_nth_def sorted_append)
  next
    case False
    with assms show ?thesis by (simp add: remove_nth_def)
  qed
qed

lemma remove_provider_inv:
  assumes "providers_inv distance s"
  shows "providers_inv distance (remove_provider same k p s) \<and>
         ps_config (remove_provider same k p s) = ps_config s"
proof (cases "map_of (ps_providers s) k")
  case None
  with assms show ?thesis by (simp add: remove_provider_def)
next
  case (Some ps)
  let ?m = "pc_max_providers_per_key (ps_config s)"
  have ki: "key_inv distance ?m k ps" by (rule map_of_key_inv [OF assms Some])
  have "k \<in> fst ` set (ps_providers s)" using Some by (force dest: map_of_SomeD)
  then have len: "length (AList.update k x (ps_providers s)) = length (ps_providers s)" for x
    by (simp add: length_update)
  have upd: "providers_inv distance (s\<lparr>ps_providers := AList.update k x (ps_providers s)\<rparr>)"
    if "key_inv distance ?m k x" for x
    using assms that len by (auto simp: providers_inv_def set_update_distinct distinct_update)
  have del: "providers_inv distance (s\<lparr>ps_providers := AList.delete k (ps_providers s)\<rparr>)"
    using assms order_trans [OF length_delete_le]
    by (auto simp: providers_inv_def set_AList_delete distinct_delete)
  show ?thesis
    using Some ki upd del key_inv_remove [OF ki]
    by (auto simp: remove_provider_def Let_def split: option.splits)
qed

lemma ms_inv_new: "ms_inv distance c (memory_store_with_config local_id c)"
  by (simp add: ms_inv_def memory_store_with_config_def records_inv_def providers_inv_def
      providers_with_config_def)

lemma ms_inv_step: "ms_step distance same s s' \<Longrightarrow> ms_inv distance c s \<Longrightarrow> ms_inv distance c s'"
proof (induction rule: ms_step.induct)
  case (ms_step_put s r s')
  then show ?case using records_inv_put [of s r s'] by (auto simp: ms_inv_def ms_put_eq_Ok)
next
  case (ms_step_remove s k)
  then show ?case using records_inv_remove [of s k] by (simp add: ms_inv_def ms_remove_def)
next
  case (ms_step_retain s f)
  then show ?case using records_inv_retain [of s f] by (simp add: ms_inv_def ms_retain_def)
next
  case (ms_step_add s r s')
  then show ?case
    using add_provider_inv [of distance "ms_providers s" same "ms_local_key s" r]
    by (auto simp: ms_inv_def ms_add_provider_def res_simps)
next
  case (ms_step_remove_provider s k p)
  then show ?case
    using remove_provider_inv [of distance "ms_providers s" same k p]
    by (simp add: ms_inv_def ms_remove_provider_def)
qed

interpretation ms: invariant_steps "ms_step distance same" "ms_inv distance c" for distance same c
  by unfold_locales (rule ms_inv_step)

section \<open>Both stores keep the promise\<close>

lemma ms_get_put:
  "ms_put s r = Ok s' \<Longrightarrow> ms_get s' k = (if k = kr_key r then Some r else ms_get s k)"
  by (auto simp: ms_put_eq_Ok ms_get_def update_conv')

lemma ms_get_remove: "ms_get (ms_remove s k) k' = (if k' = k then None else ms_get s k')"
  by (simp add: ms_get_def ms_remove_def delete_conv')

interpretation memory_store: record_store "\<lambda>s k. map_option kr_value (ms_get s k)" ms_put ms_remove
    "\<lambda>s. ms_max_value_bytes (ms_config s)"
  by unfold_locales (simp_all add: ms_get_put ms_get_remove, auto simp: ms_put_eq_Ok)

lemma rs_put_eq_Ok:
  "rs_put Q lmt now db r = Ok db' \<longleftrightarrow> rs_has_cf Q db \<and> length (kr_value r) < lmt \<and>
     rdb_put (kdb Q) db (Some KADEMLIA_STORE_CF) (kr_key r)
       (encode_entry (kdb_codec Q) (snd (entry_of_record now r))) = Ok db'"
  by (auto simp: rs_put_def entry_of_record_def res_simps)

lemma rs_value_put:
  assumes "rocks_backend (kdb Q)" and "entry_codec_ok (kdb_codec Q)" and "rs_put Q lmt now db r = Ok db'"
  shows "rs_value Q db' k = (if k = kr_key r then Some (kr_value r) else rs_value Q db k)"
  using assms(2,3)
  by (auto simp: rs_value_def rs_put_eq_Ok rocks_backend.rdb_get_put [OF assms(1)] entry_codec_ok_def
      entry_of_record_def)

context rocks_store
begin

lemma rs_value_remove: "rs_value Q (rs_remove Q db k) k' = (if k' = k then None else rs_value Q db k')"
proof -
  obtain db' where d: "rdb_delete (kdb Q) db (Some KADEMLIA_STORE_CF) k = Ok db'" using delete_ok by blast
  then have "rs_remove Q db k = db'" by (simp add: rs_remove_def has_cf)
  then show ?thesis by (simp add: rs_value_def rdb_get_delete [OF d])
qed

lemma rs_value_put': "rs_put Q lmt now db r = Ok db' \<Longrightarrow>
    rs_value Q db' k = (if k = kr_key r then Some (kr_value r) else rs_value Q db k)"
  by (rule rs_value_put [OF rocks_backend_axioms codec_ok])

end

sublocale rocks_store \<subseteq> store: record_store "rs_value Q" "rs_put Q lmt now" "rs_remove Q" "\<lambda>_. lmt" for lmt now
  by unfold_locales (simp_all add: rs_value_put' rs_value_remove, auto simp: rs_put_eq_Ok)

lemma unmark_mark: "unmark (mark v @ rest) = Some (v, rest)"
  by (induction v) (auto simp: mark_def)

lemma marking_codec_ok: "entry_codec_ok marking_codec"
  by (simp add: entry_codec_ok_def marking_codec_def unmark_mark unmark_mark [of _ "[]", simplified])

interpretation map_store: rocks_store map_kad_rocksdb
proof -
  have [simp]: "kdb map_kad_rocksdb = map_rocksdb rocks_column_families" by (simp add: map_kad_rocksdb_def)
  show "rocks_store map_kad_rocksdb"
    by unfold_locales
      (auto simp: rs_has_cf_def rocks_column_families_def marking_codec_ok map_kad_rocksdb_def)
qed

section \<open>Properties\<close>

text \<open>C26: The memory of the node's record store is bounded whatever the network sends. In every
  reachable store there are at most \<open>max_records\<close> records, one per key and each shorter than
  \<open>max_value_bytes\<close>; at most \<open>max_provided_keys\<close> keys have providers, and each key has at most
  \<open>max_providers_per_key\<close> of them, without repetition and ordered by distance from the key.\<close>

theorem memory_store_bounded:
  assumes "(ms_step distance same)\<^sup>*\<^sup>* (memory_store_with_config local_id c) s"
  shows "distinct (map fst (ms_records s)) \<and> length (ms_records s) \<le> ms_max_records c \<and>
    list_all (\<lambda>(k, r). kr_key r = k \<and> length (kr_value r) < ms_max_value_bytes c) (ms_records s) \<and>
    length (ps_providers (ms_providers s)) \<le> pc_max_provided_keys (ms_providers_config c) \<and>
    list_all (\<lambda>(k, ps). key_inv distance (pc_max_providers_per_key (ms_providers_config c)) k ps)
      (ps_providers (ms_providers s))"
  using ms.inv_steps [OF assms ms_inv_new]
  by (auto simp: ms_inv_def records_inv_def providers_inv_def list_all_iff)

theorem memory_store_bounded_witness:
  "length (ms_records ((memory_store_with_config [9] \<lparr>ms_max_records = 1, ms_max_value_bytes = 10,
     ms_providers_config = \<lparr>pc_max_providers_per_key = 2, pc_max_provided_keys = 2\<rparr>\<rparr>)
       \<lparr>ms_records := [([7], sample_record)]\<rparr>)) \<le> 1"
proof -
  let ?c = "\<lparr>ms_max_records = 1, ms_max_value_bytes = 10,
     ms_providers_config = \<lparr>pc_max_providers_per_key = 2, pc_max_provided_keys = 2\<rparr>\<rparr>"
  let ?s = "(memory_store_with_config [9] ?c)\<lparr>ms_records := [([7], sample_record)]\<rparr>"
  have "ms_put (memory_store_with_config [9] ?c) sample_record = Ok ?s"
    by (simp add: ms_put_def memory_store_with_config_def sample_record_def)
  then have "(ms_step (\<lambda>k p. 0) (=))\<^sup>*\<^sup>* (memory_store_with_config [9] ?c) ?s"
    by (intro r_into_rtranclp ms_step_put)
  from memory_store_bounded [OF this] show ?thesis by simp
qed

text \<open>What the memory store returns for a key is the record last put there and not removed or filtered out since,
  and a put of a key that is stored already replaces it also when the store is full.\<close>

theorem memory_store_get_after_put:
  assumes "(ms_step distance same)\<^sup>*\<^sup>* (memory_store_with_config local_id c) s"
    and "length (kr_value r) < ms_max_value_bytes c"
    and "ms_get s (kr_key r) \<noteq> None \<or> length (ms_records s) < ms_max_records c"
  shows "\<exists>s'. ms_put s r = Ok s' \<and> (\<forall>k. ms_get s' k = (if k = kr_key r then Some r else ms_get s k)) \<and>
    (\<forall>k. ms_get (ms_remove s' (kr_key r)) k = (if k = kr_key r then None else ms_get s k))"
proof -
  have "ms_config s = c" using ms.inv_steps [OF assms(1) ms_inv_new] by (simp add: ms_inv_def)
  then obtain s' where s': "ms_put s r = Ok s'"
    using assms(2,3) by (auto simp: ms_put_eq_Ok ms_get_def map_of_eq_None_iff)
  show ?thesis using s' by (intro exI [of _ s']) (auto simp: ms_get_put [OF s'] ms_get_remove)
qed

theorem memory_store_get_after_put_witness:
  "\<exists>s'. ms_put (memory_store_with_config [9] \<lparr>ms_max_records = 1, ms_max_value_bytes = 10,
       ms_providers_config = \<lparr>pc_max_providers_per_key = 2, pc_max_provided_keys = 2\<rparr>\<rparr>) sample_record = Ok s' \<and>
     ms_get s' [7] = Some sample_record"
proof -
  let ?c = "\<lparr>ms_max_records = 1, ms_max_value_bytes = 10,
     ms_providers_config = \<lparr>pc_max_providers_per_key = 2, pc_max_provided_keys = 2\<rparr>\<rparr>"
  from memory_store_get_after_put [of "\<lambda>k p. 0" "(=)" "[9]" ?c "memory_store_with_config [9] ?c" sample_record]
  show ?thesis by (auto simp: sample_record_def memory_store_with_config_def)
qed

text \<open>Records in the RocksDB store do not expire. The entry keeps the remaining seconds at the time of the put, and
  reading it adds them to the current time: whenever a stored record is decoded, by a get or by the compaction
  filter, it expires in the future, so the compaction filter never removes anything.\<close>

theorem rocksdb_records_never_expire:
  assumes "\<And>r t. (\<forall>e. kr_expires r = Some e \<longrightarrow> t < e) \<Longrightarrow> \<not> is_expired r t"
    and "created \<le> now"
  shows "compaction_filter C is_peer is_expired created now kv \<noteq> Ok True"
proof
  assume "compaction_filter C is_peer is_expired created now kv = Ok True"
  then obtain r where r: "into_kad_record C is_peer now kv = Ok r" "is_expired r created"
    by (auto simp: compaction_filter_def res_simps)
  have "\<forall>e. kr_expires r = Some e \<longrightarrow> created < e"
    using r(1) assms(2)
    by (auto simp: into_kad_record_def record_of_entry_def nanos_per_sec_def word_less_nat_alt
        split: option.splits if_splits)
  with assms(1) r(2) show False by blast
qed

theorem rocksdb_records_never_expire_witness:
  "compaction_filter marking_codec (\<lambda>b. True) (\<lambda>r t. case kr_expires r of None \<Rightarrow> False | Some e \<Rightarrow> e \<le> t)
     1000 9000000000000 ([7], encode_entry marking_codec (snd (entry_of_record 0 sample_record))) \<noteq> Ok True"
  by (rule rocksdb_records_never_expire) (auto split: option.splits)

text \<open>\<open>retain\<close> of the RocksDB store removes nothing: its batch deletes the keys from the default column family,
  while the records are in another one.\<close>

theorem rocksdb_retain_removes_nothing:
  assumes "\<And>db ks db' cf k. kdb_delete_batch Q db None ks = Ok db' \<Longrightarrow>
      rdb_get (kdb Q) db' (Some cf) k = rdb_get (kdb Q) db (Some cf) k"
    and "rs_retain Q now f db = Ok db'"
  shows "rs_value Q db' k = rs_value Q db k"
proof -
  have "\<exists>ks. kdb_delete_batch Q db None ks = Ok db' \<or> db' = db"
  proof (cases "rs_all_records Q now db")
    case (Ok rs)
    let ?ks = "map kr_key (filter (\<lambda>r. \<not> f (kr_key r) r) rs)"
    have "kdb_delete_batch Q db None ?ks = Ok db' \<or> db' = db"
      using assms(2) Ok by (cases "kdb_delete_batch Q db None ?ks") (auto simp: rs_retain_def)
    then show ?thesis by blast
  qed (use assms(2) in \<open>auto simp: rs_retain_def\<close>)
  then have "rdb_get (kdb Q) db' (Some KADEMLIA_STORE_CF) k = rdb_get (kdb Q) db (Some KADEMLIA_STORE_CF) k"
    using assms(1) by blast
  then show ?thesis by (simp add: rs_value_def)
qed

theorem rocksdb_retain_removes_nothing_witness:
  "\<exists>db'. rs_retain map_kad_rocksdb 0 (\<lambda>k r. False)
      [(Some KADEMLIA_STORE_CF, [7]) \<mapsto> encode_entry marking_codec (snd (entry_of_record 0 sample_record))] = Ok db' \<and>
    rs_value map_kad_rocksdb db' [7] = Some [1, 2]"
proof -
  let ?db = "[(Some KADEMLIA_STORE_CF, [7]) \<mapsto> encode_entry marking_codec (snd (entry_of_record 0 sample_record))]"
  have dec: "decode_entry marking_codec (encode_entry marking_codec r) = Some r" for r
    using marking_codec_ok by (simp add: entry_codec_ok_def)
  obtain db' where r: "rs_retain map_kad_rocksdb 0 (\<lambda>k r. False) ?db = Ok db'"
    by (simp add: rs_retain_def rs_all_records_def rs_has_cf_def map_kad_rocksdb_def rocks_column_families_def
        into_kad_record_def dec record_of_entry_def entry_of_record_def)
  have "rs_value map_kad_rocksdb db' [7] = rs_value map_kad_rocksdb ?db [7]"
    by (rule rocksdb_retain_removes_nothing [OF _ r]) (auto simp: map_kad_rocksdb_def)
  also have "\<dots> = Some [1, 2]"
    by (simp add: rs_value_def map_kad_rocksdb_def dec entry_of_record_def sample_record_def)
  finally show ?thesis using r by blast
qed

end
