(* ===== verification/Config.thy ===== *)
theory Config
  imports Kad_Store
begin

text \<open>
  Configuration (\<open>src/types.rs\<close>): the text formats of modes, origins, partitions and agent
  versions, \<open>RuntimeConfig\<close> with its defaults, the configurations of the components derived from it,
  and \<open>load_runtime_config\<close>, by which command line flags override the file.

  Parameters: parsing of peer ids and multiaddresses, the configuration file, the comparison of
  semantic versions, the delays of the crate \<open>tokio_retry\<close>, and the key pair of an identity. A
  \<open>Duration\<close> is a number of seconds where it is made by \<open>from_secs\<close>, and of milliseconds for retries.
\<close>

section \<open>Text formats\<close>

datatype kademlia_mode = Client | Server

fun kademlia_mode_text :: "kademlia_mode \<Rightarrow> string" where
  "kademlia_mode_text Client = ''client''"
| "kademlia_mode_text Server = ''server''"

definition kademlia_mode_try_from :: "string \<Rightarrow> kademlia_mode result" where
  "kademlia_mode_try_from value =
     (let v = to_lowercase value
      in if v = ''client'' then Ok Client
         else if v = ''server'' then Ok Server
         else Err [''Wrong Kademlia mode. Expecting 'client' or 'server'.''])"

datatype mode = LightClient | AppClient u32

fun mode_from :: "u32 option \<Rightarrow> mode" where
  "mode_from None = LightClient"
| "mode_from (Some app_id) = AppClient app_id"

datatype origin = Internal | FatClient | External | OtherOrigin string

definition origin_try_from :: "string \<Rightarrow> origin result" where
  "origin_try_from value =
     (let v = to_lowercase value
      in if v = ''internal'' then Ok Internal
         else if v = ''fatclient'' then Ok FatClient
         else if v = ''external'' then Ok External
         else Ok (OtherOrigin v))"

fun origin_text :: "origin \<Rightarrow> string" where
  "origin_text Internal = ''internal''"
| "origin_text FatClient = ''fatclient''"
| "origin_text External = ''external''"
| "origin_text (OtherOrigin v) = v"

text \<open>\<open>block_matrix_partition_format\<close>.\<close>

definition partition_parse :: "string \<Rightarrow> (string, partition) res" where
  "partition_parse value =
     and_then (map_err int_error_text (collect_res (map parse_u8 (split_on CHR ''/'' value)))) (\<lambda>parts.
       case parts of
         [number, fraction] \<Rightarrow>
           if number = 0 \<or> fraction = 0 then Err ''Partition number or fraction cannot be 0''
           else if number > fraction then Err (''Invalid partition: '' @ show_word number @ ''/'' @ show_word fraction)
           else Ok \<lparr>part_number = number, part_fraction = fraction\<rparr>
       | _ \<Rightarrow> Err ''Invalid partition parameter'')"

definition partition_serialize :: "partition option \<Rightarrow> string option" where
  "partition_serialize p =
     map_option (\<lambda>p. show_word (part_number p) @ ''/'' @ show_word (part_fraction p)) p"

definition partition_deserialize :: "string \<Rightarrow> (string, partition option) res" where
  "partition_deserialize value =
     (if value = [] \<or> contains_str ''none'' (to_lowercase value) then Ok None
      else map_res Some (partition_parse value))"

record agent_version =
  av_base_version :: string
  av_client_type :: string
  av_kademlia_mode :: string
  av_release_version :: string

definition agent_version_text :: "agent_version \<Rightarrow> string" where
  "agent_version_text a =
     av_base_version a @ ''/'' @ av_release_version a @ ''/'' @ av_client_type a @ ''/'' @ av_kademlia_mode a"

definition agent_version_from_str :: "string \<Rightarrow> (string, agent_version) res" where
  "agent_version_from_str s =
     (case split_on CHR ''/'' s of
        [b, r, c, k] \<Rightarrow> Ok \<lparr>av_base_version = b, av_client_type = c, av_kademlia_mode = k, av_release_version = r\<rparr>
      | _ \<Rightarrow> Err ''Failed to parse agent version'')"

definition MINIMUM_SUPPORTED_VERSION :: string where "MINIMUM_SUPPORTED_VERSION = ''1.9.2''"

text \<open>\<open>parse_version\<close> stands for \<open>semver::Version::parse\<close>, \<open>at_least\<close> for \<open>>=\<close> on versions.\<close>

definition agent_is_supported ::
    "(string \<Rightarrow> 'ver option) \<Rightarrow> ('ver \<Rightarrow> 'ver \<Rightarrow> bool) \<Rightarrow> agent_version \<Rightarrow> bool" where
  "agent_is_supported parse_version at_least a =
     (case (parse_version (av_release_version a), parse_version MINIMUM_SUPPORTED_VERSION) of
        (Some r, Some m) \<Rightarrow> at_least r m
      | _ \<Rightarrow> False)"

section \<open>Addresses, keys, retries\<close>

type_synonym multiaddr = string

definition compact_multiaddress_try_from ::
    "(string \<Rightarrow> peer_id result) \<Rightarrow> (string \<Rightarrow> multiaddr result) \<Rightarrow> string \<Rightarrow> (peer_id \<times> multiaddr) result" where
  "compact_multiaddress_try_from parse_peer parse_addr value =
     (case rsplit_once CHR ''/'' value of
        None \<Rightarrow> Err [''Invalid multiaddress string'']
      | Some (_, peer) \<Rightarrow>
          and_then (parse_peer peer) (\<lambda>p. map_res (Pair p) (parse_addr value)))"

datatype multiaddr_config = Compact "peer_id \<times> multiaddr" | PeerIdAndMultiaddr "peer_id \<times> multiaddr"

fun multiaddr_of_config :: "multiaddr_config \<Rightarrow> peer_id \<times> multiaddr" where
  "multiaddr_of_config (Compact v) = v"
| "multiaddr_of_config (PeerIdAndMultiaddr v) = v"

datatype secret_key = SeedKey string | RawKey string

record backoff_config =
  bo_base :: u64
  bo_max_delay :: u64
  bo_retries :: nat

datatype retry_config = Exponential backoff_config | Fibonacci backoff_config

text \<open>The crate's strategies give the n-th delay for a base, a factor and a maximum in milliseconds.\<close>

record retry_strategies =
  exponential_backoff :: "u64 \<Rightarrow> nat \<Rightarrow> nat \<Rightarrow> nat \<Rightarrow> nat"
  fibonacci_backoff :: "u64 \<Rightarrow> nat \<Rightarrow> nat \<Rightarrow> nat \<Rightarrow> nat"
  jitter :: "nat \<Rightarrow> nat"

fun retry_delays :: "retry_strategies \<Rightarrow> retry_config \<Rightarrow> nat list" where
  "retry_delays S (Exponential c) =
     map (\<lambda>i. jitter S (exponential_backoff S (bo_base c) 1000 (unat (bo_max_delay c)) i)) [0 ..< bo_retries c]"
| "retry_delays S (Fibonacci c) =
     map (\<lambda>i. jitter S (fibonacci_backoff S (bo_base c) 1000 (unat (bo_max_delay c)) i)) [0 ..< bo_retries c]"

section \<open>RuntimeConfig\<close>

record runtime_config =
  http_server_host :: string
  http_server_port :: u16
  secret_key :: "secret_key option"
  port :: u16
  ws_transport_enable :: bool
  autonat_only_global_ips :: bool
  autonat_throttle :: u64
  autonat_retry_interval :: u64
  autonat_refresh_interval :: u64
  autonat_boot_delay :: u64
  bootstraps :: "multiaddr_config list"
  bootstrap_period :: u64
  operation_mode :: kademlia_mode
  relays :: "multiaddr_config list"
  full_node_ws :: "string list"
  genesis_hash :: string
  app_id :: "u32 option"
  confidence :: f64
  avail_path :: string
  log_level :: string
  origin :: origin
  log_format_json :: bool
  ot_collector_endpoint :: string
  ot_export_period :: u64
  ot_export_timeout :: u64
  ot_flush_block_interval :: u32
  disable_rpc :: bool
  dht_parallelization_limit :: nat
  query_proof_rpc_parallel_tasks :: nat
  block_processing_delay :: "u32 option"
  block_matrix_partition :: "partition option"
  sync_start_block :: "u32 option"
  sync_finality_enable :: bool
  max_cells_per_rpc :: "nat option"
  threshold :: nat
  kad_record_ttl :: u64
  publication_interval :: u32
  replication_interval :: u32
  replication_factor :: u16
  connection_idle_timeout :: u64
  max_negotiating_inbound_streams :: nat
  task_command_buffer_size :: nat
  per_connection_event_buffer_size :: nat
  dial_concurrency_factor :: u8
  store_pruning_interval :: u32
  query_timeout :: u32
  query_parallelism :: u16
  caching_max_peers :: u16
  disjoint_query_paths :: bool
  max_kad_record_number :: u64
  max_kad_record_size :: u64
  max_kad_provided_keys :: u64
  retry_config :: retry_config

definition runtime_config_default :: runtime_config where
  "runtime_config_default = \<lparr>
     http_server_host = ''127.0.0.1'',
     http_server_port = 7007,
     secret_key = None,
     port = 37000,
     ws_transport_enable = False,
     autonat_only_global_ips = False,
     autonat_throttle = 1,
     autonat_retry_interval = 20,
     autonat_refresh_interval = 360,
     autonat_boot_delay = 5,
     bootstraps = [],
     bootstrap_period = 3600,
     operation_mode = Client,
     relays = [],
     full_node_ws = [''ws://127.0.0.1:9944''],
     genesis_hash = ''DEV'',
     app_id = None,
     confidence = Fin (999 / 10),
     avail_path = ''avail_path'',
     log_level = ''INFO'',
     origin = External,
     log_format_json = False,
     ot_collector_endpoint = ''http://127.0.0.1:4317'',
     ot_export_period = 300,
     ot_export_timeout = 10,
     ot_flush_block_interval = 15,
     disable_rpc = False,
     dht_parallelization_limit = 20,
     query_proof_rpc_parallel_tasks = 8,
     block_processing_delay = Some 20,
     block_matrix_partition = None,
     sync_start_block = None,
     sync_finality_enable = False,
     max_cells_per_rpc = Some 30,
     threshold = 5000,
     kad_record_ttl = 24 * 60 * 60,
     publication_interval = 12 * 60 * 60,
     replication_interval = 3 * 60 * 60,
     replication_factor = 5,
     connection_idle_timeout = 30,
     max_negotiating_inbound_streams = 128,
     task_command_buffer_size = 32,
     per_connection_event_buffer_size = 7,
     dial_concurrency_factor = 8,
     store_pruning_interval = 180,
     query_timeout = 10,
     query_parallelism = 3,
     caching_max_peers = 1,
     disjoint_query_paths = False,
     max_kad_record_number = 2400000,
     max_kad_record_size = 8192,
     max_kad_provided_keys = 1024,
     retry_config = Fibonacci \<lparr>bo_base = 1, bo_max_delay = 10, bo_retries = 6\<rparr>\<rparr>"

definition is_fat_client :: "runtime_config \<Rightarrow> bool" where
  "is_fat_client val \<longleftrightarrow> block_matrix_partition val \<noteq> None"

text \<open>A range bounded inclusively below and exclusively above.\<close>

definition sync_range :: "runtime_config \<Rightarrow> u32 \<Rightarrow> u32 \<times> u32" where
  "sync_range val e = (case sync_start_block val of None \<Rightarrow> e | Some n \<Rightarrow> n, e)"

section \<open>Configurations of the components\<close>

text \<open>\<open>Delay(Option<Duration>)\<close> is the optional duration; \<open>sleep_duration\<close> is given the time that has
  elapsed since the instant.\<close>

definition sleep_duration :: "nat option \<Rightarrow> nat \<Rightarrow> nat option" where
  "sleep_duration delay elapsed =
     (case delay of
        None \<Rightarrow> None
      | Some d \<Rightarrow> if d < elapsed then None else if d - elapsed = 0 then None else Some (d - elapsed))"

record light_client_config =
  lc_confidence :: f64
  lc_block_processing_delay :: "nat option"

definition light_client_config_of :: "runtime_config \<Rightarrow> light_client_config" where
  "light_client_config_of val =
     \<lparr>lc_confidence = confidence val,
      lc_block_processing_delay = map_option unat (block_processing_delay val)\<rparr>"

record fat_client_config =
  fcc_full_nodes_ws :: "string list"
  fcc_confidence :: f64
  fcc_disable_rpc :: bool
  fcc_dht_parallelization_limit :: nat
  fcc_query_proof_rpc_parallel_tasks :: nat
  fcc_block_processing_delay :: "nat option"
  fcc_block_matrix_partition :: "partition option"
  fcc_max_cells_per_rpc :: nat

definition fat_client_config_of :: "runtime_config \<Rightarrow> fat_client_config" where
  "fat_client_config_of val =
     \<lparr>fcc_full_nodes_ws = full_node_ws val,
      fcc_confidence = confidence val,
      fcc_disable_rpc = disable_rpc val,
      fcc_dht_parallelization_limit = dht_parallelization_limit val,
      fcc_query_proof_rpc_parallel_tasks = query_proof_rpc_parallel_tasks val,
      fcc_block_processing_delay = map_option unat (block_processing_delay val),
      fcc_block_matrix_partition = block_matrix_partition val,
      fcc_max_cells_per_rpc = (case max_cells_per_rpc val of None \<Rightarrow> 30 | Some n \<Rightarrow> n)\<rparr>"

record kademlia_config =
  kc_kad_record_ttl :: nat
  kc_record_replication_factor :: nat
  kc_record_replication_interval :: "nat option"
  kc_publication_interval :: "nat option"
  kc_query_timeout :: nat
  kc_query_parallelism :: nat
  kc_caching_max_peers :: u16
  kc_disjoint_query_paths :: bool
  kc_max_kad_record_number :: nat
  kc_max_kad_record_size :: nat
  kc_max_kad_provided_keys :: nat
  kc_kademlia_mode :: kademlia_mode

text \<open>\<open>NonZero*::new(n).expect(msg)\<close>.\<close>

definition non_zero :: "string \<Rightarrow> nat \<Rightarrow> nat result" where
  "non_zero msg n = (if n = 0 then Panic msg else Ok n)"

definition kademlia_config_of :: "runtime_config \<Rightarrow> kademlia_config result" where
  "kademlia_config_of val =
     and_then (non_zero ''Invalid replication factor'' (unat (replication_factor val))) (\<lambda>rf.
     and_then (non_zero ''Invalid query parallelism value'' (unat (query_parallelism val))) (\<lambda>qp.
       Ok \<lparr>kc_kad_record_ttl = unat (kad_record_ttl val),
           kc_record_replication_factor = rf,
           kc_record_replication_interval = Some (unat (replication_interval val)),
           kc_publication_interval = Some (unat (publication_interval val)),
           kc_query_timeout = unat (query_timeout val),
           kc_query_parallelism = qp,
           kc_caching_max_peers = caching_max_peers val,
           kc_disjoint_query_paths = disjoint_query_paths val,
           kc_max_kad_record_number = unat (max_kad_record_number val),
           kc_max_kad_record_size = unat (max_kad_record_size val),
           kc_max_kad_provided_keys = unat (max_kad_provided_keys val),
           kc_kademlia_mode = operation_mode val\<rparr>))"

record autonat_config =
  an_retry_interval :: nat
  an_refresh_interval :: nat
  an_boot_delay :: nat
  an_throttle_server_period :: nat
  an_only_global_ips :: bool

definition autonat_config_of :: "runtime_config \<Rightarrow> autonat_config" where
  "autonat_config_of val =
     \<lparr>an_retry_interval = unat (autonat_retry_interval val),
      an_refresh_interval = unat (autonat_refresh_interval val),
      an_boot_delay = unat (autonat_boot_delay val),
      an_throttle_server_period = unat (autonat_throttle val),
      an_only_global_ips = autonat_only_global_ips val\<rparr>"

record identify_config =
  ic_agent_version :: agent_version
  ic_protocol_version :: string

definition IDENTITY_PROTOCOL :: string where "IDENTITY_PROTOCOL = ''/avail_kad/id/1.0.0''"
definition IDENTITY_AGENT_BASE :: string where "IDENTITY_AGENT_BASE = ''avail-light-client''"
definition IDENTITY_AGENT_CLIENT_TYPE :: string where "IDENTITY_AGENT_CLIENT_TYPE = ''rust-client''"
definition DEV_FLAG_GENHASH :: string where "DEV_FLAG_GENHASH = ''DEV''"

text \<open>The version of the crate, \<open>clap::crate_version!()\<close>, is an argument.\<close>

definition identify_config_of :: "string \<Rightarrow> runtime_config \<Rightarrow> identify_config" where
  "identify_config_of crate_version val =
     (let genhash_short = take 6 (trim_start_matches ''0x'' (genesis_hash val));
          mode_text = (if is_fat_client val then kademlia_mode_text Server
                       else kademlia_mode_text (operation_mode val))
      in \<lparr>ic_agent_version = \<lparr>av_base_version = IDENTITY_AGENT_BASE, av_client_type = IDENTITY_AGENT_CLIENT_TYPE,
                              av_kademlia_mode = mode_text, av_release_version = crate_version\<rparr>,
          ic_protocol_version = IDENTITY_PROTOCOL @ ''-'' @ genhash_short\<rparr>)"

record libp2p_config =
  lp_secret_key :: "secret_key option"
  lp_port :: u16
  lp_identify :: identify_config
  lp_autonat :: autonat_config
  lp_kademlia :: kademlia_config
  lp_relays :: "(peer_id \<times> multiaddr) list"
  lp_bootstrap_interval :: nat
  lp_connection_idle_timeout :: nat
  lp_max_negotiating_inbound_streams :: nat
  lp_task_command_buffer_size :: nat
  lp_per_connection_event_buffer_size :: nat
  lp_dial_concurrency_factor :: nat

definition libp2p_config_of :: "string \<Rightarrow> runtime_config \<Rightarrow> libp2p_config result" where
  "libp2p_config_of crate_version val =
     and_then (kademlia_config_of val) (\<lambda>kad.
     and_then (non_zero ''Invalid task command buffer size'' (task_command_buffer_size val)) (\<lambda>tc.
     and_then (non_zero ''Invalid dial concurrency factor'' (unat (dial_concurrency_factor val))) (\<lambda>dc.
       Ok \<lparr>lp_secret_key = secret_key val,
           lp_port = port val,
           lp_identify = identify_config_of crate_version val,
           lp_autonat = autonat_config_of val,
           lp_kademlia = kad,
           lp_relays = map multiaddr_of_config (relays val),
           lp_bootstrap_interval = unat (bootstrap_period val),
           lp_connection_idle_timeout = unat (connection_idle_timeout val),
           lp_max_negotiating_inbound_streams = max_negotiating_inbound_streams val,
           lp_task_command_buffer_size = tc,
           lp_per_connection_event_buffer_size = per_connection_event_buffer_size val,
           lp_dial_concurrency_factor = dc\<rparr>)))"

text \<open>The stores refuse values of at least \<open>max_value_bytes\<close>, hence the increment, which wraps at the
  width of \<open>usize\<close>.\<close>

definition memory_store_config_of :: "libp2p_config \<Rightarrow> memory_store_config" where
  "memory_store_config_of cfg =
     \<lparr>ms_max_records = kc_max_kad_record_number (lp_kademlia cfg),
      ms_max_value_bytes = (kc_max_kad_record_size (lp_kademlia cfg) + 1) mod 2 ^ 64,
      ms_providers_config =
        \<lparr>pc_max_providers_per_key = kc_record_replication_factor (lp_kademlia cfg),
         pc_max_provided_keys = kc_max_kad_provided_keys (lp_kademlia cfg)\<rparr>\<rparr>"

definition rocksdb_store_config_of :: "libp2p_config \<Rightarrow> nat \<times> providers_config" where
  "rocksdb_store_config_of cfg =
     ((kc_max_kad_record_size (lp_kademlia cfg) + 1) mod 2 ^ 64,
      \<lparr>pc_max_providers_per_key = kc_record_replication_factor (lp_kademlia cfg),
       pc_max_provided_keys = kc_max_kad_provided_keys (lp_kademlia cfg)\<rparr>)"

record sync_client_config =
  scc_confidence :: f64
  scc_disable_rpc :: bool
  scc_dht_parallelization_limit :: nat
  scc_is_last_step :: bool

definition sync_client_config_of :: "runtime_config \<Rightarrow> sync_client_config" where
  "sync_client_config_of val =
     \<lparr>scc_confidence = confidence val, scc_disable_rpc = disable_rpc val,
      scc_dht_parallelization_limit = dht_parallelization_limit val,
      scc_is_last_step = (app_id val = None)\<rparr>"

record app_client_config =
  acc_dht_parallelization_limit :: nat
  acc_disable_rpc :: bool
  acc_threshold :: nat

definition app_client_config_of :: "runtime_config \<Rightarrow> app_client_config" where
  "app_client_config_of val =
     \<lparr>acc_dht_parallelization_limit = dht_parallelization_limit val,
      acc_disable_rpc = disable_rpc val, acc_threshold = threshold val\<rparr>"

record otel_config =
  oc_ot_collector_endpoint :: string
  oc_ot_export_period :: u64
  oc_ot_export_timeout :: u64

definition otel_config_of :: "runtime_config \<Rightarrow> otel_config" where
  "otel_config_of val =
     \<lparr>oc_ot_collector_endpoint = ot_collector_endpoint val,
      oc_ot_export_period = ot_export_period val,
      oc_ot_export_timeout = ot_export_timeout val\<rparr>"

text \<open>\<open>TimeToLive::expires\<close>; adding to an instant does not overflow here.\<close>

definition ttl_expires :: "nat \<Rightarrow> nat \<Rightarrow> nat option" where
  "ttl_expires now secs = Some (now + secs * nanos_per_sec)"

section \<open>Networks\<close>

datatype network = Local | Hex | Turing

fun network_text :: "network \<Rightarrow> string" where
  "network_text Local = ''local''"
| "network_text Hex = ''hex''"
| "network_text Turing = ''turing''"

fun bootstrap_peer_id :: "network \<Rightarrow> string" where
  "bootstrap_peer_id Local = ''12D3KooWStAKPADXqJ7cngPYXd2mSANpdgh1xQ34aouufHA2xShz''"
| "bootstrap_peer_id Hex = ''12D3KooWBMwfo5qyoLQDRat86kFcGAiJ2yxKM63rXHMw2rDuNZMA''"
| "bootstrap_peer_id Turing = ''12D3KooWBkLsNGaD3SpMaRWtAmWVuiZg1afdNSPbtJ8M8r9ArGRT''"

fun bootstrap_multiaddrr :: "network \<Rightarrow> string" where
  "bootstrap_multiaddrr Local = ''/ip4/127.0.0.1/tcp/39000''"
| "bootstrap_multiaddrr Hex = ''/dns/bootnode.1.lightclient.hex.avail.so/tcp/37000''"
| "bootstrap_multiaddrr Turing = ''/dns/bootnode.1.lightclient.turing.avail.so/tcp/37000''"

fun network_full_node_ws :: "network \<Rightarrow> string" where
  "network_full_node_ws Local = ''ws://127.0.0.1:9944''"
| "network_full_node_ws Hex = ''wss://rpc-hex-devnet.avail.tools/ws''"
| "network_full_node_ws Turing = ''wss://turing-rpc.avail.so/ws''"

fun network_ot_collector_endpoint :: "network \<Rightarrow> string" where
  "network_ot_collector_endpoint Local = ''http://127.0.0.1:4317''"
| "network_ot_collector_endpoint Hex = ''http://otel.lightclient.hex.avail.so:4317''"
| "network_ot_collector_endpoint Turing = ''http://otel.lightclient.turing.avail.so:4317''"

fun network_genesis_hash :: "network \<Rightarrow> string" where
  "network_genesis_hash Local = ''DEV''"
| "network_genesis_hash Hex = ''9d5ea6a5d7631e13028b684a1a0078e3970caa78bd677eaecaf2160304f174fb''"
| "network_genesis_hash Turing = ''d3d2f3a3495dc597434a99d7d449ebad6616db45e4e4f178f31cc6fa14378b70''"

definition network_name :: "string \<Rightarrow> string" where
  "network_name h =
     (let network =
            (if h = ''9d5ea6a5d7631e13028b684a1a0078e3970caa78bd677eaecaf2160304f174fb'' then network_text Hex
             else if h = ''d3d2f3a3495dc597434a99d7d449ebad6616db45e4e4f178f31cc6fa14378b70'' then network_text Turing
             else if h = ''DEV'' then network_text Local
             else ''other'')
      in network @ '':'' @ take (min 6 (length h)) h)"

datatype log_level = Info | Debug | Trace | Warn | Error

fun log_level_text :: "log_level \<Rightarrow> string" where
  "log_level_text Info = ''INFO''"
| "log_level_text Debug = ''DEBUG''"
| "log_level_text Trace = ''TRACE''"
| "log_level_text Warn = ''WARN''"
| "log_level_text Error = ''ERROR''"

section \<open>Command line\<close>

record cli_opts =
  cli_config :: "string option"
  cli_app_id :: "u32 option"
  cli_network :: "network option"
  cli_finality_sync_enable :: bool
  cli_port :: "u16 option"
  cli_http_server_port :: "u16 option"
  cli_ws_transport_enable :: bool
  cli_verbosity :: "log_level option"
  cli_seed :: "string option"
  cli_private_key :: "string option"
  cli_block_matrix_partition :: "partition option"

text \<open>The configuration file: \<open>None\<close> when it does not exist, else what \<open>confy\<close> loads.\<close>

record config_env =
  ce_file :: "string \<Rightarrow> runtime_config result option"
  ce_parse_peer :: "string \<Rightarrow> peer_id result"
  ce_parse_addr :: "string \<Rightarrow> multiaddr result"

definition load_config_file :: "config_env \<Rightarrow> cli_opts \<Rightarrow> (runtime_config, unit) op" where
  "load_config_file E opts cfg =
     (case cli_config opts of
        None \<Rightarrow> (Ok (), cfg)
      | Some path \<Rightarrow>
          (case ce_file E path of
             None \<Rightarrow> (Err [''Provided config file doesn't exist.''], cfg)
           | Some (Ok c) \<Rightarrow> (Ok (), c)
           | Some (Err e) \<Rightarrow> (Err ((''Failed to load configuration from '' @ path) # e), cfg)
           | Some (Panic m) \<Rightarrow> (Panic m, cfg)))"

definition apply_network :: "config_env \<Rightarrow> cli_opts \<Rightarrow> (runtime_config, unit) op" where
  "apply_network E opts cfg =
     (case cli_network opts of
        None \<Rightarrow> (Ok (), cfg)
      | Some n \<Rightarrow>
          (case and_then (wrap_err ''unable to parse default bootstrap peerID'' (ce_parse_peer E (bootstrap_peer_id n)))
                 (\<lambda>p. map_res (Pair p) (wrap_err ''unable to parse default bootstrap multi-address''
                                           (ce_parse_addr E (bootstrap_multiaddrr n)))) of
             Ok b \<Rightarrow> (Ok (), cfg\<lparr>full_node_ws := [network_full_node_ws n],
                                bootstraps := [PeerIdAndMultiaddr b],
                                ot_collector_endpoint := network_ot_collector_endpoint n,
                                genesis_hash := network_genesis_hash n\<rparr>)
           | Err e \<Rightarrow> (Err e, cfg)
           | Panic m \<Rightarrow> (Panic m, cfg)))"

definition apply_flags :: "cli_opts \<Rightarrow> runtime_config \<Rightarrow> runtime_config" where
  "apply_flags opts cfg0 =
     (let cfg1 = (case cli_verbosity opts of None \<Rightarrow> cfg0 | Some l \<Rightarrow> cfg0\<lparr>log_level := log_level_text l\<rparr>);
          cfg2 = (case cli_port opts of None \<Rightarrow> cfg1 | Some p \<Rightarrow> cfg1\<lparr>port := p\<rparr>);
          cfg3 = (case cli_http_server_port opts of None \<Rightarrow> cfg2 | Some p \<Rightarrow> cfg2\<lparr>http_server_port := p\<rparr>);
          cfg4 = cfg3\<lparr>sync_finality_enable := (sync_finality_enable cfg3 \<or> cli_finality_sync_enable opts),
                      app_id := (case cli_app_id opts of None \<Rightarrow> app_id cfg3 | Some a \<Rightarrow> Some a),
                      ws_transport_enable := (ws_transport_enable cfg3 \<or> cli_ws_transport_enable opts)\<rparr>;
          cfg5 = (case cli_private_key opts of None \<Rightarrow> cfg4 | Some k \<Rightarrow> cfg4\<lparr>secret_key := Some (RawKey k)\<rparr>);
          cfg6 = (case cli_seed opts of None \<Rightarrow> cfg5 | Some s \<Rightarrow> cfg5\<lparr>secret_key := Some (SeedKey s)\<rparr>)
      in (case cli_block_matrix_partition opts of
            None \<Rightarrow> cfg6 | Some p \<Rightarrow> cfg6\<lparr>block_matrix_partition := Some p\<rparr>))"

definition load_runtime_config :: "config_env \<Rightarrow> cli_opts \<Rightarrow> (runtime_config, unit) op" where
  "load_runtime_config E opts =
     op_bind (load_config_file E opts) (\<lambda>_.
     op_bind (apply_network E opts) (\<lambda>_ cfg. (Ok (), apply_flags opts cfg)))"

section \<open>Identity\<close>

record identity_file =
  if_avail_secret_uri :: "string option"
  if_avail_secret_seed_phrase :: "string option"

record ('uri, 'kp) identity_env =
  ie_mnemonic :: "string result"
  ie_store :: "identity_file \<Rightarrow> unit result"
  ie_parse_uri :: "string \<Rightarrow> 'uri result"
  ie_set_password :: "string \<Rightarrow> 'uri \<Rightarrow> 'uri result"
  ie_keypair :: "'uri \<Rightarrow> 'kp result"
  ie_address :: "'kp \<Rightarrow> string"
  ie_public_key :: "'kp \<Rightarrow> string"

text \<open>\<open>load_or_init\<close> on the file that was loaded: the identity and, if a new secret was made, the file that
  was stored.\<close>

definition load_or_init ::
    "('uri, 'kp) identity_env \<Rightarrow> identity_file result \<Rightarrow> string option \<Rightarrow>
     (('kp \<times> string \<times> string) \<times> identity_file option) result" where
  "load_or_init E loaded password =
     and_then loaded (\<lambda>config.
     and_then
       (case (case if_avail_secret_uri config of Some u \<Rightarrow> Some u | None \<Rightarrow> if_avail_secret_seed_phrase config) of
          None \<Rightarrow>
            and_then (ie_mnemonic E) (\<lambda>m.
              let config' = config\<lparr>if_avail_secret_uri := Some m\<rparr>
              in and_then (ie_store E config') (\<lambda>_. map_res (\<lambda>u. (u, Some config')) (ie_parse_uri E m)))
        | Some suri \<Rightarrow> map_res (\<lambda>u. (u, None)) (ie_parse_uri E suri)) (\<lambda>(suri, stored).
     and_then (case password of None \<Rightarrow> Ok suri | Some p \<Rightarrow> ie_set_password E p suri) (\<lambda>suri'.
     and_then (ie_keypair E suri') (\<lambda>kp.
       Ok ((kp, ie_address E kp, ie_public_key E kp), stored)))))"

text \<open>Options and an environment for examples: a port and a network are given, and there is no file.\<close>

definition sample_opts :: cli_opts where
  "sample_opts = \<lparr>cli_config = None, cli_app_id = Some 5, cli_network = Some Turing,
     cli_finality_sync_enable = True, cli_port = Some 38000, cli_http_server_port = None,
     cli_ws_transport_enable = False, cli_verbosity = None, cli_seed = Some ''s'', cli_private_key = Some ''k'',
     cli_block_matrix_partition = None\<rparr>"

definition sample_config_env :: config_env where
  "sample_config_env = \<lparr>ce_file = (\<lambda>p. None), ce_parse_peer = (\<lambda>s. Ok [1]), ce_parse_addr = (\<lambda>s. Ok s)\<rparr>"

text \<open>A partition that denotes a part of the matrix.\<close>

definition partition_valid :: "partition \<Rightarrow> bool" where
  "partition_valid p \<longleftrightarrow> 0 < part_number p \<and> part_number p \<le> part_fraction p"

section \<open>Lemmas\<close>

lemma contains_str_set: "contains_str p s \<Longrightarrow> set p \<subseteq> set s"
proof (induction s)
  case Nil
  then show ?case by simp
next
  case (Cons c cs)
  show ?case
  proof (cases "starts_with (c # cs) p")
    case True
    then have "take (length p) (c # cs) = p" by (simp add: starts_with_def)
    then show ?thesis using set_take_subset [of "length p" "c # cs"] by simp
  next
    case False
    with Cons show ?thesis by auto
  qed
qed

lemma split_partition_text:
  "split_on CHR ''/'' (show_word (a :: u8) @ ''/'' @ show_word (b :: u8)) = [show_word a, show_word b]"
  using show_word_free [of "CHR ''/''" a] show_word_free [of "CHR ''/''" b]
  by (simp add: split_on_append split_on_free)

lemma lower_char_eq_n: "c \<noteq> CHR ''N'' \<Longrightarrow> c \<noteq> CHR ''n'' \<Longrightarrow> lower_char c \<noteq> CHR ''n''"
proof
  assume c: "c \<noteq> CHR ''N''" "c \<noteq> CHR ''n''" and eq: "lower_char c = CHR ''n''"
  then have up: "65 \<le> (of_char c :: nat) \<and> of_char c \<le> (90 :: nat)"
    by (auto simp: lower_char_def split: if_splits)
  then have "char_of (of_char c + 32 :: nat) = CHR ''n''" using eq by (simp add: lower_char_def)
  then have "(of_char (char_of (of_char c + 32 :: nat) :: char) :: nat) = of_char (CHR ''n'')" by simp
  with up have "(of_char c :: nat) + 32 = 110" by simp
  then have "(of_char c :: nat) = of_char (CHR ''N'')" by simp
  then have "c = CHR ''N''" by (simp only: of_char_eq_iff)
  with c(1) show False by simp
qed

lemma no_none_in_digits:
  assumes "\<And>c. c \<in> set s \<Longrightarrow> c \<noteq> CHR ''N'' \<and> c \<noteq> CHR ''n''"
  shows "\<not> contains_str ''none'' (to_lowercase s)"
proof
  assume "contains_str ''none'' (to_lowercase s)"
  then have "CHR ''n'' \<in> set (to_lowercase s)" using contains_str_set by fastforce
  then obtain c where "c \<in> set s" "lower_char c = CHR ''n''" by (auto simp: to_lowercase_def)
  with assms lower_char_eq_n show False by metis
qed

lemma partition_parse_text:
  "partition_valid p \<Longrightarrow>
     partition_parse (show_word (part_number p) @ ''/'' @ show_word (part_fraction p)) = Ok p"
  unfolding partition_parse_def split_partition_text partition_valid_def
  by (auto simp: parse_u8_show_word)

lemma partition_parse_valid: "partition_parse s = Ok q \<Longrightarrow> partition_valid q"
proof -
  assume "partition_parse s = Ok q"
  then obtain parts where "(case parts of
         [number, fraction] \<Rightarrow>
           if number = 0 \<or> fraction = 0 then Err ''Partition number or fraction cannot be 0''
           else if number > fraction then Err (''Invalid partition: '' @ show_word number @ ''/'' @ show_word fraction)
           else Ok \<lparr>part_number = number, part_fraction = fraction\<rparr>
       | _ \<Rightarrow> Err ''Invalid partition parameter'') = Ok q"
    by (auto simp only: partition_parse_def and_then_eq_Ok)
  then show ?thesis
    by (auto simp: partition_valid_def word_neq_0_conv split: list.split_asm if_split_asm)
qed

section \<open>Properties\<close>

text \<open>A partition survives the configuration file: the text that is written for a valid partition is read back
  as the same partition, and only valid partitions are ever read, with a number between 1 and the
  fraction.\<close>

theorem partition_roundtrip:
  assumes "partition_valid p" and "partition_serialize (Some p) = Some t"
  shows "partition_deserialize t = Ok (Some p) \<and>
    (\<forall>s q. partition_deserialize s = Ok (Some q) \<longrightarrow> partition_valid q)"
proof
  have t: "t = show_word (part_number p) @ ''/'' @ show_word (part_fraction p)"
    using assms(2) by (simp add: partition_serialize_def)
  have "c \<noteq> CHR ''N'' \<and> c \<noteq> CHR ''n''" if "c \<in> set t" for c
    using that show_word_free [of "CHR ''N''"] show_word_free [of "CHR ''n''"] by (auto simp: t)
  then have "\<not> contains_str ''none'' (to_lowercase t)" by (rule no_none_in_digits)
  then show "partition_deserialize t = Ok (Some p)"
    using partition_parse_text [OF assms(1)] by (simp add: partition_deserialize_def t)
  show "\<forall>s q. partition_deserialize s = Ok (Some q) \<longrightarrow> partition_valid q"
    by (auto simp: partition_deserialize_def res_simps split: if_splits dest: partition_parse_valid)
qed

theorem partition_roundtrip_witness: "partition_deserialize ''2/20'' = Ok (Some \<lparr>part_number = 2, part_fraction = 20\<rparr>)"
proof -
  have "partition_serialize (Some \<lparr>part_number = 2, part_fraction = 20\<rparr>) = Some ''2/20''" by code_simp
  from partition_roundtrip [OF _ this] show ?thesis by (simp add: partition_valid_def)
qed

text \<open>An agent version is recognized by the peers: parsing the text of an agent version without slashes in its
  parts gives it back, and a text with another number of parts is refused.\<close>

theorem agent_version_roundtrip:
  assumes "CHR ''/'' \<notin> set (av_base_version a @ av_release_version a @ av_client_type a @ av_kademlia_mode a)"
  shows "agent_version_from_str (agent_version_text a) = Ok a \<and>
    (\<forall>s b. agent_version_from_str s = Ok b \<longrightarrow> agent_version_text b = s)"
proof
  have "split_on CHR ''/'' (agent_version_text a) =
      [av_base_version a, av_release_version a, av_client_type a, av_kademlia_mode a]"
    using assms by (simp add: agent_version_text_def split_on_append split_on_free)
  then show "agent_version_from_str (agent_version_text a) = Ok a" by (simp add: agent_version_from_str_def)
  show "\<forall>s b. agent_version_from_str s = Ok b \<longrightarrow> agent_version_text b = s"
  proof (intro allI impI)
    fix s b assume "agent_version_from_str s = Ok b"
    then have "split_on CHR ''/'' s = [av_base_version b, av_release_version b, av_client_type b, av_kademlia_mode b]"
      by (auto simp: agent_version_from_str_def split: list.splits)
    then show "agent_version_text b = s"
      using join_on_split_on [of "CHR ''/''" s] by (simp add: agent_version_text_def)
  qed
qed

theorem agent_version_roundtrip_witness:
  "agent_version_from_str (agent_version_text (ic_agent_version (identify_config_of ''1.12.2'' runtime_config_default))) =
     Ok \<lparr>av_base_version = ''avail-light-client'', av_client_type = ''rust-client'',
         av_kademlia_mode = ''client'', av_release_version = ''1.12.2''\<rparr>"
proof -
  let ?a = "\<lparr>av_base_version = ''avail-light-client'', av_client_type = ''rust-client'',
         av_kademlia_mode = ''client'', av_release_version = ''1.12.2''\<rparr>"
  have "ic_agent_version (identify_config_of ''1.12.2'' runtime_config_default) = ?a"
    by (simp add: identify_config_of_def Let_def runtime_config_default_def is_fat_client_def
        IDENTITY_AGENT_BASE_def IDENTITY_AGENT_CLIENT_TYPE_def)
  then show ?thesis using agent_version_roundtrip [of ?a] by simp
qed



text \<open>The stores accept exactly the values up to \<open>max_kad_record_size\<close> bytes: the memory store made from a
  configuration refuses a record for its size if and only if its value is longer than that, as long as the
  limit is below the largest \<open>usize\<close>.\<close>

theorem record_size_limit:
  assumes "libp2p_config_of v cfg = Ok lp" and "max_kad_record_size cfg < 18446744073709551615"
    and "ms_config s = memory_store_config_of lp"
  shows "ms_put s r = Err ValueTooLarge \<longleftrightarrow> unat (max_kad_record_size cfg) < length (kr_value r)"
proof -
  have "kc_max_kad_record_size (lp_kademlia lp) = unat (max_kad_record_size cfg)"
    using assms(1) by (auto simp: libp2p_config_of_def kademlia_config_of_def res_simps)
  moreover have "unat (max_kad_record_size cfg) < 18446744073709551615"
    using assms(2) by (simp add: word_less_nat_alt)
  ultimately have "ms_max_value_bytes (ms_config s) = unat (max_kad_record_size cfg) + 1"
    by (simp add: assms(3) memory_store_config_of_def)
  then show ?thesis by (auto simp: ms_put_def split: option.splits)
qed

theorem record_size_limit_witness:
  "\<exists>lp. libp2p_config_of ''1.12.2'' runtime_config_default = Ok lp \<and>
     ms_put (memory_store_with_config [9] (memory_store_config_of lp))
       \<lparr>kr_key = [7], kr_value = replicate 8193 0, kr_publisher = None, kr_expires = None\<rparr> = Err ValueTooLarge"
proof -
  obtain lp where lp: "libp2p_config_of ''1.12.2'' runtime_config_default = Ok lp"
    by (simp add: libp2p_config_of_def kademlia_config_of_def non_zero_def runtime_config_default_def)
  have "max_kad_record_size runtime_config_default = 8192" by (simp add: runtime_config_default_def)
  with record_size_limit [OF lp, of "memory_store_with_config [9] (memory_store_config_of lp)"
      "\<lparr>kr_key = [7], kr_value = replicate 8193 0, kr_publisher = None, kr_expires = None\<rparr>"] lp
  show ?thesis by (simp add: memory_store_with_config_def)
qed

text \<open>A fat client announces itself as a Kademlia server, but the mode in which its Kademlia runs is the configured
  one, which is \<open>Client\<close> by default. The peers put it into their routing tables although it does not answer.\<close>

theorem fat_client_announces_server:
  assumes "libp2p_config_of v (runtime_config_default\<lparr>block_matrix_partition := Some p\<rparr>) = Ok lp"
  shows "av_kademlia_mode (ic_agent_version (lp_identify lp)) = ''server'' \<and>
    kc_kademlia_mode (lp_kademlia lp) = Client"
  using assms
  by (auto simp: libp2p_config_of_def kademlia_config_of_def identify_config_of_def is_fat_client_def
      runtime_config_default_def Let_def res_simps)

theorem fat_client_announces_server_witness:
  "\<exists>lp. libp2p_config_of ''1.12.2'' (runtime_config_default\<lparr>block_matrix_partition := Some \<lparr>part_number = 1, part_fraction = 2\<rparr>\<rparr>) = Ok lp \<and>
     kc_kademlia_mode (lp_kademlia lp) = Client"
proof -
  obtain lp where lp: "libp2p_config_of ''1.12.2''
      (runtime_config_default\<lparr>block_matrix_partition := Some \<lparr>part_number = 1, part_fraction = 2\<rparr>\<rparr>) = Ok lp"
    by (simp add: libp2p_config_of_def kademlia_config_of_def non_zero_def runtime_config_default_def)
  from fat_client_announces_server [OF this] lp show ?thesis by auto
qed

end
