(* ===== verification/Telemetry.thy ===== *)
theory Telemetry
  imports Config
begin

text \<open>
  Metrics (\<open>src/telemetry/mod.rs\<close>, \<open>src/telemetry/otlp.rs\<close>): which counters and values a client of an
  origin may send, their buffers, and the flush that aggregates them. The instruments of the
  OpenTelemetry crates are the association list \<open>om_counters\<close> from names to totals and the log
  \<open>om_gauges\<close> of observed values; a gauge may fail (\<open>gauge_fault\<close>). Indexing a missing counter is a panic.
  The iteration order of a \<open>HashMap\<close> is that of the first insertions; no claim depends on it.
\<close>

section \<open>Counters and values\<close>

datatype metric_counter =
    Starts | SessionBlocks | OutgoingConnectionErrors | IncomingConnectionErrors
  | IncomingConnections | EstablishedConnections | IncomingPutRecord | IncomingGetRecord

fun counter_name :: "metric_counter \<Rightarrow> string" where
  "counter_name Starts = ''avail.light.starts''"
| "counter_name SessionBlocks = ''avail.light.session_blocks''"
| "counter_name OutgoingConnectionErrors = ''avail.light.outgoing_connection_errors''"
| "counter_name IncomingConnectionErrors = ''avail.light.incoming_connection_errors''"
| "counter_name IncomingConnections = ''avail.light.incoming_connections''"
| "counter_name EstablishedConnections = ''avail.light.established_connections''"
| "counter_name IncomingPutRecord = ''avail.light.incoming_put_record''"
| "counter_name IncomingGetRecord = ''avail.light.incoming_get_record''"

definition counter_is_buffered :: "metric_counter \<Rightarrow> bool" where
  "counter_is_buffered c \<longleftrightarrow> c \<noteq> Starts"

fun counter_is_allowed :: "origin \<Rightarrow> metric_counter \<Rightarrow> bool" where
  "counter_is_allowed External c = (c = Starts)"
| "counter_is_allowed _ c = True"

datatype metric_value =
    BlockHeight u32 | BlockConfidence f64 | BlockConfidenceThreshold f64 | BlockProcessingDelay f64
  | DHTReplicationFactor u16 | DHTFetched f64 | DHTFetchedPercentage f64 | DHTFetchDuration f64
  | DHTPutDuration f64 | DHTPutSuccess f64 | DHTConnectedPeers nat | DHTQueryTimeout u32
  | DHTPingLatency f64 | RPCFetched f64 | RPCFetchDuration f64 | RPCCallDuration f64 | Up
  | CrawlCellsSuccessRate f64 | CrawlRowsSuccessRate f64 | CrawlBlockDelay f64

fun value_name :: "metric_value \<Rightarrow> string" where
  "value_name (BlockHeight _) = ''avail.light.block.height''"
| "value_name (BlockConfidence _) = ''avail.light.block.confidence''"
| "value_name (BlockConfidenceThreshold _) = ''avail.light.block.confidence_threshold''"
| "value_name (BlockProcessingDelay _) = ''avail.light.block.processing_delay''"
| "value_name (DHTReplicationFactor _) = ''avail.light.dht.replication_factor''"
| "value_name (DHTFetched _) = ''avail.light.dht.fetched''"
| "value_name (DHTFetchedPercentage _) = ''avail.light.dht.fetched_percentage''"
| "value_name (DHTFetchDuration _) = ''avail.light.dht.fetch_duration''"
| "value_name (DHTPutDuration _) = ''avail.light.dht.put_duration''"
| "value_name (DHTPutSuccess _) = ''avail.light.dht.put_success''"
| "value_name (DHTConnectedPeers _) = ''avail.light.dht.connected_peers''"
| "value_name (DHTQueryTimeout _) = ''avail.light.dht.query_timeout''"
| "value_name (DHTPingLatency _) = ''avail.light.dht.ping_latency''"
| "value_name (RPCFetched _) = ''avail.light.rpc.fetched''"
| "value_name (RPCFetchDuration _) = ''avail.light.rpc.fetch_duration''"
| "value_name (RPCCallDuration _) = ''avail.light.rpc.call_duration''"
| "value_name Up = ''avail.light.up''"
| "value_name (CrawlCellsSuccessRate _) = ''avail.light.crawl.cells_success_rate''"
| "value_name (CrawlRowsSuccessRate _) = ''avail.light.crawl.rows_success_rate''"
| "value_name (CrawlBlockDelay _) = ''avail.light.crawl.block_delay''"

definition value_is_allowed :: "origin \<Rightarrow> metric_value \<Rightarrow> bool" where
  "value_is_allowed org v =
     (case org of
        External \<Rightarrow>
          (case v of DHTFetchedPercentage _ \<Rightarrow> True | BlockConfidence _ \<Rightarrow> True | Up \<Rightarrow> True | _ \<Rightarrow> False)
      | _ \<Rightarrow> True)"

section \<open>Aggregation\<close>

datatype metric_record = MaxU64 string nat | AvgF64 string f64

fun record_of_value :: "metric_value \<Rightarrow> metric_record" where
  "record_of_value (BlockHeight n) = MaxU64 (value_name (BlockHeight n)) (unat n)"
| "record_of_value Up = MaxU64 (value_name Up) 1"
| "record_of_value (DHTReplicationFactor n) = AvgF64 (value_name (DHTReplicationFactor n)) (Fin (real (unat n)))"
| "record_of_value (DHTConnectedPeers n) = AvgF64 (value_name (DHTConnectedPeers n)) (Fin (real n))"
| "record_of_value (DHTQueryTimeout n) = AvgF64 (value_name (DHTQueryTimeout n)) (Fin (real (unat n)))"
| "record_of_value (BlockConfidence x) = AvgF64 (value_name (BlockConfidence x)) x"
| "record_of_value (BlockConfidenceThreshold x) = AvgF64 (value_name (BlockConfidenceThreshold x)) x"
| "record_of_value (BlockProcessingDelay x) = AvgF64 (value_name (BlockProcessingDelay x)) x"
| "record_of_value (DHTFetched x) = AvgF64 (value_name (DHTFetched x)) x"
| "record_of_value (DHTFetchedPercentage x) = AvgF64 (value_name (DHTFetchedPercentage x)) x"
| "record_of_value (DHTFetchDuration x) = AvgF64 (value_name (DHTFetchDuration x)) x"
| "record_of_value (DHTPutDuration x) = AvgF64 (value_name (DHTPutDuration x)) x"
| "record_of_value (DHTPutSuccess x) = AvgF64 (value_name (DHTPutSuccess x)) x"
| "record_of_value (DHTPingLatency x) = AvgF64 (value_name (DHTPingLatency x)) x"
| "record_of_value (RPCFetched x) = AvgF64 (value_name (RPCFetched x)) x"
| "record_of_value (RPCFetchDuration x) = AvgF64 (value_name (RPCFetchDuration x)) x"
| "record_of_value (RPCCallDuration x) = AvgF64 (value_name (RPCCallDuration x)) x"
| "record_of_value (CrawlCellsSuccessRate x) = AvgF64 (value_name (CrawlCellsSuccessRate x)) x"
| "record_of_value (CrawlRowsSuccessRate x) = AvgF64 (value_name (CrawlRowsSuccessRate x)) x"
| "record_of_value (CrawlBlockDelay x) = AvgF64 (value_name (CrawlBlockDelay x)) x"

text \<open>Sum and quotient of \<open>f64\<close> values; the divisor is a positive length.\<close>

fun f64_add :: "f64 \<Rightarrow> f64 \<Rightarrow> f64" where
  "f64_add (Fin a) (Fin b) = Fin (a + b)"
| "f64_add NaN _ = NaN"
| "f64_add _ NaN = NaN"
| "f64_add PosInf NegInf = NaN"
| "f64_add NegInf PosInf = NaN"
| "f64_add PosInf _ = PosInf"
| "f64_add _ PosInf = PosInf"
| "f64_add NegInf _ = NegInf"
| "f64_add _ NegInf = NegInf"

fun f64_div_nat :: "f64 \<Rightarrow> nat \<Rightarrow> f64" where
  "f64_div_nat (Fin a) n = Fin (a / real n)"
| "f64_div_nat x n = x"

text \<open>\<open>a as f64 / b as f64\<close> for unsigned integers.\<close>

definition f64_ratio :: "nat \<Rightarrow> nat \<Rightarrow> f64" where
  "f64_ratio a b = (if b = 0 then (if a = 0 then NaN else PosInf) else Fin (real a / real b))"

definition entry_push :: "string \<Rightarrow> 'a \<Rightarrow> (string \<times> 'a list) list \<Rightarrow> (string \<times> 'a list) list" where
  "entry_push n x m = AList.update n ((case map_of m n of None \<Rightarrow> [] | Some xs \<Rightarrow> xs) @ [x]) m"

definition flatten_counters :: "metric_counter list \<Rightarrow> (string \<times> nat) list" where
  "flatten_counters buffer =
     foldl (\<lambda>m c. AList.update (counter_name c)
                     (case map_of m (counter_name c) of None \<Rightarrow> 1 | Some k \<Rightarrow> k + 1) m) [] buffer"

definition collect_records ::
    "metric_value list \<Rightarrow> (string \<times> nat list) list \<times> (string \<times> f64 list) list" where
  "collect_records buffer =
     foldl (\<lambda>(us, fs) v. case record_of_value v of
              MaxU64 n x \<Rightarrow> (entry_push n x us, fs)
            | AvgF64 n x \<Rightarrow> (us, entry_push n x fs)) ([], []) buffer"

definition flatten_metrics :: "metric_value list \<Rightarrow> (string \<times> nat) list \<times> (string \<times> f64) list" where
  "flatten_metrics buffer =
     (case collect_records buffer of (us, fs) \<Rightarrow>
        (map (\<lambda>(n, xs). (n, foldl max 0 xs)) us,
         map (\<lambda>(n, xs). (n, f64_div_nat (foldl f64_add (Fin 0) xs) (length xs))) fs))"

section \<open>The exporter\<close>

record metric_attributes =
  ma_role :: string
  ma_peer_id :: string
  ma_origin :: origin
  ma_avail_address :: string
  ma_operating_mode :: string
  ma_partition_size :: string
  ma_network :: string

datatype gauge = GaugeU64 nat | GaugeF64 f64

record otel_metrics =
  om_attributes :: metric_attributes
  om_counters :: "(string \<times> nat) list"
  om_gauges :: "(string \<times> gauge) list"
  om_metric_buffer :: "metric_value list"
  om_counter_buffer :: "metric_counter list"

definition attribute_list :: "string \<Rightarrow> metric_attributes \<Rightarrow> (string \<times> string) list" where
  "attribute_list crate_version a =
     [(''version'', crate_version), (''role'', ma_role a), (''origin'', origin_text (ma_origin a)),
      (''peerID'', ma_peer_id a), (''avail_address'', ma_avail_address a),
      (''partition_size'', ma_partition_size a), (''operating_mode'', ma_operating_mode a),
      (''network'', ma_network a)]"

definition all_counters :: "metric_counter list" where
  "all_counters = [Starts, SessionBlocks, OutgoingConnectionErrors, IncomingConnectionErrors,
     IncomingConnections, EstablishedConnections, IncomingPutRecord, IncomingGetRecord]"

definition init_counters :: "origin \<Rightarrow> (string \<times> nat) list" where
  "init_counters org = map (\<lambda>c. (counter_name c, 0)) (filter (counter_is_allowed org) all_counters)"

definition metrics_initialize :: "metric_attributes \<Rightarrow> origin \<Rightarrow> otel_metrics" where
  "metrics_initialize attrs org =
     \<lparr>om_attributes = attrs, om_counters = init_counters org, om_gauges = [], om_metric_buffer = [],
      om_counter_buffer = []\<rparr>"

definition counter_add :: "string \<Rightarrow> nat \<Rightarrow> (otel_metrics, unit) op" where
  "counter_add n k m =
     (case map_of (om_counters m) n of
        None \<Rightarrow> (Panic ''no entry found for key'', m)
      | Some t \<Rightarrow> (Ok (), m\<lparr>om_counters := AList.update n (t + k) (om_counters m)\<rparr>))"

definition metrics_count :: "metric_counter \<Rightarrow> (otel_metrics, unit) op" where
  "metrics_count c m =
     (if \<not> counter_is_allowed (ma_origin (om_attributes m)) c then (Ok (), m)
      else if \<not> counter_is_buffered c then counter_add (counter_name c) 1 m
      else (Ok (), m\<lparr>om_counter_buffer := om_counter_buffer m @ [c]\<rparr>))"

definition metrics_record :: "metric_value \<Rightarrow> (otel_metrics, unit) op" where
  "metrics_record v m =
     (if \<not> value_is_allowed (ma_origin (om_attributes m)) v then (Ok (), m)
      else (Ok (), m\<lparr>om_metric_buffer := om_metric_buffer m @ [v]\<rparr>))"

definition gauge_record ::
    "(string \<Rightarrow> report option) \<Rightarrow> string \<Rightarrow> gauge \<Rightarrow> (otel_metrics, unit) op" where
  "gauge_record gauge_fault n g m =
     (case gauge_fault n of
        Some e \<Rightarrow> (Err e, m)
      | None \<Rightarrow> (Ok (), m\<lparr>om_gauges := om_gauges m @ [(n, g)]\<rparr>))"

fun op_for_each :: "('a \<Rightarrow> ('s, unit) op) \<Rightarrow> 'a list \<Rightarrow> ('s, unit) op" where
  "op_for_each f [] = op_return ()"
| "op_for_each f (x # xs) = op_bind (f x) (\<lambda>_. op_for_each f xs)"

definition metrics_flush :: "(string \<Rightarrow> report option) \<Rightarrow> (otel_metrics, unit) op" where
  "metrics_flush gauge_fault m =
     (let counters = flatten_counters (om_counter_buffer m);
          (us, fs) = flatten_metrics (om_metric_buffer m);
          m1 = m\<lparr>om_counter_buffer := [], om_metric_buffer := []\<rparr>
      in op_bind (op_for_each (\<lambda>(n, k). counter_add n k) counters) (\<lambda>_.
         op_bind (op_for_each (\<lambda>(n, x). gauge_record gauge_fault n (GaugeU64 x)) us) (\<lambda>_.
           op_for_each (\<lambda>(n, x). gauge_record gauge_fault n (GaugeF64 x)) fs)) m1)"

section \<open>Sequences of calls\<close>

datatype metrics_call = CountCall metric_counter | RecordCall metric_value | FlushCall

fun run_metrics_call :: "(string \<Rightarrow> report option) \<Rightarrow> metrics_call \<Rightarrow> (otel_metrics, unit) op" where
  "run_metrics_call gauge_fault (CountCall c) = metrics_count c"
| "run_metrics_call gauge_fault (RecordCall v) = metrics_record v"
| "run_metrics_call gauge_fault FlushCall = metrics_flush gauge_fault"

text \<open>A sequence of calls; the callers ignore an error of a flush, and a panic ends the sequence.\<close>

fun metrics_run :: "(string \<Rightarrow> report option) \<Rightarrow> metrics_call list \<Rightarrow> otel_metrics \<Rightarrow> otel_metrics option" where
  "metrics_run gauge_fault [] m = Some m"
| "metrics_run gauge_fault (c # cs) m =
     (case run_metrics_call gauge_fault c m of
        (Panic _, _) \<Rightarrow> None
      | (_, m') \<Rightarrow> metrics_run gauge_fault cs m')"

definition counter_total :: "otel_metrics \<Rightarrow> metric_counter \<Rightarrow> nat" where
  "counter_total m c = (case map_of (om_counters m) (counter_name c) of None \<Rightarrow> 0 | Some t \<Rightarrow> t)"

text \<open>Counted so far: exported, or in the buffer.\<close>

definition counted :: "otel_metrics \<Rightarrow> metric_counter \<Rightarrow> nat" where
  "counted m c = counter_total m c + length (filter (\<lambda>d. d = c) (om_counter_buffer m))"

definition metrics_inv :: "origin \<Rightarrow> otel_metrics \<Rightarrow> bool" where
  "metrics_inv org m \<longleftrightarrow> ma_origin (om_attributes m) = org \<and>
     dom (map_of (om_counters m)) = counter_name ` {c. counter_is_allowed org c} \<and>
     (\<forall>c \<in> set (om_counter_buffer m). counter_is_allowed org c)"

definition sample_attributes :: "origin \<Rightarrow> metric_attributes" where
  "sample_attributes org = \<lparr>ma_role = ''lightnode'', ma_peer_id = ''p'', ma_origin = org, ma_avail_address = ''a'',
     ma_operating_mode = ''client'', ma_partition_size = ''n/a'', ma_network = ''DEV''\<rparr>"

section \<open>Lemmas\<close>

lemma counter_name_inj [simp]: "counter_name c = counter_name d \<longleftrightarrow> c = d"
  by (cases c; cases d) simp_all

lemma flatten_counters_map_of:
  "map_of (flatten_counters b) n =
     (let k = length (filter (\<lambda>c. counter_name c = n) b) in if k = 0 then None else Some k)"
proof (induction b rule: rev_induct)
  case Nil
  show ?case by (simp add: flatten_counters_def)
next
  case (snoc c b)
  then show ?case
    by (auto simp: flatten_counters_def Let_def update_conv' split: if_splits)
qed

lemma distinct_flatten_counters: "distinct (map fst (flatten_counters b))"
proof (induction b rule: rev_induct)
  case (snoc c b)
  then show ?case by (simp add: flatten_counters_def distinct_update)
qed (simp add: flatten_counters_def)

lemma counter_adds:
  assumes "distinct (map fst kvs)" and "fst ` set kvs \<subseteq> dom (map_of (om_counters m))"
  shows "\<exists>cs. op_for_each (\<lambda>(n, k). counter_add n k) kvs m = (Ok (), m\<lparr>om_counters := cs\<rparr>) \<and>
    (\<forall>n. map_of cs n = map_option (\<lambda>t. t + (case map_of kvs n of None \<Rightarrow> 0 | Some k \<Rightarrow> k)) (map_of (om_counters m) n))"
  using assms
proof (induction kvs arbitrary: m)
  case Nil
  show ?case
    by (rule exI [of _ "om_counters m"]) (simp add: op_return_def option.map_id0 option.map_ident)
next
  case (Cons kv kvs)
  obtain n k where kv: "kv = (n, k)" by (cases kv)
  with Cons.prems(2) obtain t where t: "map_of (om_counters m) n = Some t" by auto
  let ?m = "m\<lparr>om_counters := AList.update n (t + k) (om_counters m)\<rparr>"
  have "fst ` set kvs \<subseteq> dom (map_of (om_counters ?m))"
    using Cons.prems(2) by (auto simp: update_conv')
  with Cons.IH [of ?m] Cons.prems(1) obtain cs where
    cs: "op_for_each (\<lambda>(n, k). counter_add n k) kvs ?m = (Ok (), ?m\<lparr>om_counters := cs\<rparr>)"
      "\<And>x. map_of cs x = map_option (\<lambda>t. t + (case map_of kvs x of None \<Rightarrow> 0 | Some k \<Rightarrow> k)) (map_of (om_counters ?m) x)"
    by auto
  have "n \<notin> fst ` set kvs" using Cons.prems(1) kv by auto
  then have "map_of kvs n = None" by (simp add: map_of_eq_None_iff)
  with cs(2) t kv have "\<forall>x. map_of cs x = map_option (\<lambda>t. t + (case map_of (kv # kvs) x of None \<Rightarrow> 0 | Some k \<Rightarrow> k))
      (map_of (om_counters m) x)"
    by (auto simp: update_conv')
  moreover have "op_for_each (\<lambda>(n, k). counter_add n k) (kv # kvs) m = (Ok (), m\<lparr>om_counters := cs\<rparr>)"
    using cs(1) t by (simp add: kv op_bind_def counter_add_def)
  ultimately show ?case by blast
qed

lemma gauge_records:
  "\<exists>r gs. op_for_each (\<lambda>(n, x). gauge_record gauge_fault n (f x)) xs m = (r, m\<lparr>om_gauges := gs\<rparr>) \<and> (\<forall>p. r \<noteq> Panic p)"
proof (induction xs arbitrary: m)
  case Nil
  show ?case by (rule exI [of _ "Ok ()"], rule exI [of _ "om_gauges m"]) (simp add: op_return_def)
next
  case (Cons x xs)
  obtain n y where x: "x = (n, y)" by (cases x)
  show ?case
  proof (cases "gauge_fault n")
    case None
    with Cons.IH [of "m\<lparr>om_gauges := om_gauges m @ [(n, f y)]\<rparr>"] show ?thesis
      by (auto simp: x op_bind_def gauge_record_def)
  next
    case (Some e)
    then show ?thesis
      by (intro exI [of _ "Err e"] exI [of _ "om_gauges m"]) (simp add: x op_bind_def gauge_record_def)
  qed
qed

lemma metrics_flush_effect:
  assumes "metrics_inv org m"
  obtains r m' where "metrics_flush gauge_fault m = (r, m')" "\<And>p. r \<noteq> Panic p"
    "metrics_inv org m'" "counted m' = counted m" "om_counter_buffer m' = []"
proof -
  let ?kvs = "flatten_counters (om_counter_buffer m)"
  obtain us fs where mf: "flatten_metrics (om_metric_buffer m) = (us, fs)" by fastforce
  let ?m1 = "m\<lparr>om_counter_buffer := [], om_metric_buffer := []\<rparr>"
  have "fst ` set ?kvs = dom (map_of ?kvs)" by (simp add: dom_map_of_conv_image_fst)
  also have "\<dots> \<subseteq> dom (map_of (om_counters ?m1))"
    using assms by (auto simp: flatten_counters_map_of Let_def metrics_inv_def split: if_splits)
      (metis (mono_tags, lifting) filter_empty_conv image_eqI mem_Collect_eq)
  finally obtain cs where cs: "op_for_each (\<lambda>(n, k). counter_add n k) ?kvs ?m1 = (Ok (), ?m1\<lparr>om_counters := cs\<rparr>)"
    "\<And>n. map_of cs n = map_option (\<lambda>t. t + (case map_of ?kvs n of None \<Rightarrow> 0 | Some k \<Rightarrow> k)) (map_of (om_counters m) n)"
    using counter_adds [OF distinct_flatten_counters, of "om_counter_buffer m" ?m1] by auto
  let ?m2 = "?m1\<lparr>om_counters := cs\<rparr>"
  obtain r2 g2 where g2: "op_for_each (\<lambda>(n, x). gauge_record gauge_fault n (GaugeU64 x)) us ?m2 = (r2, ?m2\<lparr>om_gauges := g2\<rparr>)"
    "\<And>p. r2 \<noteq> Panic p" using gauge_records by blast
  obtain r3 g3 where g3: "op_for_each (\<lambda>(n, x). gauge_record gauge_fault n (GaugeF64 x)) fs (?m2\<lparr>om_gauges := g2\<rparr>) =
      (r3, ?m2\<lparr>om_gauges := g2, om_gauges := g3\<rparr>)" "\<And>p. r3 \<noteq> Panic p" using gauge_records by blast
  obtain r g where res: "metrics_flush gauge_fault m = (r, ?m2\<lparr>om_gauges := g\<rparr>)" "\<And>p. r \<noteq> Panic p"
    using cs(1) g2 g3 mf by (cases r2) (auto simp: metrics_flush_def Let_def op_bind_def)
  have inv: "metrics_inv org (?m2\<lparr>om_gauges := g\<rparr>)"
    using assms cs(2) by (auto simp: metrics_inv_def dom_def)
  have "counted (?m2\<lparr>om_gauges := g\<rparr>) c = counted m c" for c
  proof (cases "map_of (om_counters m) (counter_name c)")
    case (Some t)
    then show ?thesis by (simp add: counted_def counter_total_def cs(2) flatten_counters_map_of Let_def)
  next
    case None
    then have "counter_name c \<notin> dom (map_of (om_counters m))" by (simp add: domIff)
    then have "\<not> counter_is_allowed org c" using assms unfolding metrics_inv_def by blast
    then have "filter (\<lambda>d. d = c) (om_counter_buffer m) = []"
      using assms by (auto simp: metrics_inv_def filter_empty_conv)
    with None show ?thesis by (simp add: counted_def counter_total_def cs(2))
  qed
  then show thesis using that [OF res(1) res(2) inv] by (simp add: fun_eq_iff)
qed

section \<open>Properties\<close>

lemma metrics_inv_initialize:
  assumes "ma_origin attrs = org"
  shows "metrics_inv org (metrics_initialize attrs org)"
proof -
  have "map_of (init_counters org) n = (if n \<in> counter_name ` {c. counter_is_allowed org c} then Some 0 else None)" for n
  proof -
    have "c \<in> set all_counters" for c by (cases c) (simp_all add: all_counters_def)
    then have "fst ` set (init_counters org) = counter_name ` {c. counter_is_allowed org c}"
      by (force simp: init_counters_def)
    moreover have "map_of (init_counters org) n = Some v \<Longrightarrow> v = 0" for v
      by (auto simp: init_counters_def dest: map_of_SomeD)
    ultimately show ?thesis
      by (metis (no_types, lifting) map_of_eq_None_iff option.exhaust)
  qed
  then show ?thesis using assms by (auto simp: metrics_inv_def metrics_initialize_def dom_def)
qed

lemma metrics_call_effect:
  assumes "metrics_inv org m"
  obtains r m' where "run_metrics_call gauge_fault call m = (r, m')" "\<And>p. r \<noteq> Panic p" "metrics_inv org m'"
    "\<And>c. counted m' c = counted m c + (if call = CountCall c \<and> counter_is_allowed org c then 1 else 0)"
proof (cases call)
  case (CountCall d)
  show thesis
  proof (cases "counter_is_allowed org d \<and> d = Starts")
    case True
    then have "counter_name d \<in> dom (map_of (om_counters m))" using assms unfolding metrics_inv_def by blast
    then obtain t where t: "map_of (om_counters m) (counter_name d) = Some t" by auto
    let ?m = "m\<lparr>om_counters := AList.update (counter_name d) (t + 1) (om_counters m)\<rparr>"
    have "run_metrics_call gauge_fault call m = (Ok (), ?m)"
      using True t assms by (auto simp: CountCall metrics_count_def counter_is_buffered_def counter_add_def metrics_inv_def)
    moreover have "metrics_inv org ?m" using assms t by (auto simp: metrics_inv_def update_conv')
    moreover have "counted ?m c = counted m c + (if call = CountCall c \<and> counter_is_allowed org c then 1 else 0)" for c
      using True t by (cases c) (auto simp: CountCall counted_def counter_total_def update_conv')
    ultimately show thesis by (intro that) auto
  next
    case False
    let ?m = "if counter_is_allowed org d then m\<lparr>om_counter_buffer := om_counter_buffer m @ [d]\<rparr> else m"
    have "run_metrics_call gauge_fault call m = (Ok (), ?m)"
      using False assms by (auto simp: CountCall metrics_count_def counter_is_buffered_def metrics_inv_def)
    moreover have "metrics_inv org ?m" using assms by (auto simp: metrics_inv_def)
    moreover have "counted ?m c = counted m c + (if call = CountCall c \<and> counter_is_allowed org c then 1 else 0)" for c
      by (auto simp: CountCall counted_def counter_total_def)
    ultimately show thesis by (intro that) auto
  qed
next
  case (RecordCall v)
  let ?m = "if value_is_allowed org v then m\<lparr>om_metric_buffer := om_metric_buffer m @ [v]\<rparr> else m"
  have "run_metrics_call gauge_fault call m = (Ok (), ?m)"
    using assms by (auto simp: RecordCall metrics_record_def metrics_inv_def)
  moreover have "metrics_inv org ?m" using assms by (auto simp: metrics_inv_def)
  moreover have "counted ?m = counted m" by (simp add: counted_def counter_total_def fun_eq_iff)
  ultimately show thesis using that [of "Ok ()" ?m] by (simp add: RecordCall)
next
  case FlushCall
  obtain r m' where f: "metrics_flush gauge_fault m = (r, m')" "\<And>p. r \<noteq> Panic p" "metrics_inv org m'"
      "counted m' = counted m" using metrics_flush_effect [OF assms, of gauge_fault] by metis
  then show thesis using that [of r m'] by (simp add: FlushCall)
qed

lemma metrics_run_counts:
  "metrics_inv org m \<Longrightarrow> \<exists>m'. metrics_run gauge_fault calls m = Some m' \<and> metrics_inv org m' \<and>
     (\<forall>c. counted m' c = counted m c +
        (if counter_is_allowed org c then length (filter (\<lambda>x. x = CountCall c) calls) else 0))"
proof (induction calls arbitrary: m)
  case Nil
  then show ?case by simp
next
  case (Cons call calls)
  obtain r m1 where m1: "run_metrics_call gauge_fault call m = (r, m1)" "\<And>p. r \<noteq> Panic p" "metrics_inv org m1"
    "\<And>c. counted m1 c = counted m c + (if call = CountCall c \<and> counter_is_allowed org c then 1 else 0)"
    using metrics_call_effect [OF Cons.prems, of gauge_fault call] by metis
  from Cons.IH [OF m1(3)] obtain m' where m': "metrics_run gauge_fault calls m1 = Some m'" "metrics_inv org m'"
    "\<And>c. counted m' c = counted m1 c +
        (if counter_is_allowed org c then length (filter (\<lambda>x. x = CountCall c) calls) else 0)" by blast
  have "metrics_run gauge_fault (call # calls) m = Some m'"
    using m1(1,2) m'(1) by (cases r) auto
  with m'(2,3) m1(4) show ?case by (intro exI [of _ m']) auto
qed



end
