(* ===== verification/P2p_Client.thy ===== *)
theory P2p_Client
  imports Telemetry
begin

text \<open>
  The client side of the peer-to-peer network (\<open>src/network/p2p/client.rs\<close>): the commands it sends to
  the event loop, fetching cells and rows from the DHT, and inserting them. \<open>dht\<close> is what \<open>get_kad_record\<close>
  returns for a key: the value of the record, or an error. The command channel is the list of the commands that
  were sent; a send fails when the event loop is gone.

  The lemmas show that fetching in chunks is fetching one by one, and that the fetched cells and the
  unfetched positions together are the requested positions.
\<close>

section \<open>Commands\<close>

type_synonym channel = nat

datatype command =
    PruneExpiredRecords nat channel
  | StartListening multiaddr channel
  | AddAddress peer_id multiaddr
  | Bootstrap channel
  | GetKadRecord record_key channel
  | PutKadRecord "kad_record list" u32
  | CountConnectedPeers channel
  | GetLocalInfo channel
  | ListConnectedPeers channel
  | ReduceKademliaMapSize channel
  | GetKademliaMapSize channel
  | DialPeer peer_id "multiaddr list" channel
  | AddAutonatServer peer_id multiaddr channel

type_synonym command_queue = "command list"

definition send_command :: "bool \<Rightarrow> string \<Rightarrow> command \<Rightarrow> (command_queue, unit) op" where
  "send_command receiver_alive msg c q =
     (if receiver_alive then (Ok (), q @ [c]) else (Err [msg, ''channel closed''], q))"

section \<open>Records\<close>

text \<open>\<open>DHTCell::dht_record\<close> and \<open>DHTRow::dht_record\<close> at an instant, with a time to live in seconds.\<close>

definition cell_dht_record ::
    "('dim, 'lk) kate \<Rightarrow> nat \<Rightarrow> u64 \<Rightarrow> u32 \<Rightarrow> cell \<Rightarrow> kad_record" where
  "cell_dht_record K now ttl_secs block c =
     \<lparr>kr_key = as_bytes (cell_reference K (cell_position c) block), kr_value = cell_content c,
      kr_publisher = None, kr_expires = Some (now + unat ttl_secs * nanos_per_sec)\<rparr>"

definition row_dht_record ::
    "('dim, 'lk) kate \<Rightarrow> nat \<Rightarrow> u64 \<Rightarrow> u32 \<Rightarrow> u32 \<times> bytes \<Rightarrow> kad_record" where
  "row_dht_record K now ttl_secs block r =
     \<lparr>kr_key = as_bytes (row_reference K (fst r) block), kr_value = snd r,
      kr_publisher = None, kr_expires = Some (now + unat ttl_secs * nanos_per_sec)\<rparr>"

section \<open>Fetching\<close>

type_synonym dht = "record_key \<Rightarrow> bytes result"

text \<open>The content of a cell is a commitment of 48 and a chunk of 32 bytes.\<close>

definition fetch_cell_from_dht :: "('dim, 'lk) kate \<Rightarrow> dht \<Rightarrow> u32 \<Rightarrow> position \<Rightarrow> cell option" where
  "fetch_cell_from_dht K dht block_number position =
     (case dht (as_bytes (cell_reference K position block_number)) of
        Ok v \<Rightarrow> if length v = 80 then Some \<lparr>cell_position = position, cell_content = v\<rparr> else None
      | _ \<Rightarrow> None)"

definition fetch_row_from_dht :: "('dim, 'lk) kate \<Rightarrow> dht \<Rightarrow> u32 \<Rightarrow> u32 \<Rightarrow> (u32 \<times> bytes) option" where
  "fetch_row_from_dht K dht block_number row_index =
     (case dht (as_bytes (row_reference K row_index block_number)) of
        Ok v \<Rightarrow> Some (row_index, v)
      | _ \<Rightarrow> None)"

definition fetch_cells_from_dht ::
    "('dim, 'lk) kate \<Rightarrow> nat \<Rightarrow> dht \<Rightarrow> u32 \<Rightarrow> position list \<Rightarrow> (cell list \<times> position list) result" where
  "fetch_cells_from_dht K parallelization_limit dht block_number positions =
     (if parallelization_limit = 0 then Panic ''chunk size must be non-zero''
      else
        (let cells = concat (map (map (fetch_cell_from_dht K dht block_number)) (chunks parallelization_limit positions));
             unfetched = map snd (filter (\<lambda>(c, _). c = None) (zip cells positions));
             fetched = flatten_options cells
         in Ok (fetched, unfetched)))"

fun store_rows :: "(u32 \<times> bytes) list \<Rightarrow> bytes option list \<Rightarrow> bytes option list result" where
  "store_rows [] rows = Ok rows"
| "store_rows ((row_index, row) # frs) rows =
     and_then (set_index_res rows (unat row_index) (Some row)) (store_rows frs)"

definition fetch_rows_from_dht ::
    "('dim, 'lk) kate \<Rightarrow> nat \<Rightarrow> dht \<Rightarrow> u32 \<Rightarrow> 'dim \<Rightarrow> u32 list \<Rightarrow> bytes option list result" where
  "fetch_rows_from_dht K parallelization_limit dht block_number dims row_indexes =
     (if parallelization_limit = 0 then Panic ''chunk size must be non-zero''
      else
        foldl (\<lambda>rows idxs. and_then rows
                 (store_rows (flatten_options (map (fetch_row_from_dht K dht block_number) idxs))))
          (Ok (replicate (unat (extended_rows K dims)) None))
          (chunks parallelization_limit row_indexes))"

section \<open>Inserting\<close>

definition insert_into_dht :: "bool \<Rightarrow> (string \<times> kad_record) list \<Rightarrow> u32 \<Rightarrow> (command_queue, unit) op" where
  "insert_into_dht alive records block_num =
     (if records = [] then op_lift (Err [''Cant send empty record list.''])
      else send_command alive ''receiver should not be dropped'' (PutKadRecord (map snd records) block_num))"

definition insert_cells_into_dht ::
    "('dim, 'lk) kate \<Rightarrow> bool \<Rightarrow> nat \<Rightarrow> u64 \<Rightarrow> u32 \<Rightarrow> cell list \<Rightarrow> (command_queue, unit) op" where
  "insert_cells_into_dht K alive now ttl_secs block cells =
     insert_into_dht alive
       (map (\<lambda>c. (cell_reference K (cell_position c) block, cell_dht_record K now ttl_secs block c)) cells) block"

definition insert_rows_into_dht ::
    "('dim, 'lk) kate \<Rightarrow> bool \<Rightarrow> nat \<Rightarrow> u64 \<Rightarrow> u32 \<Rightarrow> (u32 \<times> bytes) list \<Rightarrow> (command_queue, unit) op" where
  "insert_rows_into_dht K alive now ttl_secs block rows =
     insert_into_dht alive
       (map (\<lambda>r. (row_reference K (fst r) block, row_dht_record K now ttl_secs block r)) rows) block"

section \<open>Calls that wait for a reply\<close>

text \<open>\<open>execute_sync\<close>: the command is sent, then the reply of the event loop is awaited; \<open>None\<close> when the sender was
  dropped without a reply.\<close>

definition execute_sync ::
    "bool \<Rightarrow> (channel \<Rightarrow> command) \<Rightarrow> channel \<Rightarrow> (channel \<Rightarrow> 'a result option) \<Rightarrow> (command_queue, 'a) op" where
  "execute_sync alive mk ch reply =
     op_bind (send_command alive ''receiver should not be dropped'' (mk ch)) (\<lambda>_.
       op_lift (case reply ch of Some r \<Rightarrow> r | None \<Rightarrow> Err [''sender should not be dropped'', ''channel closed'']))"

definition dial_peer ::
    "bool \<Rightarrow> peer_id \<Rightarrow> multiaddr list \<Rightarrow> channel \<Rightarrow> (channel \<Rightarrow> 'a result option) \<Rightarrow> (command_queue, 'a) op" where
  "dial_peer alive p addrs ch reply = execute_sync alive (DialPeer p addrs) ch reply"

definition add_address :: "bool \<Rightarrow> peer_id \<Rightarrow> multiaddr \<Rightarrow> (command_queue, unit) op" where
  "add_address alive p a = send_command alive ''failed to add address to the routing table'' (AddAddress p a)"

definition start_listening :: "bool \<Rightarrow> multiaddr \<Rightarrow> channel \<Rightarrow> (channel \<Rightarrow> unit result option) \<Rightarrow> (command_queue, unit) op" where
  "start_listening alive a ch reply = execute_sync alive (StartListening a) ch reply"

definition bootstrap :: "bool \<Rightarrow> channel \<Rightarrow> (channel \<Rightarrow> unit result option) \<Rightarrow> (command_queue, unit) op" where
  "bootstrap alive ch reply = execute_sync alive Bootstrap ch reply"

definition get_kad_record ::
    "bool \<Rightarrow> record_key \<Rightarrow> channel \<Rightarrow> (channel \<Rightarrow> 'a result option) \<Rightarrow> (command_queue, 'a) op" where
  "get_kad_record alive k ch reply = execute_sync alive (GetKadRecord k) ch reply"

definition count_dht_entries :: "bool \<Rightarrow> channel \<Rightarrow> (channel \<Rightarrow> nat result option) \<Rightarrow> (command_queue, nat) op" where
  "count_dht_entries alive ch reply = execute_sync alive CountConnectedPeers ch reply"

definition list_connected_peers :: "bool \<Rightarrow> channel \<Rightarrow> (channel \<Rightarrow> string list result option) \<Rightarrow> (command_queue, string list) op" where
  "list_connected_peers alive ch reply = execute_sync alive ListConnectedPeers ch reply"

definition get_local_info :: "bool \<Rightarrow> channel \<Rightarrow> (channel \<Rightarrow> 'a result option) \<Rightarrow> (command_queue, 'a) op" where
  "get_local_info alive ch reply = execute_sync alive GetLocalInfo ch reply"

definition shrink_kademlia_map :: "bool \<Rightarrow> channel \<Rightarrow> (channel \<Rightarrow> unit result option) \<Rightarrow> (command_queue, unit) op" where
  "shrink_kademlia_map alive ch reply = execute_sync alive ReduceKademliaMapSize ch reply"

definition get_kademlia_map_size :: "bool \<Rightarrow> channel \<Rightarrow> (channel \<Rightarrow> nat result option) \<Rightarrow> (command_queue, nat) op" where
  "get_kademlia_map_size alive ch reply = execute_sync alive GetKademliaMapSize ch reply"

definition prune_expired_records ::
    "bool \<Rightarrow> nat \<Rightarrow> channel \<Rightarrow> (channel \<Rightarrow> nat result option) \<Rightarrow> (command_queue, nat) op" where
  "prune_expired_records alive now ch reply = execute_sync alive (PruneExpiredRecords now) ch reply"

definition add_autonat_server ::
    "bool \<Rightarrow> peer_id \<Rightarrow> multiaddr \<Rightarrow> channel \<Rightarrow> (channel \<Rightarrow> unit result option) \<Rightarrow> (command_queue, unit) op" where
  "add_autonat_server alive p a ch reply = execute_sync alive (AddAutonatServer p a) ch reply"

text \<open>The channels of the calls are the numbers from \<open>ch\<close> on.\<close>

fun bootstrap_on_startup ::
    "bool \<Rightarrow> channel \<Rightarrow> (channel \<Rightarrow> unit result option) \<Rightarrow> (peer_id \<times> multiaddr) list \<Rightarrow> (command_queue, unit) op" where
  "bootstrap_on_startup alive ch reply [] = bootstrap alive ch reply"
| "bootstrap_on_startup alive ch reply ((p, a) # nodes) =
     op_bind (op_wrap_err ''Dialing Bootstrap peer failed.'' (dial_peer alive p [a] ch reply)) (\<lambda>_.
     op_bind (add_address alive p a) (\<lambda>_.
     op_bind (add_autonat_server alive p a (ch + 1) reply) (\<lambda>_.
       bootstrap_on_startup alive (ch + 2) reply nodes)))"

section \<open>Lemmas\<close>

lemma concat_map_chunks: "0 < n \<Longrightarrow> concat (map (map f) (chunks n xs)) = map f xs"
  by (metis concat_chunks map_concat)

lemma fetch_cell_Some:
  "fetch_cell_from_dht K dht b p = Some c \<Longrightarrow> cell_position c = p \<and> length (cell_content c) = 80 \<and>
     dht (as_bytes (cell_reference K p b)) = Ok (cell_content c)"
  by (auto simp: fetch_cell_from_dht_def split: res.splits if_splits)

lemma fetch_cells_eq:
  "fetch_cells_from_dht K n dht b ps = Ok (fetched, unfetched) \<longleftrightarrow>
     0 < n \<and> fetched = flatten_options (map (fetch_cell_from_dht K dht b) ps) \<and>
     unfetched = filter (\<lambda>p. fetch_cell_from_dht K dht b p = None) ps"
proof -
  have "map snd (filter (\<lambda>(c, _). c = None) (zip (map f ps) ps)) = filter (\<lambda>p. f p = None) ps"
    for f :: "position \<Rightarrow> cell option"
    by (induction ps) auto
  then show ?thesis by (auto simp: fetch_cells_from_dht_def concat_map_chunks Let_def)
qed

lemma fetched_positions:
  "map cell_position (flatten_options (map (fetch_cell_from_dht K dht b) ps)) =
     filter (\<lambda>p. fetch_cell_from_dht K dht b p \<noteq> None) ps"
  by (induction ps) (auto simp: fetch_cell_Some split: option.splits)

end
