(* ===== verification/Shutdown.thy ===== *)
theory Shutdown
  imports Prelude
begin

text \<open>
  The shutdown controller (\<open>src/shutdown.rs\<close>) and its futures (\<open>src/shutdown/*.rs\<close>).

  Every operation of the sources locks the mutex of \<open>ControllerInner\<close> for its whole body, so it is
  one atomic function on the record \<open>controller\<close>. A waker is the number of its task; the
  field \<open>c_woken\<close> records the calls of \<open>Waker::wake\<close>, oldest first. A wrapped future is a function
  that is polled on the controller and returns its next state. The step relation \<open>sd_step\<close>
  interleaves the operations of all tasks; its field \<open>live_delay_tokens\<close> is the number of
  \<open>DelayToken\<close> values that exist.
\<close>

section \<open>ControllerInner\<close>

type_synonym waker = nat

record 'r controller =
  c_reason :: "'r option"
  c_delay_tokens :: nat
  c_on_shutdown_trigger :: "waker list"
  c_on_shutdown_complete :: "waker list"
  c_woken :: "waker list"

datatype 'r shutdown_has_started = ShutdownHasStarted (started_reason: 'r) (ignored_reason: 'r)
datatype 'r shutdown_has_completed = ShutdownHasCompleted (completed_reason: 'r)

definition controller_new :: "'r controller" where
  "controller_new = \<lparr>c_reason = None, c_delay_tokens = 0, c_on_shutdown_trigger = [],
     c_on_shutdown_complete = [], c_woken = []\<rparr>"

definition increment_delay_tokens :: "'r controller \<Rightarrow> 'r controller" where
  "increment_delay_tokens c = c\<lparr>c_delay_tokens := c_delay_tokens c + 1\<rparr>"

definition notify_shutdown_complete :: "'r controller \<Rightarrow> 'r controller" where
  "notify_shutdown_complete c =
     c\<lparr>c_on_shutdown_complete := [], c_woken := c_woken c @ c_on_shutdown_complete c\<rparr>"

definition decrement_delay_tokens :: "'r controller \<Rightarrow> 'r controller" where
  "decrement_delay_tokens c =
     (let c1 = c\<lparr>c_delay_tokens := c_delay_tokens c - 1\<rparr>
      in if c_delay_tokens c1 = 0 then notify_shutdown_complete c1 else c1)"

definition shutdown_inner ::
    "'r controller \<Rightarrow> 'r \<Rightarrow> ('r shutdown_has_started, unit) res \<times> 'r controller" where
  "shutdown_inner c r =
     (case c_reason c of
        Some original \<Rightarrow> (Err (ShutdownHasStarted original r), c)
      | None \<Rightarrow>
          (let c1 = c\<lparr>c_reason := Some r, c_on_shutdown_trigger := [],
                      c_woken := c_woken c @ c_on_shutdown_trigger c\<rparr>
           in (Ok (), if c_delay_tokens c1 = 0 then notify_shutdown_complete c1 else c1)))"

section \<open>Controller\<close>

definition is_shutdown_triggered :: "'r controller \<Rightarrow> bool" where
  "is_shutdown_triggered c \<longleftrightarrow> c_reason c \<noteq> None"

definition is_shutdown_completed :: "'r controller \<Rightarrow> bool" where
  "is_shutdown_completed c \<longleftrightarrow> c_reason c \<noteq> None \<and> c_delay_tokens c = 0"

definition shutdown_reason :: "'r controller \<Rightarrow> 'r option" where
  "shutdown_reason c = c_reason c"

definition trigger_shutdown ::
    "'r controller \<Rightarrow> 'r \<Rightarrow> ('r shutdown_has_started, unit) res \<times> 'r controller" where
  "trigger_shutdown c r = shutdown_inner c r"

definition delay_token :: "'r controller \<Rightarrow> ('r shutdown_has_completed, 'r controller) res" where
  "delay_token c =
     (if c_delay_tokens c = 0 then
        (case c_reason c of
           Some r \<Rightarrow> Err (ShutdownHasCompleted r)
         | None \<Rightarrow> Ok (increment_delay_tokens c))
      else Ok (increment_delay_tokens c))"

definition delay_token_clone :: "'r controller \<Rightarrow> 'r controller" where
  "delay_token_clone c = increment_delay_tokens c"

definition delay_token_drop :: "'r controller \<Rightarrow> 'r controller" where
  "delay_token_drop c = decrement_delay_tokens c"

text \<open>The clones of a trigger token share the cell with the reason. Dropping one of them takes the
  reason out of the cell.\<close>

definition trigger_token_drop :: "'r option \<Rightarrow> 'r controller \<Rightarrow> 'r option \<times> 'r controller" where
  "trigger_token_drop cell c =
     (case cell of Some r \<Rightarrow> (None, snd (shutdown_inner c r)) | None \<Rightarrow> (None, c))"

section \<open>The futures\<close>

datatype 'v poll = Ready 'v | Pending

definition poll_completed :: "waker \<Rightarrow> 'r controller \<Rightarrow> 'r poll \<times> 'r controller" where
  "poll_completed w c =
     (case (c_delay_tokens c, c_reason c) of
        (0, Some r) \<Rightarrow> (Ready r, c)
      | _ \<Rightarrow> (Pending, c\<lparr>c_on_shutdown_complete := c_on_shutdown_complete c @ [w]\<rparr>))"

definition poll_signal :: "waker \<Rightarrow> 'r controller \<Rightarrow> 'r poll \<times> 'r controller" where
  "poll_signal w c =
     (case c_reason c of
        Some r \<Rightarrow> (Ready r, c)
      | None \<Rightarrow>
          (Pending, c\<lparr>c_on_shutdown_trigger :=
                       filter (\<lambda>v. v \<noteq> w) (c_on_shutdown_trigger c) @ [w]\<rparr>))"

type_synonym ('r, 'f, 'v) wrapped = "'f \<Rightarrow> 'r controller \<Rightarrow> 'v poll \<times> 'f \<times> 'r controller"

text \<open>\<open>WithCancel\<close> keeps the wrapped future (\<open>Inl\<close>), or the reason after a cancellation (\<open>Inr\<close>).
  \<open>WithDelay\<close> and \<open>WithTrigger\<close> keep their token until the wrapped future is done.\<close>

definition poll_with_cancel ::
    "('r, 'f, 'v) wrapped \<Rightarrow> waker \<Rightarrow> 'f + 'r \<Rightarrow> 'r controller \<Rightarrow>
     ('r, 'v) res poll \<times> ('f + 'r) \<times> 'r controller" where
  "poll_with_cancel F w fut c =
     (case fut of
        Inr r \<Rightarrow> (Ready (Err r), Inr r, c)
      | Inl f \<Rightarrow>
          (case F f c of
             (Ready v, f', c') \<Rightarrow> (Ready (Ok v), Inl f', c')
           | (Pending, f', c') \<Rightarrow>
               (case poll_signal w c' of
                  (Ready r, c'') \<Rightarrow> (Ready (Err r), Inr r, c'')
                | (Pending, c'') \<Rightarrow> (Pending, Inl f', c''))))"

definition with_delay ::
    "'f \<Rightarrow> 'r controller \<Rightarrow> ('r shutdown_has_completed, (bool \<times> 'f) \<times> 'r controller) res" where
  "with_delay f c = map_res (\<lambda>c'. ((True, f), c')) (delay_token c)"

definition poll_with_delay ::
    "('r, 'f, 'v) wrapped \<Rightarrow> bool \<times> 'f \<Rightarrow> 'r controller \<Rightarrow> 'v poll \<times> (bool \<times> 'f) \<times> 'r controller" where
  "poll_with_delay F fut c =
     (case fut of (token, f) \<Rightarrow>
       (case F f c of
          (Ready v, f', c') \<Rightarrow> (Ready v, (False, f'), if token then delay_token_drop c' else c')
        | (Pending, f', c') \<Rightarrow> (Pending, (token, f'), c')))"

text \<open>The trigger token inside the future: \<open>Some cell\<close> until it is taken.\<close>

definition poll_with_trigger ::
    "('r, 'f, 'v) wrapped \<Rightarrow> 'r option option \<times> 'f \<Rightarrow> 'r controller \<Rightarrow>
     'v poll \<times> ('r option option \<times> 'f) \<times> 'r controller" where
  "poll_with_trigger F fut c =
     (case fut of (token, f) \<Rightarrow>
       (case F f c of
          (Ready v, f', c') \<Rightarrow>
            (Ready v, (None, f'),
             case token of None \<Rightarrow> c' | Some cell \<Rightarrow> snd (trigger_token_drop cell c'))
        | (Pending, f', c') \<Rightarrow> (Pending, (token, f'), c')))"

text \<open>Dropping the wrappers before they are ready drops the token they still hold.\<close>

definition drop_with_delay :: "bool \<times> 'f \<Rightarrow> 'r controller \<Rightarrow> 'r controller" where
  "drop_with_delay fut c = (if fst fut then delay_token_drop c else c)"

definition drop_with_trigger :: "'r option option \<times> 'f \<Rightarrow> 'r controller \<Rightarrow> 'r controller" where
  "drop_with_trigger fut c =
     (case fst fut of None \<Rightarrow> c | Some cell \<Rightarrow> snd (trigger_token_drop cell c))"

section \<open>All tasks together\<close>

record 'r shutdown_sys =
  ctl :: "'r controller"
  trigger_cells :: "'r option list"
  live_delay_tokens :: nat

definition sys_new :: "'r shutdown_sys" where
  "sys_new = \<lparr>ctl = controller_new, trigger_cells = [], live_delay_tokens = 0\<rparr>"

inductive sd_step :: "'r shutdown_sys \<Rightarrow> 'r shutdown_sys \<Rightarrow> bool" where
  step_trigger: "sd_step s (s\<lparr>ctl := snd (trigger_shutdown (ctl s) r)\<rparr>)"
| step_delay: "delay_token (ctl s) = Ok c \<Longrightarrow>
    sd_step s (s\<lparr>ctl := c, live_delay_tokens := live_delay_tokens s + 1\<rparr>)"
| step_clone: "0 < live_delay_tokens s \<Longrightarrow>
    sd_step s (s\<lparr>ctl := delay_token_clone (ctl s), live_delay_tokens := live_delay_tokens s + 1\<rparr>)"
| step_drop: "0 < live_delay_tokens s \<Longrightarrow>
    sd_step s (s\<lparr>ctl := delay_token_drop (ctl s), live_delay_tokens := live_delay_tokens s - 1\<rparr>)"
| step_trigger_token: "sd_step s (s\<lparr>trigger_cells := trigger_cells s @ [Some r]\<rparr>)"
| step_drop_trigger: "i < length (trigger_cells s) \<Longrightarrow>
    trigger_token_drop (trigger_cells s ! i) (ctl s) = (cell, c) \<Longrightarrow>
    sd_step s (s\<lparr>ctl := c, trigger_cells := (trigger_cells s)[i := cell]\<rparr>)"
| step_poll_completed: "sd_step s (s\<lparr>ctl := snd (poll_completed w (ctl s))\<rparr>)"
| step_poll_signal: "sd_step s (s\<lparr>ctl := snd (poll_signal w (ctl s))\<rparr>)"

lemmas controller_ops =
  increment_delay_tokens_def notify_shutdown_complete_def decrement_delay_tokens_def
  shutdown_inner_def trigger_shutdown_def delay_token_def delay_token_clone_def
  delay_token_drop_def trigger_token_drop_def poll_completed_def poll_signal_def

section \<open>Invariants\<close>

text \<open>The counter counts the tokens; after the trigger nobody waits for it; after completion nobody
  waits for that.\<close>

definition sys_inv :: "'r shutdown_sys \<Rightarrow> bool" where
  "sys_inv s \<longleftrightarrow>
     c_delay_tokens (ctl s) = live_delay_tokens s \<and>
     (is_shutdown_triggered (ctl s) \<longrightarrow> c_on_shutdown_trigger (ctl s) = []) \<and>
     (is_shutdown_completed (ctl s) \<longrightarrow> c_on_shutdown_complete (ctl s) = [])"

text \<open>A task that waits for completion is queued, or has been woken since the log had \<open>n\<close> entries.\<close>

definition waits_complete :: "waker \<Rightarrow> nat \<Rightarrow> 'r shutdown_sys \<Rightarrow> bool" where
  "waits_complete w n s \<longleftrightarrow> n \<le> length (c_woken (ctl s)) \<and>
     (w \<in> set (c_on_shutdown_complete (ctl s)) \<or> w \<in> set (drop n (c_woken (ctl s))))"

definition waits_trigger :: "waker \<Rightarrow> nat \<Rightarrow> 'r shutdown_sys \<Rightarrow> bool" where
  "waits_trigger w n s \<longleftrightarrow> n \<le> length (c_woken (ctl s)) \<and>
     (w \<in> set (c_on_shutdown_trigger (ctl s)) \<or> w \<in> set (drop n (c_woken (ctl s))))"

lemmas waits_defs = waits_complete_def waits_trigger_def

lemma sys_inv_new: "sys_inv sys_new"
  by (simp add: sys_inv_def sys_new_def controller_new_def is_shutdown_triggered_def
      is_shutdown_completed_def)

lemma sys_inv_step: "sd_step s s' \<Longrightarrow> sys_inv s \<Longrightarrow> sys_inv s'"
  by (induction rule: sd_step.induct)
    (auto simp: sys_inv_def controller_ops Let_def is_shutdown_triggered_def
      is_shutdown_completed_def split: option.splits if_splits nat.splits)

lemma reason_step:
  "sd_step s s' \<Longrightarrow> c_reason (ctl s) = Some r \<Longrightarrow> c_reason (ctl s') = Some r"
  by (induction rule: sd_step.induct)
    (auto simp: controller_ops Let_def split: option.splits if_splits nat.splits)

lemma completed_stays:
  "sd_step s s' \<Longrightarrow> sys_inv s \<Longrightarrow> is_shutdown_completed (ctl s) \<Longrightarrow> is_shutdown_completed (ctl s')"
  by (induction rule: sd_step.induct)
    (auto simp: sys_inv_def controller_ops Let_def is_shutdown_completed_def
      split: option.splits if_splits nat.splits)

lemma completed_step:
  "sd_step s s' \<Longrightarrow> sys_inv s \<and> is_shutdown_completed (ctl s) \<Longrightarrow>
     sys_inv s' \<and> is_shutdown_completed (ctl s')"
  by (blast intro: sys_inv_step completed_stays)

lemma waits_complete_step: "sd_step s s' \<Longrightarrow> waits_complete w n s \<Longrightarrow> waits_complete w n s'"
  by (induction rule: sd_step.induct)
    (auto simp: waits_defs controller_ops Let_def split: option.splits if_splits nat.splits)

lemma waits_trigger_step: "sd_step s s' \<Longrightarrow> waits_trigger w n s \<Longrightarrow> waits_trigger w n s'"
  by (induction rule: sd_step.induct)
    (auto simp: waits_defs controller_ops Let_def split: option.splits if_splits nat.splits)

interpretation sys: invariant_steps sd_step sys_inv
  by unfold_locales (rule sys_inv_step)

interpretation reason: invariant_steps sd_step "\<lambda>s. c_reason (ctl s) = Some r" for r
  by unfold_locales (rule reason_step)

interpretation completed: invariant_steps sd_step "\<lambda>s. sys_inv s \<and> is_shutdown_completed (ctl s)"
  by unfold_locales (rule completed_step)

interpretation complete_wait: invariant_steps sd_step "waits_complete w n" for w n
  by unfold_locales (rule waits_complete_step)

interpretation trigger_wait: invariant_steps sd_step "waits_trigger w n" for w n
  by unfold_locales (rule waits_trigger_step)

lemmas sys_reachable = sys.inv_steps [OF _ sys_inv_new]

section \<open>Properties\<close>

text \<open>The first reason wins and completion is final. Whatever the tasks do after a state that
  can be reached, a reason that was set stays, and a completed shutdown stays completed: no delay token
  can be made any more and no later trigger changes the reason.\<close>

theorem shutdown_is_final:
  assumes "sd_step\<^sup>*\<^sup>* sys_new s" and "sd_step\<^sup>*\<^sup>* s s'" and "c_reason (ctl s) = Some r"
  shows "shutdown_reason (ctl s') = Some r \<and>
    fst (trigger_shutdown (ctl s') r') = Err (ShutdownHasStarted r r') \<and>
    (is_shutdown_completed (ctl s) \<longrightarrow>
       is_shutdown_completed (ctl s') \<and> delay_token (ctl s') = Err (ShutdownHasCompleted r))"
proof -
  have r: "c_reason (ctl s') = Some r" by (rule reason.inv_steps [OF assms(2,3)])
  moreover have "is_shutdown_completed (ctl s')" if "is_shutdown_completed (ctl s)"
    using completed.inv_steps [OF assms(2)] sys_reachable [OF assms(1)] that by blast
  ultimately show ?thesis
    by (auto simp: shutdown_reason_def trigger_shutdown_def shutdown_inner_def delay_token_def
        is_shutdown_completed_def)
qed

theorem shutdown_is_final_witness:
  "delay_token (ctl (sys_new\<lparr>ctl := snd (trigger_shutdown controller_new ''sigterm'')\<rparr>)) =
     Err (ShutdownHasCompleted ''sigterm'')"
proof -
  let ?s = "sys_new\<lparr>ctl := snd (trigger_shutdown controller_new ''sigterm'')\<rparr>"
  have "sd_step sys_new (sys_new\<lparr>ctl := snd (trigger_shutdown (ctl sys_new) ''sigterm'')\<rparr>)"
    by (rule step_trigger)
  then have "sd_step\<^sup>*\<^sup>* sys_new ?s" by (simp add: sys_new_def)
  then show ?thesis
    using shutdown_is_final [of ?s ?s "''sigterm''"]
    by (simp add: controller_ops controller_new_def is_shutdown_completed_def)
qed

text \<open>The shutdown is complete exactly when it was triggered and every delay token is dropped:
  the counter with its saturating decrement counts the tokens that exist.\<close>

theorem shutdown_completed_iff:
  assumes "sd_step\<^sup>*\<^sup>* sys_new s"
  shows "is_shutdown_completed (ctl s) \<longleftrightarrow>
    is_shutdown_triggered (ctl s) \<and> live_delay_tokens s = 0"
  using sys_reachable [OF assms]
  by (auto simp: sys_inv_def is_shutdown_completed_def is_shutdown_triggered_def)

theorem shutdown_completed_iff_witness:
  "is_shutdown_completed (ctl (sys_new :: string shutdown_sys)) = False"
  using shutdown_completed_iff [of "sys_new :: string shutdown_sys"]
  by (simp add: is_shutdown_triggered_def sys_new_def controller_new_def)

text \<open>C17: No wake-up for completion is lost. When a poll of \<open>Completed\<close> returns \<open>Pending\<close> in a
  reachable state and the shutdown is complete in a later state, the waker of that poll has been
  called in between, and polling again is \<open>Ready\<close> with the reason.\<close>

theorem completed_wakeup_not_lost:
  assumes "sd_step\<^sup>*\<^sup>* sys_new s" and "poll_completed w (ctl s) = (Pending, c)"
    and "sd_step\<^sup>*\<^sup>* (s\<lparr>ctl := c\<rparr>) s'" and "is_shutdown_completed (ctl s')"
  shows "w \<in> set (drop (length (c_woken c)) (c_woken (ctl s'))) \<and>
    (\<exists>r. shutdown_reason (ctl s') = Some r \<and> fst (poll_completed w (ctl s')) = Ready r)"
proof -
  have "sd_step s (s\<lparr>ctl := c\<rparr>)" using step_poll_completed [of s w] assms(2) by simp
  with assms(1,3) have "sd_step\<^sup>*\<^sup>* sys_new s'" by (meson rtranclp.rtrancl_into_rtrancl rtranclp_trans)
  then have inv: "c_on_shutdown_complete (ctl s') = []"
    using sys_reachable assms(4) by (auto simp: sys_inv_def)
  have "waits_complete w (length (c_woken c)) (s\<lparr>ctl := c\<rparr>)"
    using assms(2)
    by (auto simp: waits_defs poll_completed_def split: option.splits nat.splits)
  then have "waits_complete w (length (c_woken c)) s'"
    by (rule complete_wait.inv_steps [OF assms(3)])
  with inv assms(4) show ?thesis
    by (auto simp: waits_defs poll_completed_def is_shutdown_completed_def shutdown_reason_def)
qed

theorem completed_wakeup_not_lost_witness:
  "3 \<in> set (drop 0 (c_woken (snd (trigger_shutdown (snd (poll_completed 3 controller_new)) ''sigterm''))))"
proof -
  define c :: "string controller" where "c = snd (poll_completed 3 controller_new)"
  let ?s = "sys_new\<lparr>ctl := c\<rparr> :: string shutdown_sys"
  let ?s' = "?s\<lparr>ctl := snd (trigger_shutdown (ctl ?s) ''sigterm'')\<rparr>"
  have "poll_completed 3 (ctl sys_new) = (Pending, c)"
    by (simp add: c_def poll_completed_def sys_new_def controller_new_def)
  moreover have "sd_step\<^sup>*\<^sup>* ?s ?s'" by (rule r_into_rtranclp) (rule step_trigger)
  moreover have "is_shutdown_completed (ctl ?s')" "c_woken c = []"
    by (simp_all add: c_def controller_ops controller_new_def is_shutdown_completed_def)
  ultimately show ?thesis
    using completed_wakeup_not_lost [OF rtranclp.rtrancl_refl, of 3 c ?s'] by (simp add: c_def)
qed

text \<open>C18: No wake-up for the trigger is lost: a task whose poll of \<open>Signal\<close> returned \<open>Pending\<close> has
  been woken by the time the shutdown is triggered, also when it polled several times.\<close>

theorem signal_wakeup_not_lost:
  assumes "sd_step\<^sup>*\<^sup>* sys_new s" and "poll_signal w (ctl s) = (Pending, c)"
    and "sd_step\<^sup>*\<^sup>* (s\<lparr>ctl := c\<rparr>) s'" and "is_shutdown_triggered (ctl s')"
  shows "w \<in> set (drop (length (c_woken c)) (c_woken (ctl s'))) \<and>
    (\<exists>r. shutdown_reason (ctl s') = Some r \<and> fst (poll_signal w (ctl s')) = Ready r)"
proof -
  have "sd_step s (s\<lparr>ctl := c\<rparr>)" using step_poll_signal [of s w] assms(2) by simp
  with assms(1,3) have "sd_step\<^sup>*\<^sup>* sys_new s'" by (meson rtranclp.rtrancl_into_rtrancl rtranclp_trans)
  then have inv: "c_on_shutdown_trigger (ctl s') = []"
    using sys_reachable assms(4) by (auto simp: sys_inv_def)
  have "waits_trigger w (length (c_woken c)) (s\<lparr>ctl := c\<rparr>)"
    using assms(2) by (auto simp: waits_defs poll_signal_def split: option.splits)
  then have "waits_trigger w (length (c_woken c)) s'"
    by (rule trigger_wait.inv_steps [OF assms(3)])
  with inv assms(4) show ?thesis
    by (auto simp: waits_defs poll_signal_def is_shutdown_triggered_def shutdown_reason_def)
qed

theorem signal_wakeup_not_lost_witness:
  "3 \<in> set (drop 0 (c_woken (snd (trigger_shutdown (snd (poll_signal 3 controller_new)) ''sigterm''))))"
proof -
  define c :: "string controller" where "c = snd (poll_signal 3 controller_new)"
  let ?s = "sys_new\<lparr>ctl := c\<rparr> :: string shutdown_sys"
  let ?s' = "?s\<lparr>ctl := snd (trigger_shutdown (ctl ?s) ''sigterm'')\<rparr>"
  have "poll_signal 3 (ctl sys_new) = (Pending, c)"
    by (simp add: c_def poll_signal_def sys_new_def controller_new_def)
  moreover have "sd_step\<^sup>*\<^sup>* ?s ?s'" by (rule r_into_rtranclp) (rule step_trigger)
  moreover have "is_shutdown_triggered (ctl ?s')" "c_woken c = []"
    by (simp_all add: c_def controller_ops controller_new_def is_shutdown_triggered_def)
  ultimately show ?thesis
    using signal_wakeup_not_lost [OF rtranclp.rtrancl_refl, of 3 c ?s'] by (simp add: c_def)
qed

text \<open>What a poll of \<open>WithCancel\<close> returns: the value if the wrapped future is done, even after
  the trigger; otherwise the reason once the shutdown is triggered, and from then on that reason
  without polling the wrapped future again; otherwise \<open>Pending\<close> with the waker queued.\<close>

theorem with_cancel_outcome:
  assumes "F f c = (p, f', c')" and "poll_with_cancel F w (Inl f) c = (q, fut, c'')"
  shows "(case p of
      Ready v \<Rightarrow> q = Ready (Ok v) \<and> c'' = c'
    | Pending \<Rightarrow>
        (case shutdown_reason c' of
           Some r \<Rightarrow> q = Ready (Err r) \<and> c'' = c' \<and>
             (\<forall>G v d. poll_with_cancel G v fut d = (Ready (Err r), fut, d))
         | None \<Rightarrow> q = Pending \<and> fut = Inl f' \<and> w \<in> set (c_on_shutdown_trigger c'')))"
  using assms
  by (auto simp: poll_with_cancel_def poll_signal_def shutdown_reason_def split: poll.splits option.splits)

theorem with_cancel_outcome_witness:
  "fst (poll_with_cancel (\<lambda>f c. (Pending :: nat poll, f, c)) 1 (Inl ())
          (snd (trigger_shutdown controller_new ''sigterm''))) = Ready (Err ''sigterm'')"
proof -
  let ?F = "\<lambda>f :: unit. \<lambda>c :: string controller. (Pending :: nat poll, f, c)"
  let ?c = "snd (trigger_shutdown controller_new ''sigterm'')"
  obtain q fut c'' where q: "poll_with_cancel ?F 1 (Inl ()) ?c = (q, fut, c'')" by (metis prod_cases3)
  have "shutdown_reason ?c = Some ''sigterm''"
    by (simp add: controller_ops controller_new_def shutdown_reason_def)
  with with_cancel_outcome [of ?F "()" ?c, OF refl q] have "q = Ready (Err ''sigterm'')" by auto
  with q show ?thesis by simp
qed

end
