(* ===== verification/Event_Loop.thy ===== *)
theory Event_Loop
  imports P2p_Client Shutdown Samples
begin

text \<open>
  The event loop of the peer-to-peer node (\<open>src/network/p2p/event_loop.rs\<close>, the commands' \<open>run\<close> and \<open>abort\<close> of
  \<open>src/network/p2p/client.rs\<close>, and the entries and key pair of \<open>src/network/p2p.rs\<close>).

  The libp2p swarm is not part of the repository: its state is the type \<open>'sw\<close> and the calls that the sources make are the
  fields of \<open>swarm_ops\<close>, among them the access to the record store, which is the repository's own \<open>MemoryStore\<close>.
  Random choices and the current instant of one iteration are the fields of \<open>draws\<close>. What is sent over the response
  channels and to the metrics is logged in the state.

  The lemmas show that the counters of a block's uploads always add up, what is reported once the last upload has
  been answered, which peers enter the routing table, and that keys parse back to the block they were made for.
\<close>

section \<open>State\<close>

type_synonym query_id = nat

record block_stat =
  bs_total_count :: u64
  bs_remaining_counter :: u64
  bs_success_counter :: u64
  bs_error_counter :: u64
  bs_time_stat :: u64

definition increase_block_stat_counters :: "nat \<Rightarrow> block_stat \<Rightarrow> block_stat" where
  "increase_block_stat_counters cell_number b =
     b\<lparr>bs_total_count := bs_total_count b + word_of_nat cell_number,
       bs_remaining_counter := bs_remaining_counter b + word_of_nat cell_number\<rparr>"

datatype query_channel = QGetRecord channel | QPutRecord | QBootstrap channel

record connection_info =
  ci_peer_id :: peer_id
  ci_endpoint :: multiaddr
  ci_established_in :: nat
  ci_num_established :: u32

record local_info =
  lin_peer_id :: string
  lin_local_listeners :: "string list"
  lin_external_listeners :: "string list"

datatype reply =
    UnitReply "unit result"
  | RecordReply "kad_record result"
  | ConnectionReply "connection_info result"
  | CountReply "nat result"
  | PeersReply "string list result"
  | InfoReply "local_info result"

record relay_state =
  rl_id :: peer_id
  rl_address :: multiaddr
  rl_is_circuit_established :: bool
  rl_nodes :: "(peer_id \<times> multiaddr) list"

record event_loop_config =
  elc_identity_data :: identify_config
  elc_is_fat_client :: bool
  elc_kad_record_ttl :: nat

record 'sw event_loop =
  el_swarm :: 'sw
  el_pending_kad_queries :: "query_id \<rightharpoonup> query_channel"
  el_pending_swarm_events :: "peer_id \<rightharpoonup> channel"
  el_relay :: relay_state
  el_is_startup_done :: bool
  el_active_blocks :: "u32 \<rightharpoonup> block_stat"
  el_config :: event_loop_config
  el_replies :: "(channel \<times> reply) list"
  el_metrics :: "metrics_call list"

record ('sw, 'ver) swarm_ops =
  so_listen_on :: "multiaddr \<Rightarrow> ('sw, unit) op"
  so_dial :: "peer_id \<Rightarrow> multiaddr list \<Rightarrow> ('sw, unit) op"
  so_dial_not_dialing :: "peer_id \<Rightarrow> multiaddr list \<Rightarrow> ('sw, unit) op"
  so_bootstrap :: "('sw, query_id) op"
  so_get_record :: "record_key \<Rightarrow> 'sw \<Rightarrow> query_id \<times> 'sw"
  so_put_record :: "kad_record \<Rightarrow> ('sw, query_id) op"
  so_remove_record :: "record_key \<Rightarrow> 'sw \<Rightarrow> 'sw"
  so_add_address :: "peer_id \<Rightarrow> multiaddr \<Rightarrow> 'sw \<Rightarrow> 'sw"
  so_remove_address :: "peer_id \<Rightarrow> multiaddr \<Rightarrow> 'sw \<Rightarrow> 'sw"
  so_remove_peer :: "peer_id \<Rightarrow> 'sw \<Rightarrow> 'sw"
  so_block_peer :: "peer_id \<Rightarrow> 'sw \<Rightarrow> 'sw"
  so_add_server :: "peer_id \<Rightarrow> multiaddr \<Rightarrow> 'sw \<Rightarrow> 'sw"
  so_disconnect_peer_id :: "peer_id \<Rightarrow> 'sw \<Rightarrow> 'sw"
  so_connected_peers :: "'sw \<Rightarrow> peer_id list"
  so_num_peers :: "'sw \<Rightarrow> nat"
  so_local_peer_id :: "'sw \<Rightarrow> peer_id"
  so_listeners :: "'sw \<Rightarrow> multiaddr list"
  so_external_addresses :: "'sw \<Rightarrow> multiaddr list"
  so_discovered_nodes :: "'sw \<Rightarrow> peer_id list"
  so_store :: "'sw \<Rightarrow> memory_store"
  so_with_store :: "memory_store \<Rightarrow> 'sw \<Rightarrow> 'sw"
  so_is_expired :: "kad_record \<Rightarrow> nat \<Rightarrow> bool"
  so_peer_id_text :: "peer_id \<Rightarrow> string"
  so_with_circuit :: "multiaddr \<Rightarrow> multiaddr"
  so_parse_version :: "string \<Rightarrow> 'ver option"
  so_at_least :: "'ver \<Rightarrow> 'ver \<Rightarrow> bool"

record draws =
  dr_now :: nat
  dr_peer_id :: peer_id
  dr_index :: nat
  dr_open :: "channel \<Rightarrow> bool"

definition event_loop_new :: "'sw \<Rightarrow> libp2p_config \<Rightarrow> bool \<Rightarrow> peer_id \<Rightarrow> 'sw event_loop" where
  "event_loop_new sw cfg is_fat random_peer =
     \<lparr>el_swarm = sw, el_pending_kad_queries = Map.empty, el_pending_swarm_events = Map.empty,
      el_relay = \<lparr>rl_id = random_peer, rl_address = '''', rl_is_circuit_established = False, rl_nodes = lp_relays cfg\<rparr>,
      el_is_startup_done = False, el_active_blocks = Map.empty,
      el_config = \<lparr>elc_identity_data = lp_identify cfg, elc_is_fat_client = is_fat,
                   elc_kad_record_ttl = kc_kad_record_ttl (lp_kademlia cfg)\<rparr>,
      el_replies = [], el_metrics = []\<rparr>"

section \<open>Channels, metrics and the swarm\<close>

text \<open>A send whose result is ignored, and one that is expected to reach a receiver.\<close>

definition send_reply :: "draws \<Rightarrow> channel \<Rightarrow> reply \<Rightarrow> 'sw event_loop \<Rightarrow> 'sw event_loop" where
  "send_reply D ch r s = (if dr_open D ch then s\<lparr>el_replies := el_replies s @ [(ch, r)]\<rparr> else s)"

definition expect_reply :: "draws \<Rightarrow> string \<Rightarrow> channel \<Rightarrow> reply \<Rightarrow> ('sw event_loop, unit) op" where
  "expect_reply D msg ch r s =
     (if dr_open D ch then (Ok (), s\<lparr>el_replies := el_replies s @ [(ch, r)]\<rparr>) else (Panic msg, s))"

definition el_metric :: "metrics_call \<Rightarrow> 'sw event_loop \<Rightarrow> 'sw event_loop" where
  "el_metric m s = s\<lparr>el_metrics := el_metrics s @ [m]\<rparr>"

definition on_swarm :: "('sw \<Rightarrow> 'sw) \<Rightarrow> 'sw event_loop \<Rightarrow> 'sw event_loop" where
  "on_swarm f s = s\<lparr>el_swarm := f (el_swarm s)\<rparr>"

definition swarm_op :: "('sw, 'a) op \<Rightarrow> ('sw event_loop, 'a) op" where
  "swarm_op m s = (case m (el_swarm s) of (r, sw) \<Rightarrow> (r, s\<lparr>el_swarm := sw\<rparr>))"

definition insert_query :: "query_id \<Rightarrow> query_channel \<Rightarrow> 'sw event_loop \<Rightarrow> 'sw event_loop" where
  "insert_query i ch s = s\<lparr>el_pending_kad_queries := (el_pending_kad_queries s)(i \<mapsto> ch)\<rparr>"

definition remove_query :: "query_id \<Rightarrow> 'sw event_loop \<Rightarrow> 'sw event_loop" where
  "remove_query i s = s\<lparr>el_pending_kad_queries := (el_pending_kad_queries s)(i := None)\<rparr>"

definition insert_swarm_event :: "peer_id \<Rightarrow> channel \<Rightarrow> 'sw event_loop \<Rightarrow> 'sw event_loop" where
  "insert_swarm_event p ch s = s\<lparr>el_pending_swarm_events := (el_pending_swarm_events s)(p \<mapsto> ch)\<rparr>"

text \<open>\<open>pending_swarm_events.remove(&peer_id)\<close> and, if there was an entry, the reply over its channel.\<close>

definition reply_swarm_event :: "draws \<Rightarrow> peer_id \<Rightarrow> connection_info result \<Rightarrow> 'sw event_loop \<Rightarrow> 'sw event_loop" where
  "reply_swarm_event D p r s =
     (case el_pending_swarm_events s p of
        None \<Rightarrow> s
      | Some ch \<Rightarrow> send_reply D ch (ConnectionReply r)
                    (s\<lparr>el_pending_swarm_events := (el_pending_swarm_events s)(p := None)\<rparr>))"

section \<open>DHT keys\<close>

datatype dht_key = CellKey u32 u32 u32 | RowKey u32 u32

text \<open>A key that is not ASCII is no list of numbers, whether it is valid UTF-8 or not.\<close>

definition ascii_text :: "bytes \<Rightarrow> string result" where
  "ascii_text bs =
     (if list_all (\<lambda>b. b < 128) bs then Ok (map (\<lambda>b. char_of (unat b)) bs) else Err [''invalid key''])"

definition dht_key_try_from :: "record_key \<Rightarrow> dht_key result" where
  "dht_key_try_from k =
     and_then (ascii_text k) (\<lambda>text.
     and_then (map_err (\<lambda>e. [int_error_text e]) (collect_res (map parse_u32 (split_on CHR '':'' text)))) (\<lambda>parts.
       case parts of
         [block_num, row_num] \<Rightarrow> Ok (RowKey block_num row_num)
       | [block_num, row_num, col_num] \<Rightarrow> Ok (CellKey block_num row_num col_num)
       | _ \<Rightarrow> Err [''Invalid DHT key'']))"

fun dht_key_block :: "dht_key \<Rightarrow> u32" where
  "dht_key_block (CellKey b _ _) = b"
| "dht_key_block (RowKey b _) = b"

section \<open>Relay and bootstrap\<close>

definition relay_reset :: "draws \<Rightarrow> relay_state \<Rightarrow> relay_state" where
  "relay_reset D r = r\<lparr>rl_id := dr_peer_id D, rl_address := '''', rl_is_circuit_established := False\<rparr>"

definition relay_select_random :: "draws \<Rightarrow> relay_state \<Rightarrow> relay_state" where
  "relay_select_random D r =
     (if rl_nodes r = [] then r
      else (case rl_nodes r ! (dr_index D mod length (rl_nodes r)) of
              (i, addr) \<Rightarrow> r\<lparr>rl_id := i, rl_address := addr\<rparr>))"

definition establish_relay_circuit :: "('sw, 'ver) swarm_ops \<Rightarrow> draws \<Rightarrow> peer_id \<Rightarrow> 'sw event_loop \<Rightarrow> 'sw event_loop" where
  "establish_relay_circuit N D p s =
     (if p = rl_id (el_relay s) \<and> \<not> rl_is_circuit_established (el_relay s) then
        (case swarm_op (so_listen_on N (so_with_circuit N (rl_address (el_relay s)))) s of
           (Ok _, s') \<Rightarrow> s'\<lparr>el_relay := (el_relay s')\<lparr>rl_is_circuit_established := True\<rparr>\<rparr>
         | (_, s') \<Rightarrow> s'\<lparr>el_relay := relay_reset D (el_relay s')\<rparr>)
      else s)"

definition select_and_dial_relay :: "('sw, 'ver) swarm_ops \<Rightarrow> draws \<Rightarrow> 'sw event_loop \<Rightarrow> 'sw event_loop" where
  "select_and_dial_relay N D s =
     (let s1 = s\<lparr>el_relay := relay_select_random D (el_relay s)\<rparr>
      in case swarm_op (so_dial_not_dialing N (rl_id (el_relay s1)) [rl_address (el_relay s1)]) s1 of
           (Ok _, s') \<Rightarrow> s'
         | (_, s') \<Rightarrow> s'\<lparr>el_relay := relay_reset D (el_relay s')\<rparr>)"

definition handle_periodic_bootstraps :: "('sw, 'ver) swarm_ops \<Rightarrow> 'sw event_loop \<Rightarrow> 'sw event_loop" where
  "handle_periodic_bootstraps N s = (if el_is_startup_done s then snd (swarm_op (so_bootstrap N) s) else s)"

definition disconnect_peers :: "('sw, 'ver) swarm_ops \<Rightarrow> 'sw event_loop \<Rightarrow> 'sw event_loop" where
  "disconnect_peers N s = on_swarm (fold (so_disconnect_peer_id N) (so_connected_peers N (el_swarm s))) s"

section \<open>Results of uploads\<close>

definition put_counted :: "bool \<Rightarrow> u64 \<Rightarrow> block_stat \<Rightarrow> block_stat" where
  "put_counted is_error secs b =
     (let b1 = b\<lparr>bs_remaining_counter := bs_remaining_counter b - 1\<rparr>;
          b2 = (if is_error then b1\<lparr>bs_error_counter := bs_error_counter b1 + 1\<rparr>
                else b1\<lparr>bs_success_counter := bs_success_counter b1 + 1\<rparr>)
      in b2\<lparr>bs_time_stat := secs\<rparr>)"

text \<open>\<open>duration\<close> is the duration of the query in seconds, if it has ended.\<close>

definition handle_put_result ::
    "('sw, 'ver) swarm_ops \<Rightarrow> record_key \<Rightarrow> u64 option \<Rightarrow> bool \<Rightarrow> 'sw event_loop \<Rightarrow> 'sw event_loop" where
  "handle_put_result N k duration is_error s =
     (case dht_key_try_from k of
        Ok dk \<Rightarrow>
          (case el_active_blocks s (dht_key_block dk) of
             None \<Rightarrow> s
           | Some block \<Rightarrow>
               (let block' = put_counted is_error (case duration of None \<Rightarrow> 0 | Some secs \<Rightarrow> secs) block;
                    s1 = s\<lparr>el_active_blocks := (el_active_blocks s)(dht_key_block dk \<mapsto> block')\<rparr>;
                    s2 = (if bs_remaining_counter block' = 0 then
                            el_metric (RecordCall (DHTPutDuration (Fin (real (unat (bs_time_stat block'))))))
                              (el_metric (RecordCall (DHTPutSuccess
                                 (f64_ratio (unat (bs_success_counter block')) (unat (bs_total_count block'))))) s1)
                          else s1)
                in if elc_is_fat_client (el_config s2) then on_swarm (so_remove_record N k) s2 else s2))
      | _ \<Rightarrow> s)"

section \<open>Events\<close>

datatype put_record_error = QuorumFailed record_key | PutTimeout record_key

datatype query_result =
    GetRecordFound kad_record
  | GetRecordFinished
  | GetRecordError report
  | PutRecordOk record_key
  | PutRecordError put_record_error
  | BootstrapProgress nat
  | BootstrapError report
  | OtherQueryResult

datatype kad_event =
    InboundGetRecord
  | InboundPutRecord "kad_record option"
  | OutboundQueryProgressed query_id query_result "u64 option"
  | OtherKadEvent

datatype identify_event = IdentifyReceived peer_id "multiaddr list" string string | OtherIdentifyEvent
datatype mdns_event = Discovered "(peer_id \<times> multiaddr) list" | Expired "(peer_id \<times> multiaddr) list"
datatype nat_status = NatPublic multiaddr | NatPrivate | NatUnknown
datatype autonat_event = StatusChanged nat_status nat_status | Probe

text \<open>The error of an outgoing connection: whether it is \<open>DialError::WrongPeerId\<close>, and its text. The cause of a closed
  connection: whether it is \<open>ConnectionError::IO\<close>.\<close>

datatype swarm_event =
    Kademlia kad_event
  | Identify identify_event
  | Mdns mdns_event
  | AutoNat autonat_event
  | RelayClientEvent
  | DcutrEvent
  | Ping "nat option"
  | UpnpEvent
  | ConnectionClosed peer_id bool
  | IncomingConnection
  | IncomingConnectionError
  | ConnectionEstablished connection_info
  | OutgoingConnectionError "peer_id option" bool report
  | OtherSwarmEvent

text \<open>\<open>Option<Instant>::min\<close>: \<open>None\<close> is the least value.\<close>

fun option_min :: "nat option \<Rightarrow> nat option \<Rightarrow> nat option" where
  "option_min (Some a) (Some b) = Some (min a b)"
| "option_min _ _ = None"

definition handle_inbound_put :: "('sw, 'ver) swarm_ops \<Rightarrow> draws \<Rightarrow> kad_record option \<Rightarrow> 'sw event_loop \<Rightarrow> 'sw event_loop" where
  "handle_inbound_put N D rec s =
     (let s1 = el_metric (CountCall IncomingPutRecord) s
      in case rec of
           None \<Rightarrow> s1
         | Some r \<Rightarrow>
             (let r' = r\<lparr>kr_expires := option_min (kr_expires r)
                          (ttl_expires (dr_now D) (elc_kad_record_ttl (el_config s1)))\<rparr>
              in case ms_put (so_store N (el_swarm s1)) r' of
                   Ok st \<Rightarrow> on_swarm (so_with_store N st) s1
                 | _ \<Rightarrow> s1))"

fun put_error_key :: "put_record_error \<Rightarrow> record_key" where
  "put_error_key (QuorumFailed k) = k"
| "put_error_key (PutTimeout k) = k"

fun handle_query_result ::
    "('sw, 'ver) swarm_ops \<Rightarrow> draws \<Rightarrow> query_id \<Rightarrow> query_result \<Rightarrow> u64 option \<Rightarrow> 'sw event_loop \<Rightarrow> 'sw event_loop" where
  "handle_query_result N D i (GetRecordFound r) stats s =
     (case el_pending_kad_queries s i of
        Some (QGetRecord ch) \<Rightarrow> send_reply D ch (RecordReply (Ok r)) (remove_query i s)
      | _ \<Rightarrow> remove_query i s)"
| "handle_query_result N D i (GetRecordError e) stats s =
     (case el_pending_kad_queries s i of
        Some (QGetRecord ch) \<Rightarrow> send_reply D ch (RecordReply (Err e)) (remove_query i s)
      | _ \<Rightarrow> remove_query i s)"
| "handle_query_result N D i GetRecordFinished stats s = s"
| "handle_query_result N D i (PutRecordError e) stats s =
     (if el_pending_kad_queries s i = None then s
      else handle_put_result N (put_error_key e) stats True (remove_query i s))"
| "handle_query_result N D i (PutRecordOk k) stats s =
     (if el_pending_kad_queries s i = None then s
      else handle_put_result N k stats False (remove_query i s))"
| "handle_query_result N D i (BootstrapProgress num_remaining) stats s =
     (if num_remaining = 0 then
        (case el_pending_kad_queries s i of
           Some (QBootstrap ch) \<Rightarrow>
             (send_reply D ch (UnitReply (Ok ())) (remove_query i s))\<lparr>el_is_startup_done := True\<rparr>
         | _ \<Rightarrow> remove_query i s)
      else s)"
| "handle_query_result N D i (BootstrapError e) stats s =
     (case el_pending_kad_queries s i of
        Some (QBootstrap ch) \<Rightarrow> send_reply D ch (UnitReply (Err e)) (remove_query i s)
      | _ \<Rightarrow> remove_query i s)"
| "handle_query_result N D i OtherQueryResult stats s = s"

fun handle_kad_event ::
    "('sw, 'ver) swarm_ops \<Rightarrow> draws \<Rightarrow> kad_event \<Rightarrow> 'sw event_loop \<Rightarrow> 'sw event_loop" where
  "handle_kad_event N D InboundGetRecord s = el_metric (CountCall IncomingGetRecord) s"
| "handle_kad_event N D (InboundPutRecord r) s = handle_inbound_put N D r s"
| "handle_kad_event N D (OutboundQueryProgressed i r stats) s = handle_query_result N D i r stats s"
| "handle_kad_event N D OtherKadEvent s = s"

fun handle_identify_event :: "('sw, 'ver) swarm_ops \<Rightarrow> identify_event \<Rightarrow> 'sw event_loop \<Rightarrow> 'sw event_loop" where
  "handle_identify_event N (IdentifyReceived p listen_addrs agent_text proto) s =
     (case agent_version_from_str agent_text of
        Ok agent \<Rightarrow>
          if \<not> agent_is_supported (so_parse_version N) (so_at_least N) agent then on_swarm (so_remove_peer N p) s
          else if proto = ic_protocol_version (elc_identity_data (el_config s)) then
            (if av_kademlia_mode agent = kademlia_mode_text Server then
               on_swarm (fold (so_add_address N p) listen_addrs) s
             else s)
          else on_swarm (so_block_peer N p) (on_swarm (so_remove_peer N p) s)
      | _ \<Rightarrow> s)"
| "handle_identify_event N OtherIdentifyEvent s = s"

fun handle_mdns_event :: "('sw, 'ver) swarm_ops \<Rightarrow> mdns_event \<Rightarrow> 'sw event_loop \<Rightarrow> 'sw event_loop" where
  "handle_mdns_event N (Discovered addrs) s = on_swarm (fold (\<lambda>(p, a). so_add_address N p a) addrs) s"
| "handle_mdns_event N (Expired addrs) s =
     on_swarm (fold (\<lambda>(p, a) sw. if p \<in> set (so_discovered_nodes N sw) then so_remove_address N p a sw else sw) addrs) s"

fun handle_autonat_event :: "('sw, 'ver) swarm_ops \<Rightarrow> draws \<Rightarrow> autonat_event \<Rightarrow> 'sw event_loop \<Rightarrow> 'sw event_loop" where
  "handle_autonat_event N D (StatusChanged old new) s =
     (if new = NatPrivate \<or> old = NatPrivate then
        (if elc_is_fat_client (el_config s) then s else select_and_dial_relay N D s)
      else s)"
| "handle_autonat_event N D Probe s = s"

fun handle_event :: "('sw, 'ver) swarm_ops \<Rightarrow> draws \<Rightarrow> swarm_event \<Rightarrow> 'sw event_loop \<Rightarrow> 'sw event_loop" where
  "handle_event N D (Kademlia e) s = handle_kad_event N D e s"
| "handle_event N D (Identify e) s = handle_identify_event N e s"
| "handle_event N D (Mdns e) s = handle_mdns_event N e s"
| "handle_event N D (AutoNat e) s = handle_autonat_event N D e s"
| "handle_event N D RelayClientEvent s = s"
| "handle_event N D DcutrEvent s = s"
| "handle_event N D (Ping (Some rtt)) s = el_metric (RecordCall (DHTPingLatency (Fin (real rtt)))) s"
| "handle_event N D (Ping None) s = s"
| "handle_event N D UpnpEvent s = s"
| "handle_event N D (ConnectionClosed p io_error) s = (if io_error then on_swarm (so_remove_peer N p) s else s)"
| "handle_event N D IncomingConnection s = el_metric (CountCall IncomingConnections) s"
| "handle_event N D IncomingConnectionError s = el_metric (CountCall IncomingConnectionErrors) s"
| "handle_event N D (ConnectionEstablished info) s =
     establish_relay_circuit N D (ci_peer_id info)
       (reply_swarm_event D (ci_peer_id info) (Ok info) (el_metric (CountCall EstablishedConnections) s))"
| "handle_event N D (OutgoingConnectionError peer wrong_peer_id e) s =
     (let s1 = el_metric (CountCall OutgoingConnectionErrors) s
      in case peer of
           None \<Rightarrow> s1
         | Some p \<Rightarrow>
             (let s2 = (if wrong_peer_id then on_swarm (so_remove_peer N p) s1 else s1);
                  s3 = reply_swarm_event D p (Err e) s2
              in if rl_id (el_relay s3) = p then s3\<lparr>el_relay := relay_reset D (el_relay s3)\<rparr> else s3))"
| "handle_event N D OtherSwarmEvent s = s"

section \<open>Commands\<close>

fun put_records ::
    "('sw, 'ver) swarm_ops \<Rightarrow> kad_record list \<Rightarrow> ('sw event_loop, unit) op" where
  "put_records N [] s = (Ok (), s)"
| "put_records N (r # rs) s =
     (case swarm_op (so_put_record N r) s of
        (Ok i, s') \<Rightarrow> put_records N rs (insert_query i QPutRecord s')
      | (_, s') \<Rightarrow> (Panic ''Unable to perform Kademlia PUT operation.'', s'))"

definition monitor_block :: "u32 \<Rightarrow> nat \<Rightarrow> 'sw event_loop \<Rightarrow> 'sw event_loop" where
  "monitor_block block_num n s =
     s\<lparr>el_active_blocks := (el_active_blocks s)(block_num \<mapsto>
         (case el_active_blocks s block_num of
            Some b \<Rightarrow> increase_block_stat_counters n b
          | None \<Rightarrow> \<lparr>bs_total_count = word_of_nat n, bs_remaining_counter = word_of_nat n,
                      bs_success_counter = 0, bs_error_counter = 0, bs_time_stat = 0\<rparr>))\<rparr>"

definition store_of :: "('sw, 'ver) swarm_ops \<Rightarrow> 'sw event_loop \<Rightarrow> memory_store" where
  "store_of N s = so_store N (el_swarm s)"

definition run_prune_expired_records ::
    "('sw, 'ver) swarm_ops \<Rightarrow> draws \<Rightarrow> nat \<Rightarrow> channel \<Rightarrow> ('sw event_loop, unit) op" where
  "run_prune_expired_records N D now ch s =
     (let s1 = on_swarm (so_with_store N (ms_retain (\<lambda>_ r. \<not> so_is_expired N r now) (store_of N s))) s
      in expect_reply D ''PruneExpiredRecords receiver dropped'' ch
           (CountReply (Ok (length (ms_all_records (store_of N s)) - length (ms_all_records (store_of N s1))))) s1)"

definition run_start_listening ::
    "('sw, 'ver) swarm_ops \<Rightarrow> draws \<Rightarrow> multiaddr \<Rightarrow> channel \<Rightarrow> ('sw event_loop, unit) op" where
  "run_start_listening N D addr ch =
     op_bind (swarm_op (so_listen_on N addr)) (\<lambda>_.
       expect_reply D ''StartListening receiver dropped'' ch (UnitReply (Ok ())))"

definition run_add_address :: "('sw, 'ver) swarm_ops \<Rightarrow> peer_id \<Rightarrow> multiaddr \<Rightarrow> ('sw event_loop, unit) op" where
  "run_add_address N p addr s = (Ok (), on_swarm (so_add_address N p addr) s)"

definition run_bootstrap :: "('sw, 'ver) swarm_ops \<Rightarrow> channel \<Rightarrow> ('sw event_loop, unit) op" where
  "run_bootstrap N ch = op_bind (swarm_op (so_bootstrap N)) (\<lambda>i s. (Ok (), insert_query i (QBootstrap ch) s))"

definition run_get_kad_record :: "('sw, 'ver) swarm_ops \<Rightarrow> record_key \<Rightarrow> channel \<Rightarrow> ('sw event_loop, unit) op" where
  "run_get_kad_record N k ch s =
     (case so_get_record N k (el_swarm s) of
        (i, sw) \<Rightarrow> (Ok (), insert_query i (QGetRecord ch) (s\<lparr>el_swarm := sw\<rparr>)))"

definition run_put_kad_record :: "('sw, 'ver) swarm_ops \<Rightarrow> kad_record list \<Rightarrow> u32 \<Rightarrow> ('sw event_loop, unit) op" where
  "run_put_kad_record N rs block_num s = put_records N rs (monitor_block block_num (length rs) s)"

definition run_count_connected_peers :: "('sw, 'ver) swarm_ops \<Rightarrow> draws \<Rightarrow> channel \<Rightarrow> ('sw event_loop, unit) op" where
  "run_count_connected_peers N D ch s =
     expect_reply D ''CountDHTPeers receiver dropped'' ch (CountReply (Ok (so_num_peers N (el_swarm s)))) s"

definition run_get_local_info :: "('sw, 'ver) swarm_ops \<Rightarrow> draws \<Rightarrow> channel \<Rightarrow> ('sw event_loop, unit) op" where
  "run_get_local_info N D ch s =
     expect_reply D ''GetLocalInfo receiver dropped'' ch
       (InfoReply (Ok \<lparr>lin_peer_id = so_peer_id_text N (so_local_peer_id N (el_swarm s)),
                       lin_local_listeners = so_listeners N (el_swarm s),
                       lin_external_listeners = so_external_addresses N (el_swarm s)\<rparr>)) s"

definition run_list_connected_peers :: "('sw, 'ver) swarm_ops \<Rightarrow> draws \<Rightarrow> channel \<Rightarrow> ('sw event_loop, unit) op" where
  "run_list_connected_peers N D ch s =
     expect_reply D ''CountDHTPeers receiver dropped'' ch
       (PeersReply (Ok (map (so_peer_id_text N) (so_connected_peers N (el_swarm s))))) s"

text \<open>Shrinking the hash map changes its capacity only.\<close>

definition run_reduce_kademlia_map_size :: "draws \<Rightarrow> channel \<Rightarrow> ('sw event_loop, unit) op" where
  "run_reduce_kademlia_map_size D ch = expect_reply D ''ReduceKademliaMapSize receiver dropped'' ch (UnitReply (Ok ()))"

definition run_get_kademlia_map_size :: "('sw, 'ver) swarm_ops \<Rightarrow> draws \<Rightarrow> channel \<Rightarrow> ('sw event_loop, unit) op" where
  "run_get_kademlia_map_size N D ch s =
     expect_reply D ''GetKademliaMapSize receiver dropped'' ch
       (CountReply (Ok (length (ms_all_records (store_of N s))))) s"

definition run_dial_peer ::
    "('sw, 'ver) swarm_ops \<Rightarrow> peer_id \<Rightarrow> multiaddr list \<Rightarrow> channel \<Rightarrow> ('sw event_loop, unit) op" where
  "run_dial_peer N p addrs ch =
     op_bind (swarm_op (so_dial N p addrs)) (\<lambda>_ s. (Ok (), insert_swarm_event p ch s))"

definition run_add_autonat_server ::
    "('sw, 'ver) swarm_ops \<Rightarrow> draws \<Rightarrow> peer_id \<Rightarrow> multiaddr \<Rightarrow> channel \<Rightarrow> ('sw event_loop, unit) op" where
  "run_add_autonat_server N D p addr ch s =
     expect_reply D ''AddAutonatServer receiver dropped'' ch (UnitReply (Ok ())) (on_swarm (so_add_server N p addr) s)"

fun command_run :: "('sw, 'ver) swarm_ops \<Rightarrow> draws \<Rightarrow> command \<Rightarrow> ('sw event_loop, unit) op" where
  "command_run N D (PruneExpiredRecords now ch) = run_prune_expired_records N D now ch"
| "command_run N D (StartListening addr ch) = run_start_listening N D addr ch"
| "command_run N D (AddAddress p addr) = run_add_address N p addr"
| "command_run N D (Bootstrap ch) = run_bootstrap N ch"
| "command_run N D (GetKadRecord k ch) = run_get_kad_record N k ch"
| "command_run N D (PutKadRecord rs block_num) = run_put_kad_record N rs block_num"
| "command_run N D (CountConnectedPeers ch) = run_count_connected_peers N D ch"
| "command_run N D (GetLocalInfo ch) = run_get_local_info N D ch"
| "command_run N D (ListConnectedPeers ch) = run_list_connected_peers N D ch"
| "command_run N D (ReduceKademliaMapSize ch) = run_reduce_kademlia_map_size D ch"
| "command_run N D (GetKademliaMapSize ch) = run_get_kademlia_map_size N D ch"
| "command_run N D (DialPeer p addrs ch) = run_dial_peer N p addrs ch"
| "command_run N D (AddAutonatServer p addr ch) = run_add_autonat_server N D p addr ch"

text \<open>A command that fails has not taken its sender yet, so \<open>abort\<close> finds it. The commands that cannot fail ignore the error.\<close>

definition abort_start_listening :: "draws \<Rightarrow> channel \<Rightarrow> report \<Rightarrow> ('sw event_loop, unit) op" where
  "abort_start_listening D ch e = expect_reply D ''StartListening receiver dropped'' ch (UnitReply (Err e))"

definition abort_bootstrap :: "draws \<Rightarrow> channel \<Rightarrow> report \<Rightarrow> ('sw event_loop, unit) op" where
  "abort_bootstrap D ch e = expect_reply D ''Bootstrap receiver dropped'' ch (UnitReply (Err e))"

definition abort_get_kad_record :: "draws \<Rightarrow> channel \<Rightarrow> report \<Rightarrow> ('sw event_loop, unit) op" where
  "abort_get_kad_record D ch e = expect_reply D ''GetKadRecord receiver dropped'' ch (RecordReply (Err e))"

definition abort_count_connected_peers :: "draws \<Rightarrow> channel \<Rightarrow> report \<Rightarrow> ('sw event_loop, unit) op" where
  "abort_count_connected_peers D ch e = expect_reply D ''CountDHTPeers receiver dropped'' ch (CountReply (Err e))"

definition abort_get_local_info :: "draws \<Rightarrow> channel \<Rightarrow> report \<Rightarrow> ('sw event_loop, unit) op" where
  "abort_get_local_info D ch e = expect_reply D ''GetLocalInfo receiver dropped'' ch (InfoReply (Err e))"

definition abort_list_connected_peers :: "draws \<Rightarrow> channel \<Rightarrow> report \<Rightarrow> ('sw event_loop, unit) op" where
  "abort_list_connected_peers D ch e = expect_reply D ''CountDHTPeers receiver dropped'' ch (PeersReply (Err e))"

definition abort_dial_peer :: "draws \<Rightarrow> channel \<Rightarrow> report \<Rightarrow> ('sw event_loop, unit) op" where
  "abort_dial_peer D ch e = expect_reply D ''DialPeer receiver dropped'' ch (ConnectionReply (Err e))"

fun command_abort :: "draws \<Rightarrow> report \<Rightarrow> command \<Rightarrow> ('sw event_loop, unit) op" where
  "command_abort D e (StartListening addr ch) = abort_start_listening D ch e"
| "command_abort D e (Bootstrap ch) = abort_bootstrap D ch e"
| "command_abort D e (GetKadRecord k ch) = abort_get_kad_record D ch e"
| "command_abort D e (CountConnectedPeers ch) = abort_count_connected_peers D ch e"
| "command_abort D e (GetLocalInfo ch) = abort_get_local_info D ch e"
| "command_abort D e (ListConnectedPeers ch) = abort_list_connected_peers D ch e"
| "command_abort D e (DialPeer p addrs ch) = abort_dial_peer D ch e"
| "command_abort D e (PruneExpiredRecords now ch) = op_return ()"
| "command_abort D e (AddAddress p a) = op_return ()"
| "command_abort D e (PutKadRecord rs b) = op_return ()"
| "command_abort D e (ReduceKademliaMapSize ch) = op_return ()"
| "command_abort D e (GetKademliaMapSize ch) = op_return ()"
| "command_abort D e (AddAutonatServer p a ch) = op_return ()"

definition handle_command :: "('sw, 'ver) swarm_ops \<Rightarrow> draws \<Rightarrow> command \<Rightarrow> ('sw event_loop, unit) op" where
  "handle_command N D c s =
     (case command_run N D c s of
        (Err e, s') \<Rightarrow> command_abort D e c s'
      | (r, s') \<Rightarrow> (r, s'))"

section \<open>The loop\<close>

datatype el_input =
    SwarmInput swarm_event
  | CommandInput command
  | CommandsClosed
  | BootstrapTick
  | ShutdownTriggered

fun el_step :: "('sw, 'ver) swarm_ops \<Rightarrow> draws \<Rightarrow> el_input \<Rightarrow> ('sw event_loop, unit) op" where
  "el_step N D (SwarmInput e) s = (Ok (), handle_event N D e s)"
| "el_step N D (CommandInput c) s = handle_command N D c s"
| "el_step N D BootstrapTick s = (Ok (), handle_periodic_bootstraps N s)"
| "el_step N D CommandsClosed s = (Ok (), s)"
| "el_step N D ShutdownTriggered s = (Ok (), s)"

text \<open>The loop takes what \<open>select!\<close> gives until the commands are closed or the shutdown is triggered. The end of the list is
  the point up to which the loop is observed.\<close>

fun el_loop :: "('sw, 'ver) swarm_ops \<Rightarrow> (draws \<times> el_input) list \<Rightarrow> ('sw event_loop, unit) op" where
  "el_loop N [] s = (Ok (), s)"
| "el_loop N ((D, i) # is) s =
     (if i = CommandsClosed \<or> i = ShutdownTriggered then (Ok (), disconnect_peers N s)
      else op_bind (el_step N D i) (\<lambda>_. el_loop N is) s)"

definition event_loop_run ::
    "('sw, 'ver) swarm_ops \<Rightarrow> string controller \<Rightarrow> (draws \<times> el_input) list \<Rightarrow> ('sw event_loop, unit) op" where
  "event_loop_run N c is s =
     (case delay_token c of
        Ok _ \<Rightarrow> el_loop N is s
      | _ \<Rightarrow> (Panic ''There should not be any shutdowns at the begging of the P2P Event Loop'', s))"

section \<open>The key pair\<close>

text \<open>\<open>digest\<close> is SHA3-256, \<open>from_bytes\<close> is \<open>Keypair::ed25519_from_bytes\<close>, \<open>decode_hex\<close> fails unless the text is 32 bytes in
  hexadecimal, \<open>generated\<close> is the key pair of \<open>generate_ed25519\<close>.\<close>

definition keypair ::
    "(bytes \<Rightarrow> bytes) \<Rightarrow> (bytes \<Rightarrow> 'kp result) \<Rightarrow> (bytes \<Rightarrow> bytes result) \<Rightarrow> 'kp \<Rightarrow> ('kp \<Rightarrow> string) \<Rightarrow>
     libp2p_config \<Rightarrow> ('kp \<times> string) result" where
  "keypair digest from_bytes decode_hex generated peer_id_of cfg =
     map_res (\<lambda>kp. (kp, peer_id_of kp))
       (case lp_secret_key cfg of
          Some (SeedKey sd) \<Rightarrow> wrap_err ''error generating secret key from seed'' (from_bytes (digest (as_bytes sd)))
        | Some (RawKey k) \<Rightarrow>
            and_then (wrap_err ''error decoding secret key from config'' (decode_hex (as_bytes k))) (\<lambda>b.
              wrap_err ''error importing secret key'' (from_bytes b))
        | None \<Rightarrow> Ok generated)"

section \<open>What a run is measured by\<close>

text \<open>The queries that a run issues, with the key of the record for an upload.\<close>

fun issued_puts ::
    "('sw, 'ver) swarm_ops \<Rightarrow> kad_record list \<Rightarrow> 'sw event_loop \<Rightarrow> (query_id \<times> record_key option) list" where
  "issued_puts N [] s = []"
| "issued_puts N (r # rs) s =
     (case swarm_op (so_put_record N r) s of
        (Ok i, s') \<Rightarrow> (i, Some (kr_key r)) # issued_puts N rs (insert_query i QPutRecord s')
      | _ \<Rightarrow> [])"

fun issued_by ::
    "('sw, 'ver) swarm_ops \<Rightarrow> el_input \<Rightarrow> 'sw event_loop \<Rightarrow> (query_id \<times> record_key option) list" where
  "issued_by N (CommandInput (PutKadRecord rs b)) s = issued_puts N rs (monitor_block b (length rs) s)"
| "issued_by N (CommandInput (GetKadRecord k ch)) s = [(fst (so_get_record N k (el_swarm s)), None)]"
| "issued_by N (CommandInput (Bootstrap ch)) s =
     (case so_bootstrap N (el_swarm s) of (Ok i, _) \<Rightarrow> [(i, None)] | _ \<Rightarrow> [])"
| "issued_by N _ s = []"

fun issued ::
    "('sw, 'ver) swarm_ops \<Rightarrow> (draws \<times> el_input) list \<Rightarrow> 'sw event_loop \<Rightarrow> (query_id \<times> record_key option) list" where
  "issued N [] s = []"
| "issued N ((D, i) # is) s =
     (if i = CommandsClosed \<or> i = ShutdownTriggered then []
      else issued_by N i s @ (case el_step N D i s of (Ok _, s') \<Rightarrow> issued N is s' | _ \<Rightarrow> []))"

definition key_in_block :: "u32 \<Rightarrow> record_key \<Rightarrow> bool" where
  "key_in_block b k \<longleftrightarrow> (case dht_key_try_from k of Ok dk \<Rightarrow> dht_key_block dk = b | _ \<Rightarrow> False)"

text \<open>What libp2p promises of its events: the result of a query is of the kind of the query and an upload reports the key
  of its record. And what the client promises of its uploads: the keys are of the block they are counted for.\<close>

fun result_fits :: "record_key option \<Rightarrow> query_result \<Rightarrow> bool" where
  "result_fits q (PutRecordOk k) \<longleftrightarrow> q = Some k"
| "result_fits q (PutRecordError e) \<longleftrightarrow> q = Some (put_error_key e)"
| "result_fits q r \<longleftrightarrow> q = None"

fun input_fits :: "(query_id \<Rightarrow> record_key option) \<Rightarrow> el_input \<Rightarrow> bool" where
  "input_fits key_of (SwarmInput (Kademlia (OutboundQueryProgressed i r stats))) \<longleftrightarrow> result_fits (key_of i) r"
| "input_fits key_of (CommandInput (PutKadRecord rs b)) \<longleftrightarrow> list_all (\<lambda>r. key_in_block b (kr_key r)) rs"
| "input_fits key_of _ \<longleftrightarrow> True"

fun submitted_by :: "u32 \<Rightarrow> el_input \<Rightarrow> nat" where
  "submitted_by b (CommandInput (PutKadRecord rs b')) = (if b' = b then length rs else 0)"
| "submitted_by b _ = 0"

definition submitted :: "u32 \<Rightarrow> (draws \<times> el_input) list \<Rightarrow> nat" where
  "submitted b is = sum_list (map (\<lambda>x. submitted_by b (snd x)) is)"

definition outstanding :: "(query_id \<Rightarrow> record_key option) \<Rightarrow> u32 \<Rightarrow> 'sw event_loop \<Rightarrow> query_id set" where
  "outstanding key_of b s =
     {i. el_pending_kad_queries s i \<noteq> None \<and> (case key_of i of Some k \<Rightarrow> key_in_block b k | None \<Rightarrow> False)}"

text \<open>\<open>extra\<close> is the number of uploads of the block that are counted already but not issued yet.\<close>

definition block_inv ::
    "(query_id \<Rightarrow> record_key option) \<Rightarrow> nat \<Rightarrow> nat \<Rightarrow> u32 \<Rightarrow> 'sw event_loop \<Rightarrow> bool" where
  "block_inv key_of sub extra b s \<longleftrightarrow>
     (case el_active_blocks s b of
        None \<Rightarrow> extra = 0 \<and> outstanding key_of b s = {}
      | Some st \<Rightarrow>
          unat (bs_total_count st) \<le> sub \<and>
          unat (bs_success_counter st) + unat (bs_error_counter st) + unat (bs_remaining_counter st) =
            unat (bs_total_count st) \<and>
          finite (outstanding key_of b s) \<and>
          card (outstanding key_of b s) + extra \<le> unat (bs_remaining_counter st))"

section \<open>A concrete swarm\<close>

text \<open>A swarm that numbers its queries and keeps only the record store, used where a property is applied to an
  example.\<close>

definition sample_swarm :: "(nat \<times> memory_store, nat) swarm_ops" where
  "sample_swarm = \<lparr>
     so_listen_on = (\<lambda>_ sw. (Ok (), sw)), so_dial = (\<lambda>_ _ sw. (Ok (), sw)), so_dial_not_dialing = (\<lambda>_ _ sw. (Ok (), sw)),
     so_bootstrap = (\<lambda>sw. (Ok (fst sw), (fst sw + 1, snd sw))),
     so_get_record = (\<lambda>_ sw. (fst sw, (fst sw + 1, snd sw))),
     so_put_record = (\<lambda>_ sw. (Ok (fst sw), (fst sw + 1, snd sw))),
     so_remove_record = (\<lambda>_ sw. sw), so_add_address = (\<lambda>_ _ sw. sw), so_remove_address = (\<lambda>_ _ sw. sw),
     so_remove_peer = (\<lambda>_ sw. sw), so_block_peer = (\<lambda>_ sw. sw), so_add_server = (\<lambda>_ _ sw. sw),
     so_disconnect_peer_id = (\<lambda>_ sw. sw), so_connected_peers = (\<lambda>_. []), so_num_peers = (\<lambda>_. 0),
     so_local_peer_id = (\<lambda>_. []), so_listeners = (\<lambda>_. []), so_external_addresses = (\<lambda>_. []),
     so_discovered_nodes = (\<lambda>_. []), so_store = snd, so_with_store = (\<lambda>st sw. (fst sw, st)),
     so_is_expired = (\<lambda>r t. case kr_expires r of None \<Rightarrow> False | Some e \<Rightarrow> e \<le> t),
     so_peer_id_text = (\<lambda>_. ''''), so_with_circuit = (\<lambda>a. a),
     so_parse_version = (\<lambda>_. Some 0), so_at_least = (\<lambda>a b. b \<le> a)\<rparr>"

definition sample_draws :: draws where
  "sample_draws = \<lparr>dr_now = 0, dr_peer_id = [], dr_index = 0, dr_open = (\<lambda>_. True)\<rparr>"

definition sample_store :: memory_store where
  "sample_store = memory_store_with_config [1]
     \<lparr>ms_max_records = 10, ms_max_value_bytes = 100,
      ms_providers_config = \<lparr>pc_max_providers_per_key = 5, pc_max_provided_keys = 5\<rparr>\<rparr>"

definition sample_libp2p :: libp2p_config where
  "sample_libp2p = \<lparr>lp_secret_key = None, lp_port = 37000,
     lp_identify = identify_config_of ''1.9.2'' runtime_config_default, lp_autonat = autonat_config_of runtime_config_default,
     lp_kademlia = \<lparr>kc_kad_record_ttl = 10, kc_record_replication_factor = 5, kc_record_replication_interval = None,
       kc_publication_interval = None, kc_query_timeout = 10, kc_query_parallelism = 3, kc_caching_max_peers = 1,
       kc_disjoint_query_paths = False, kc_max_kad_record_number = 10, kc_max_kad_record_size = 100,
       kc_max_kad_provided_keys = 5, kc_kademlia_mode = Client\<rparr>,
     lp_relays = [], lp_bootstrap_interval = 3600, lp_connection_idle_timeout = 30, lp_max_negotiating_inbound_streams = 128,
     lp_task_command_buffer_size = 32, lp_per_connection_event_buffer_size = 7, lp_dial_concurrency_factor = 8\<rparr>"

definition sample_loop :: "(nat \<times> memory_store) event_loop" where
  "sample_loop = event_loop_new (0, sample_store) sample_libp2p True []"

definition sample_key :: "u32 \<Rightarrow> record_key" where
  "sample_key c = as_bytes (join_on CHR '':'' (map show_word [5, 0, c]))"

definition sample_key_of :: "query_id \<Rightarrow> record_key option" where
  "sample_key_of i = (if i < 2 then Some (sample_key (word_of_nat i)) else None)"

definition upload_record :: "u32 \<Rightarrow> kad_record" where
  "upload_record c = \<lparr>kr_key = sample_key c, kr_value = [1], kr_publisher = None, kr_expires = None\<rparr>"

definition sample_inputs :: "(draws \<times> el_input) list" where
  "sample_inputs = map (Pair sample_draws)
     [CommandInput (PutKadRecord [upload_record 0, upload_record 1] 5),
      SwarmInput (Kademlia (OutboundQueryProgressed 0 (PutRecordOk (sample_key 0)) (Some 3)))]"

definition exact_stat :: "block_stat \<Rightarrow> bool" where
  "exact_stat st \<longleftrightarrow> unat (bs_success_counter st) + unat (bs_error_counter st) + unat (bs_remaining_counter st) =
     unat (bs_total_count st)"

text \<open>Two states that agree on the uploads.\<close>

definition same_uploads :: "'sw event_loop \<Rightarrow> 'sw event_loop \<Rightarrow> bool" where
  "same_uploads s t \<longleftrightarrow> el_pending_kad_queries t = el_pending_kad_queries s \<and> el_active_blocks t = el_active_blocks s"

section \<open>Lemmas: fields that stay\<close>

lemmas run_defs = run_prune_expired_records_def run_start_listening_def run_add_address_def run_bootstrap_def
  run_get_kad_record_def run_put_kad_record_def run_count_connected_peers_def run_get_local_info_def
  run_list_connected_peers_def run_reduce_kademlia_map_size_def run_get_kademlia_map_size_def run_dial_peer_def
  run_add_autonat_server_def

lemmas abort_defs = abort_start_listening_def abort_bootstrap_def abort_get_kad_record_def abort_count_connected_peers_def
  abort_get_local_info_def abort_list_connected_peers_def abort_dial_peer_def

lemma pending_frame [frame_simps]:
  "el_pending_kad_queries (send_reply D ch r s) = el_pending_kad_queries s"
  "el_pending_kad_queries (el_metric m s) = el_pending_kad_queries s"
  "el_pending_kad_queries (on_swarm f s) = el_pending_kad_queries s"
  "el_pending_kad_queries (insert_swarm_event p ch s) = el_pending_kad_queries s"
  "el_pending_kad_queries (monitor_block b n s) = el_pending_kad_queries s"
  "el_pending_kad_queries (insert_query i q s) = (el_pending_kad_queries s)(i \<mapsto> q)"
  "el_pending_kad_queries (remove_query i s) = (el_pending_kad_queries s)(i := None)"
  by (simp_all add: send_reply_def el_metric_def on_swarm_def insert_swarm_event_def monitor_block_def
      insert_query_def remove_query_def)

lemma active_frame [frame_simps]:
  "el_active_blocks (send_reply D ch r s) = el_active_blocks s"
  "el_active_blocks (el_metric m s) = el_active_blocks s"
  "el_active_blocks (on_swarm f s) = el_active_blocks s"
  "el_active_blocks (insert_swarm_event p ch s) = el_active_blocks s"
  "el_active_blocks (insert_query i q s) = el_active_blocks s"
  "el_active_blocks (remove_query i s) = el_active_blocks s"
  by (simp_all add: send_reply_def el_metric_def on_swarm_def insert_swarm_event_def insert_query_def remove_query_def)

lemma swarm_op_frame: "swarm_op m s = (r, s') \<Longrightarrow> same_uploads s s'"
  by (auto simp: swarm_op_def same_uploads_def split: prod.splits)

lemma expect_reply_frame: "expect_reply D msg ch r s = (x, s') \<Longrightarrow> same_uploads s s'"
  by (auto simp: expect_reply_def same_uploads_def split: if_splits)

lemma reply_swarm_event_frame: "same_uploads s (reply_swarm_event D p r s)"
  by (auto simp: reply_swarm_event_def same_uploads_def frame_simps split: option.splits)

lemma same_uploads_trans: "same_uploads s t \<Longrightarrow> same_uploads t u \<Longrightarrow> same_uploads s u"
  by (simp add: same_uploads_def)

lemma same_uploads_refl [simp]: "same_uploads s s"
  by (simp add: same_uploads_def)

lemma same_uploads_metric [simp]: "same_uploads s (el_metric m s)" "same_uploads s (on_swarm f s)"
  by (simp_all add: same_uploads_def frame_simps)

lemma same_uploads_relay [simp]: "same_uploads s (t\<lparr>el_relay := r\<rparr>) \<longleftrightarrow> same_uploads s t"
  by (simp add: same_uploads_def)

lemma establish_relay_circuit_frame: "same_uploads s (establish_relay_circuit N D p s)"
  by (auto simp: establish_relay_circuit_def dest: swarm_op_frame split: prod.splits res.splits)

lemma select_and_dial_relay_frame: "same_uploads s (select_and_dial_relay N D s)"
  by (auto simp: select_and_dial_relay_def Let_def same_uploads_def split: prod.splits res.splits dest!: swarm_op_frame)

lemma outstanding_same: "same_uploads s t \<Longrightarrow> outstanding key_of b t = outstanding key_of b s"
  by (simp add: same_uploads_def outstanding_def)

lemma block_inv_same: "same_uploads s t \<Longrightarrow> block_inv key_of sub extra b t = block_inv key_of sub extra b s"
  using outstanding_same [of s t key_of b] by (simp add: same_uploads_def block_inv_def cong: option.case_cong)

section \<open>Lemmas: the counters of uploads\<close>

lemma outstanding_remove: "outstanding key_of b (remove_query i s) = outstanding key_of b s - {i}"
  by (auto simp: outstanding_def frame_simps)

lemma outstanding_insert:
  "outstanding key_of b (insert_query i q s) =
     (if \<exists>k. key_of i = Some k \<and> key_in_block b k then insert i (outstanding key_of b s) else outstanding key_of b s)"
  by (auto simp: outstanding_def frame_simps split: option.splits)

lemma block_inv_remove:
  "key_of i = None \<or> el_pending_kad_queries s i = None \<Longrightarrow>
     block_inv key_of sub extra b (remove_query i s) = block_inv key_of sub extra b s"
proof -
  assume "key_of i = None \<or> el_pending_kad_queries s i = None"
  then have "outstanding key_of b (remove_query i s) = outstanding key_of b s"
    unfolding outstanding_remove by (auto simp: outstanding_def)
  then show ?thesis by (simp add: block_inv_def frame_simps cong: option.case_cong)
qed

lemma block_inv_insert_None:
  "key_of i = None \<Longrightarrow> block_inv key_of sub extra b (insert_query i q s) = block_inv key_of sub extra b s"
  by (simp add: block_inv_def frame_simps outstanding_insert cong: option.case_cong)

lemma block_inv_insert_put:
  assumes inv: "block_inv key_of sub (if b = b' then Suc n else 0) b s"
    and "key_of i = Some k" "key_in_block b' k"
  shows "block_inv key_of sub (if b = b' then n else 0) b (insert_query i q s)"
proof (cases "b = b'")
  case True
  then obtain st where "el_active_blocks s b = Some st"
    using inv by (auto simp: block_inv_def split: option.splits)
  then show ?thesis
    using inv assms(2,3) True by (auto simp: block_inv_def frame_simps outstanding_insert card_insert_if)
next
  case False
  then have "\<not> key_in_block b k" using assms(3) by (auto simp: key_in_block_def split: res.splits)
  then show ?thesis
    using inv assms(2) False by (simp add: block_inv_def frame_simps outstanding_insert cong: option.case_cong)
qed

lemma put_counted_exact:
  assumes "0 < unat (bs_remaining_counter st)"
    and "unat (bs_success_counter st) + unat (bs_error_counter st) + unat (bs_remaining_counter st) =
           unat (bs_total_count st)"
  shows "unat (bs_success_counter (put_counted e d st)) + unat (bs_error_counter (put_counted e d st)) +
           unat (bs_remaining_counter (put_counted e d st)) = unat (bs_total_count (put_counted e d st))"
    and "unat (bs_remaining_counter (put_counted e d st)) = unat (bs_remaining_counter st) - 1"
    and "bs_total_count (put_counted e d st) = bs_total_count st"
proof -
  have rem: "unat (bs_remaining_counter st - 1) = unat (bs_remaining_counter st) - 1"
    using assms(1) by (metis measure_unat unat_minus_one unat_eq_0 less_irrefl)
  have bound: "unat (bs_total_count st) < 2 ^ 64" using unsigned_less [of "bs_total_count st"] by simp
  have suc: "unat (x + 1) = unat x + 1" if "unat x < unat (bs_total_count st)" for x :: u64
    using that bound by (simp add: unat_word_ariths)
  show "unat (bs_remaining_counter (put_counted e d st)) = unat (bs_remaining_counter st) - 1"
    by (simp add: put_counted_def rem Let_def)
  show "bs_total_count (put_counted e d st) = bs_total_count st" by (simp add: put_counted_def Let_def)
  have "unat (bs_success_counter st) < unat (bs_total_count st)" "unat (bs_error_counter st) < unat (bs_total_count st)"
    using assms by linarith+
  then show "unat (bs_success_counter (put_counted e d st)) + unat (bs_error_counter (put_counted e d st)) +
           unat (bs_remaining_counter (put_counted e d st)) = unat (bs_total_count (put_counted e d st))"
    using assms by (simp add: put_counted_def rem Let_def suc)
qed

lemma handle_put_result_frame:
  "el_pending_kad_queries (handle_put_result N k d e s) = el_pending_kad_queries s"
  "el_active_blocks (handle_put_result N k d e s) =
     (case dht_key_try_from k of
        Ok dk \<Rightarrow> (case el_active_blocks s (dht_key_block dk) of
                    None \<Rightarrow> el_active_blocks s
                  | Some st \<Rightarrow> (el_active_blocks s)(dht_key_block dk \<mapsto>
                      put_counted e (case d of None \<Rightarrow> 0 | Some x \<Rightarrow> x) st))
      | _ \<Rightarrow> el_active_blocks s)"
  by (simp_all add: handle_put_result_def Let_def frame_simps split: res.split option.split)

lemma handle_put_result_inv:
  assumes inv: "block_inv key_of sub 0 b s" and pend: "el_pending_kad_queries s i \<noteq> None" and key: "key_of i = Some k"
  shows "block_inv key_of sub 0 b (handle_put_result N k d e (remove_query i s))" (is "block_inv _ _ _ _ ?t")
proof (cases "key_in_block b k")
  case False
  then have "outstanding key_of b ?t = outstanding key_of b s"
    using key by (auto simp: outstanding_def handle_put_result_frame frame_simps)
  moreover have "el_active_blocks ?t b = el_active_blocks s b"
    using False by (auto simp: handle_put_result_frame frame_simps key_in_block_def split: res.splits option.splits)
  ultimately show ?thesis using inv by (simp add: block_inv_def cong: option.case_cong)
next
  case True
  then obtain dk where dk: "dht_key_try_from k = Ok dk" "dht_key_block dk = b"
    by (auto simp: key_in_block_def split: res.splits)
  have mem: "i \<in> outstanding key_of b s" using pend key True by (simp add: outstanding_def)
  then obtain st where st: "el_active_blocks s b = Some st"
    using inv by (auto simp: block_inv_def split: option.splits)
  then have fin: "finite (outstanding key_of b s)" using inv by (simp add: block_inv_def)
  have out: "outstanding key_of b ?t = outstanding key_of b s - {i}"
    by (auto simp: outstanding_def handle_put_result_frame frame_simps)
  have pos: "0 < card (outstanding key_of b s)" using mem fin by (auto simp: card_gt_0_iff)
  then have "0 < unat (bs_remaining_counter st)" using inv st by (simp add: block_inv_def)
  from put_counted_exact [OF this] inv st mem pos fin out dk show ?thesis
    by (simp add: block_inv_def handle_put_result_frame frame_simps diff_le_mono)
qed

lemma handle_query_result_inv:
  assumes "block_inv key_of sub 0 b s" "result_fits (key_of i) r"
  shows "block_inv key_of sub 0 b (handle_query_result N D i r stats s)"
proof -
  have same: "block_inv key_of sub 0 b (remove_query i s)" if "key_of i = None"
    using assms(1) that by (simp add: block_inv_remove)
  have reply: "same_uploads (remove_query i s) (send_reply D ch x (remove_query i s))" for ch x
    by (simp add: same_uploads_def frame_simps)
  have reply': "same_uploads (remove_query i s) ((send_reply D ch x (remove_query i s))\<lparr>el_is_startup_done := y\<rparr>)" for ch x y
    by (simp add: same_uploads_def frame_simps)
  show ?thesis
    using assms same
    by (cases r) (auto simp: block_inv_same [OF reply] block_inv_same [OF reply']
          split: option.split query_channel.split intro: handle_put_result_inv [OF assms(1)])
qed

lemma handle_event_same:
  "(\<And>i r stats. e \<noteq> Kademlia (OutboundQueryProgressed i r stats)) \<Longrightarrow> same_uploads s (handle_event N D e s)"
proof (cases e)
  case (Kademlia k)
  assume "\<And>i r stats. e \<noteq> Kademlia (OutboundQueryProgressed i r stats)"
  with Kademlia show ?thesis
    by (cases k) (auto simp: handle_inbound_put_def Let_def same_uploads_def frame_simps split: option.splits res.splits)
next
  case (Identify x)
  then show ?thesis by (cases x) (auto simp: same_uploads_def frame_simps split: res.splits)
next
  case (Mdns x)
  then show ?thesis by (cases x) auto
next
  case (AutoNat x)
  then show ?thesis by (cases x) (auto simp: select_and_dial_relay_frame)
next
  case (Ping x)
  then show ?thesis by (cases x) auto
next
  case (ConnectionEstablished x)
  then show ?thesis
    by (auto intro: same_uploads_trans [OF _ same_uploads_trans [OF reply_swarm_event_frame establish_relay_circuit_frame]])
next
  case (OutgoingConnectionError p w x)
  have "same_uploads s (reply_swarm_event D q (Err x) (if w then on_swarm f (el_metric m s) else el_metric m s))" for q f m
    by (rule same_uploads_trans [OF _ reply_swarm_event_frame]) (simp add: same_uploads_def frame_simps)
  with OutgoingConnectionError show ?thesis by (auto simp: Let_def split: option.splits)
qed auto

lemma handle_event_inv:
  assumes "block_inv key_of sub 0 b s" "input_fits key_of (SwarmInput e)"
  shows "block_inv key_of sub 0 b (handle_event N D e s)"
proof (cases "\<exists>i r stats. e = Kademlia (OutboundQueryProgressed i r stats)")
  case True
  with assms show ?thesis by (auto intro: handle_query_result_inv)
next
  case False
  then show ?thesis using assms(1) block_inv_same [OF handle_event_same] by blast
qed

lemma put_records_inv:
  assumes "block_inv key_of sub (if b = b' then length rs else 0) b s"
    and "list_all (\<lambda>r. key_in_block b' (kr_key r)) rs"
    and "\<And>i q. (i, q) \<in> set (issued_puts N rs s) \<Longrightarrow> key_of i = q"
    and "put_records N rs s = (x, s')"
  shows "\<exists>extra. block_inv key_of sub extra b s' \<and> (x = Ok () \<longrightarrow> extra = 0)"
  using assms
proof (induction rs arbitrary: s)
  case Nil
  then show ?case by (auto split: if_splits)
next
  case (Cons r rs)
  obtain y t where yt: "swarm_op (so_put_record N r) s = (y, t)" by force
  have inv: "block_inv key_of sub (if b = b' then Suc (length rs) else 0) b t"
    using Cons.prems(1) by (auto simp: block_inv_same [OF swarm_op_frame [OF yt]] split: if_splits)
  show ?case
  proof (cases y)
    case (Ok i)
    have "key_of i = Some (kr_key r)" using Cons.prems(3) yt Ok by simp
    then have "block_inv key_of sub (if b = b' then length rs else 0) b (insert_query i QPutRecord t)"
      using block_inv_insert_put [OF inv] Cons.prems(2) by simp
    from Cons.IH [OF this] Cons.prems(2,3,4) yt Ok show ?thesis by auto
  qed (use inv Cons.prems(4) yt in auto)
qed

lemma block_inv_extra: "block_inv key_of sub extra b s \<Longrightarrow> block_inv key_of sub 0 b s"
  by (auto simp: block_inv_def split: option.splits)

lemma monitor_block_inv:
  assumes inv: "block_inv key_of sub 0 b s" and small: "sub + (if b' = b then n else 0) < 2 ^ 64"
  shows "block_inv key_of (sub + (if b' = b then n else 0)) (if b = b' then n else 0) b (monitor_block b' n s)"
proof -
  have out: "outstanding key_of b (monitor_block b' n s) = outstanding key_of b s"
    by (simp add: outstanding_def frame_simps)
  have n: "unat (word_of_nat n :: u64) = n" if "b' = b" using small that by (simp add: unat_of_nat)
  show ?thesis
  proof (cases "el_active_blocks s b")
    case None
    then show ?thesis
      using inv n unfolding block_inv_def out by (auto simp: monitor_block_def)
  next
    case (Some st)
    have add: "unat (x + word_of_nat n) = unat x + n" if "unat x \<le> sub" "b' = b" for x :: u64
      using that small n by (simp add: unat_word_ariths)
    have "unat (bs_remaining_counter st) \<le> sub" "unat (bs_total_count st) \<le> sub"
      using inv Some by (auto simp: block_inv_def)
    then show ?thesis
      using inv add Some unfolding block_inv_def out
      by (auto simp: monitor_block_def increase_block_stat_counters_def)
  qed
qed

lemma command_run_same:
  "\<lbrakk>\<And>rs b. c \<noteq> PutKadRecord rs b; \<And>k ch. c \<noteq> GetKadRecord k ch; \<And>ch. c \<noteq> Bootstrap ch;
    command_run N D c s = (x, s')\<rbrakk> \<Longrightarrow> same_uploads s s'"
  by (cases c)
    (auto simp: run_defs op_bind_def insert_swarm_event_def Let_def same_uploads_def frame_simps
       dest!: expect_reply_frame swarm_op_frame split: prod.splits res.splits)

lemma command_abort_same: "command_abort D e c s = (x, s') \<Longrightarrow> same_uploads s s'"
  by (cases c) (auto simp: op_return_def abort_defs dest: expect_reply_frame)

lemma handle_command_inv:
  assumes inv: "block_inv key_of sub 0 b s" and fits: "input_fits key_of (CommandInput c)"
    and small: "sub + submitted_by b (CommandInput c) < 2 ^ 64"
    and issued: "\<And>i q. (i, q) \<in> set (issued_by N (CommandInput c) s) \<Longrightarrow> key_of i = q"
    and run: "handle_command N D c s = (x, s')"
  shows "block_inv key_of (sub + submitted_by b (CommandInput c)) 0 b s'"
proof -
  obtain y t where yt: "command_run N D c s = (y, t)" by force
  have "block_inv key_of (sub + submitted_by b (CommandInput c)) 0 b t"
  proof (cases c)
    case (PutKadRecord rs b')
    have "block_inv key_of (sub + (if b' = b then length rs else 0)) (if b = b' then length rs else 0) b
            (monitor_block b' (length rs) s)"
      using monitor_block_inv [OF inv] small PutKadRecord by simp
    from put_records_inv [OF this, of N y t] fits issued yt PutKadRecord show ?thesis
      by (auto simp: run_put_kad_record_def dest: block_inv_extra)
  next
    case (GetKadRecord k ch)
    obtain i sw where i: "so_get_record N k (el_swarm s) = (i, sw)" by force
    have "same_uploads s (s\<lparr>el_swarm := sw\<rparr>)" by (simp add: same_uploads_def)
    with i issued yt GetKadRecord inv show ?thesis by (auto simp: run_get_kad_record_def block_inv_insert_None block_inv_same)
  next
    case (Bootstrap ch)
    obtain r u where u: "swarm_op (so_bootstrap N) s = (r, u)" by force
    then have "fst (so_bootstrap N (el_swarm s)) = r" by (auto simp: swarm_op_def split: prod.splits)
    then have "key_of i = None" if "r = Ok i" for i
      using issued [of i None] that Bootstrap by (cases "so_bootstrap N (el_swarm s)") auto
    moreover have "block_inv key_of sub 0 b u" using inv block_inv_same [OF swarm_op_frame [OF u]] by simp
    ultimately show ?thesis
      using u yt Bootstrap by (auto simp: run_bootstrap_def op_bind_def block_inv_insert_None split: res.splits)
  qed (use inv block_inv_same [OF command_run_same [OF _ _ _ yt]] in auto)
  then show ?thesis
    using run yt by (auto simp: handle_command_def block_inv_same [OF command_abort_same] split: res.splits)
qed

lemma el_step_inv:
  assumes "block_inv key_of sub 0 b s" "input_fits key_of i" "sub + submitted_by b i < 2 ^ 64"
    and "\<And>j q. (j, q) \<in> set (issued_by N i s) \<Longrightarrow> key_of j = q" "el_step N D i s = (x, s')"
  shows "block_inv key_of (sub + submitted_by b i) 0 b s'"
proof (cases i)
  case (SwarmInput e)
  with assms show ?thesis by (auto intro: handle_event_inv)
next
  case (CommandInput c)
  with assms show ?thesis by (auto intro!: handle_command_inv)
next
  case BootstrapTick
  have "same_uploads s (handle_periodic_bootstraps N s)"
    by (auto simp: handle_periodic_bootstraps_def swarm_op_frame [OF surjective_pairing])
  from block_inv_same [OF this] assms BootstrapTick show ?thesis by simp
qed (use assms in auto)

lemma block_inv_mono: "block_inv key_of sub extra b s \<Longrightarrow> sub \<le> sub' \<Longrightarrow> block_inv key_of sub' extra b s"
  by (auto simp: block_inv_def split: option.splits)

lemma el_loop_inv:
  assumes "block_inv key_of sub 0 b s" "list_all (\<lambda>x. input_fits key_of (snd x)) is" "sub + submitted b is < 2 ^ 64"
    and "\<And>j q. (j, q) \<in> set (issued N is s) \<Longrightarrow> key_of j = q" "el_loop N is s = (x, s')"
  shows "block_inv key_of (sub + submitted b is) 0 b s'"
  using assms
proof (induction "is" arbitrary: s sub)
  case Nil
  then show ?case by (simp add: submitted_def)
next
  case (Cons a "is")
  obtain D i where a: "a = (D, i)" by force
  have sub: "submitted b (a # is) = submitted_by b i + submitted b is" by (simp add: submitted_def a)
  obtain y t where yt: "el_step N D i s = (y, t)" by force
  show ?case
  proof (cases "i = CommandsClosed \<or> i = ShutdownTriggered")
    case True
    have "same_uploads s (disconnect_peers N s)" by (simp add: disconnect_peers_def)
    with Cons.prems True a sub show ?thesis by (auto simp: block_inv_same intro: block_inv_mono)
  next
    case False
    have inv: "block_inv key_of (sub + submitted_by b i) 0 b t"
      using Cons.prems a sub False by (intro el_step_inv [OF _ _ _ _ yt]) auto
    show ?thesis
    proof (cases y)
      case (Ok u)
      from Cons.IH [OF inv] Cons.prems a sub yt False Ok show ?thesis by (auto simp: ac_simps)
    qed (use inv Cons.prems(5) a sub yt False in \<open>auto simp: op_bind_def intro: block_inv_mono\<close>)
  qed
qed

lemma block_inv_new: "block_inv key_of 0 0 b (event_loop_new sw cfg fat p)"
  by (simp add: block_inv_def event_loop_new_def outstanding_def)

section \<open>Lemmas: keys\<close>

lemma ascii_text_as_bytes:
  assumes "list_all (\<lambda>c. of_char c < (128 :: nat)) t"
  shows "ascii_text (as_bytes t) = Ok t"
proof -
  have "unat (word_of_nat (of_char c) :: u8) = of_char c" if "of_char c < (128 :: nat)" for c
    using that by (simp add: unat_of_nat)
  then have "list_all (\<lambda>b. b < (128 :: u8)) (as_bytes t)" "map (\<lambda>b. char_of (unat b)) (as_bytes t) = t"
    using assms by (induction t) (auto simp: as_bytes_def word_less_nat_alt)
  then show ?thesis by (simp add: ascii_text_def)
qed

lemma show_word_ascii: "c \<in> set (show_word w) \<Longrightarrow> of_char c < (128 :: nat)"
  using show_word_free [of c w] by fastforce

lemma dht_key_of_numbers:
  "dht_key_try_from (as_bytes (join_on CHR '':'' (map show_word (ws :: u32 list)))) =
     (case ws of
        [b, r] \<Rightarrow> Ok (RowKey b r)
      | [b, r, c] \<Rightarrow> Ok (CellKey b r c)
      | _ \<Rightarrow> dht_key_try_from (as_bytes (join_on CHR '':'' (map show_word ws))))"
proof -
  have ascii: "list_all (\<lambda>c. of_char c < (128 :: nat)) (join_on CHR '':'' ps)"
    if "\<And>p c. p \<in> set ps \<Longrightarrow> c \<in> set p \<Longrightarrow> of_char c < (128 :: nat)" for ps
    using that by (induction "CHR '':''" ps rule: join_on.induct) (auto simp: list_all_iff)
  have "ascii_text (as_bytes (join_on CHR '':'' (map show_word ws))) = Ok (join_on CHR '':'' (map show_word ws))"
    by (rule ascii_text_as_bytes, rule ascii) (auto dest: show_word_ascii)
  moreover have "split_on CHR '':'' (join_on CHR '':'' (map show_word ws)) = map show_word ws" if "ws \<noteq> []"
    using that show_word_free [of "CHR '':''"] by (intro split_on_join_on) auto
  moreover have "collect_res (map parse_u32 (map show_word ws)) = Ok ws" by (induction ws) auto
  ultimately show ?thesis by (cases "ws = []") (auto simp: dht_key_try_from_def split: list.split)
qed

lemma sample_key: "dht_key_try_from (sample_key c) = Ok (CellKey 5 0 c)"
  using dht_key_of_numbers [of "[5, 0, c]"] by (simp add: sample_key_def)

section \<open>Lemmas: the report of a block\<close>

lemma put_counted_success:
  assumes "0 < unat (bs_remaining_counter st)" "exact_stat st"
  shows "exact_stat (put_counted e d st)"
    and "unat (bs_success_counter (put_counted e d st)) = unat (bs_success_counter st) + (if e then 0 else 1)"
proof -
  show "exact_stat (put_counted e d st)"
    using put_counted_exact(1) [OF assms(1)] assms(2) by (simp add: exact_stat_def)
  have "unat (bs_success_counter st) < 2 ^ 64 - 1"
    using assms unsigned_less [where 'a = nat and w = "bs_total_count st"] unfolding exact_stat_def by simp
  then show "unat (bs_success_counter (put_counted e d st)) = unat (bs_success_counter st) + (if e then 0 else 1)"
    by (simp add: put_counted_def Let_def unat_word_ariths)
qed

lemma handle_put_result_active:
  assumes "el_active_blocks s b = Some st" "key_in_block b k"
  shows "el_active_blocks (handle_put_result N k d e s) b = Some (put_counted e (case d of None \<Rightarrow> 0 | Some x \<Rightarrow> x) st)"
  using assms by (auto simp: handle_put_result_frame key_in_block_def split: res.splits)

lemma handle_put_result_metrics:
  assumes "el_active_blocks s b = Some st" "key_in_block b k"
  shows "el_metrics (handle_put_result N k d e s) = el_metrics s @
    (let st' = put_counted e (case d of None \<Rightarrow> 0 | Some x \<Rightarrow> x) st
     in if bs_remaining_counter st' = 0 then
          [RecordCall (DHTPutSuccess (f64_ratio (unat (bs_success_counter st')) (unat (bs_total_count st')))),
           RecordCall (DHTPutDuration (Fin (real (unat (bs_time_stat st')))))]
        else [])"
  using assms by (auto simp: handle_put_result_def key_in_block_def Let_def el_metric_def on_swarm_def split: res.splits)

lemma fold_results:
  assumes "el_active_blocks s b = Some st" "list_all (\<lambda>(k, d, e). key_in_block b k) rs"
    and "unat (bs_remaining_counter st) = length rs + Suc m" "exact_stat st"
  shows "\<exists>st'. el_active_blocks (fold (\<lambda>(k, d, e). handle_put_result N k d e) rs s) b = Some st' \<and>
     unat (bs_remaining_counter st') = Suc m \<and> exact_stat st' \<and> bs_total_count st' = bs_total_count st \<and>
     unat (bs_success_counter st') = unat (bs_success_counter st) + length (filter (\<lambda>(k, d, e). \<not> e) rs) \<and>
     el_metrics (fold (\<lambda>(k, d, e). handle_put_result N k d e) rs s) = el_metrics s"
  using assms
proof (induction rs arbitrary: s st)
  case Nil
  then show ?case by auto
next
  case (Cons a rs)
  obtain k d e where a: "a = (k, d, e)" by (cases a)
  define st1 where "st1 = put_counted e (case d of None \<Rightarrow> 0 | Some x \<Rightarrow> x) st"
  have pos: "0 < unat (bs_remaining_counter st)" using Cons.prems(3) by simp
  have key: "key_in_block b k" using Cons.prems(2) a by simp
  have rem: "unat (bs_remaining_counter st1) = length rs + Suc m"
    using put_counted_exact(2) [OF pos] Cons.prems(3,4) by (simp add: st1_def exact_stat_def)
  then have "el_metrics (handle_put_result N k d e s) = el_metrics s"
    using handle_put_result_metrics [OF Cons.prems(1) key, of N d e] by (auto simp: st1_def [symmetric] Let_def)
  moreover have "bs_total_count st1 = bs_total_count st"
    by (simp add: st1_def put_counted_def Let_def)
  ultimately show ?case
    using Cons.IH [OF handle_put_result_active [OF Cons.prems(1) key, of N d e, folded st1_def]] Cons.prems(2) rem a
      put_counted_success [OF pos Cons.prems(4), of e "case d of None \<Rightarrow> 0 | Some x \<Rightarrow> x", folded st1_def]
    by (auto split: if_splits)
qed

section \<open>Properties\<close>

text \<open>C16: The counters of a block's uploads are exact. In any run of the event loop in which the swarm answers
  uploads with their keys and fewer than 2^64 records are uploaded for the block, whatever else happens and even
  if the run ends with a panic: the successes, the errors and the remaining uploads add up to the total without
  overflow, the total is at most what was submitted, and the remaining counter is at least the number of
  unanswered uploads, so that decrementing it never wraps.\<close>

theorem upload_counters_exact:
  assumes "el_loop N is (event_loop_new sw cfg fat p) = (x, s)"
    and "list_all (\<lambda>(D, i). input_fits key_of i) is"
    and "list_all (\<lambda>(i, q). key_of i = q) (issued N is (event_loop_new sw cfg fat p))"
    and "submitted b is < 2 ^ 64"
    and "el_active_blocks s b = Some st"
  shows "unat (bs_success_counter st) + unat (bs_error_counter st) + unat (bs_remaining_counter st) =
           unat (bs_total_count st) \<and>
         unat (bs_total_count st) \<le> submitted b is \<and>
         card (outstanding key_of b s) \<le> unat (bs_remaining_counter st)"
proof -
  have "block_inv key_of (0 + submitted b is) 0 b s"
    using assms by (intro el_loop_inv [OF block_inv_new _ _ _ assms(1)]) (auto simp: list_all_iff)
  then show ?thesis using assms(5) by (simp add: block_inv_def)
qed

lemma sample_uploads:
  "map_option (\<lambda>st. bs_remaining_counter st) (el_active_blocks (snd (el_loop sample_swarm sample_inputs sample_loop)) 5) = Some 1"
  "list_all (\<lambda>(D, i). input_fits sample_key_of i) sample_inputs"
  "list_all (\<lambda>(i, q). sample_key_of i = q) (issued sample_swarm sample_inputs sample_loop)"
  "submitted 5 sample_inputs < 2 ^ 64"
  by (simp_all add: sample_inputs_def sample_key_of_def key_in_block_def sample_key upload_record_def
      submitted_def sample_swarm_def run_put_kad_record_def op_bind_def handle_command_def swarm_op_def monitor_block_def insert_query_def sample_loop_def
      event_loop_new_def remove_query_def handle_put_result_def Let_def put_counted_def sample_libp2p_def on_swarm_def)

theorem upload_counters_exact_witness:
  "\<exists>st. el_active_blocks (snd (el_loop sample_swarm sample_inputs sample_loop)) 5 = Some st \<and>
     unat (bs_success_counter st) + unat (bs_error_counter st) + unat (bs_remaining_counter st) = unat (bs_total_count st) \<and>
     bs_remaining_counter st = 1"
proof -
  obtain st where "el_active_blocks (snd (el_loop sample_swarm sample_inputs sample_loop)) 5 = Some st"
    "bs_remaining_counter st = 1"
    using sample_uploads(1) by auto
  with upload_counters_exact [OF surjective_pairing sample_uploads(2) sample_uploads(3) [unfolded sample_loop_def] sample_uploads(4)]
  show ?thesis unfolding sample_loop_def by blast
qed

text \<open>What is reported for the uploads of a block. When the last of the \<open>n\<close> uploads of a block is answered,
  the share of the successes among all \<open>n\<close> and the duration of the last query are recorded, once and in this order,
  whatever the order of the successes and errors.\<close>

theorem upload_report_exact:
  assumes "el_active_blocks s b = Some \<lparr>bs_total_count = word_of_nat n, bs_remaining_counter = word_of_nat n,
      bs_success_counter = 0, bs_error_counter = 0, bs_time_stat = t\<rparr>"
    and "list_all (\<lambda>(k, d, e). key_in_block b k) (rs @ [(k, d, e)])"
    and "length rs + 1 = n" "n < 2 ^ 64"
  shows "el_metrics (fold (\<lambda>(k, d, e). handle_put_result N k d e) (rs @ [(k, d, e)]) s) =
    el_metrics s @
     [RecordCall (DHTPutSuccess (Fin (real (length (filter (\<lambda>(k, d, e). \<not> e) (rs @ [(k, d, e)]))) / real n))),
      RecordCall (DHTPutDuration (Fin (real (unat (case d of None \<Rightarrow> 0 | Some secs \<Rightarrow> secs)))))]"
proof -
  let ?st = "\<lparr>bs_total_count = word_of_nat n, bs_remaining_counter = word_of_nat n,
      bs_success_counter = 0, bs_error_counter = 0, bs_time_stat = t\<rparr>"
  have n: "unat (word_of_nat n :: u64) = n" using assms(4) by (simp add: unat_of_nat)
  then have ex: "exact_stat ?st" by (simp add: exact_stat_def)
  let ?s = "fold (\<lambda>(k, d, e). handle_put_result N k d e) rs s"
  obtain st where st: "el_active_blocks ?s b = Some st" "unat (bs_remaining_counter st) = 1" "exact_stat st"
      "bs_total_count st = word_of_nat n" "unat (bs_success_counter st) = length (filter (\<lambda>(k, d, e). \<not> e) rs)"
      "el_metrics ?s = el_metrics s"
    using fold_results [OF assms(1), of rs 0 N] assms(2,3) n ex by auto
  define st' where "st' = put_counted e (case d of None \<Rightarrow> 0 | Some x \<Rightarrow> x) st"
  have "unat (bs_remaining_counter st') = 0"
    using put_counted_exact(2) [of st] st(2,3) by (simp add: st'_def exact_stat_def)
  moreover have "unat (bs_success_counter st') = length (filter (\<lambda>(k, d, e). \<not> e) (rs @ [(k, d, e)]))"
    using put_counted_success(2) [of st e] st(2,3,5) by (simp add: st'_def)
  moreover have "unat (bs_total_count st') = n" "bs_time_stat st' = (case d of None \<Rightarrow> 0 | Some x \<Rightarrow> x)"
    using st(4) n by (simp_all add: st'_def put_counted_def Let_def)
  moreover have "0 < n" using assms(3) by simp
  ultimately show ?thesis
    using handle_put_result_metrics [OF st(1), of k N d e] assms(2) st(6)
    by (simp add: st'_def [symmetric] Let_def f64_ratio_def unat_eq_0)
qed

theorem upload_report_exact_witness:
  "el_metrics (handle_put_result sample_swarm (sample_key 1) (Some 4) False
     (handle_put_result sample_swarm (sample_key 0) None True (monitor_block 5 2 sample_loop))) =
   [RecordCall (DHTPutSuccess (Fin (1 / 2))), RecordCall (DHTPutDuration (Fin 4))]"
proof -
  have "el_active_blocks (monitor_block 5 2 sample_loop) 5 = Some \<lparr>bs_total_count = word_of_nat 2,
      bs_remaining_counter = word_of_nat 2, bs_success_counter = 0, bs_error_counter = 0, bs_time_stat = 0\<rparr>"
    by (simp add: monitor_block_def sample_loop_def event_loop_new_def)
  from upload_report_exact [OF this, of "[(sample_key 0, None, True)]" "sample_key 1" "Some 4" False sample_swarm]
  show ?thesis by (simp add: key_in_block_def sample_key monitor_block_def sample_loop_def event_loop_new_def)
qed

text \<open>A record from the network that comes without an expiry is kept without one. The incoming expiry is
  lowered to the time to live of the node with \<open>min\<close>, in which no expiry is the least value, so that the store never
  prunes the record.\<close>

theorem incoming_record_without_expiry_kept:
  assumes "kr_expires r = None" "length (kr_value r) < ms_max_value_bytes (ms_config (store_of N s))"
    and "length (ms_records (store_of N s)) < ms_max_records (ms_config (store_of N s))"
    and "\<And>st sw. so_store N (so_with_store N st sw) = st"
  shows "ms_get (store_of N (handle_event N D (Kademlia (InboundPutRecord (Some r))) s)) (kr_key r) = Some r"
  using assms
  by (auto simp: handle_inbound_put_def Let_def ms_put_def ms_get_def store_of_def on_swarm_def el_metric_def update_conv'
      split: option.splits)

theorem incoming_record_without_expiry_kept_witness:
  "ms_get (store_of sample_swarm (handle_event sample_swarm sample_draws
     (Kademlia (InboundPutRecord (Some (upload_record 0)))) sample_loop)) (sample_key 0) =
   Some (upload_record 0)"
proof -
  have "length (kr_value (upload_record 0)) < ms_max_value_bytes (ms_config (store_of sample_swarm sample_loop))"
    "length (ms_records (store_of sample_swarm sample_loop)) < ms_max_records (ms_config (store_of sample_swarm sample_loop))"
    by code_simp+
  with incoming_record_without_expiry_kept [of "upload_record 0" sample_swarm sample_loop sample_draws]
  show ?thesis by (simp add: upload_record_def sample_swarm_def)
qed

text \<open>The cells that a client inserts are counted for their block. The client sends one command with a record
  for each cell, and the event loop reads the block number back from every key, so that the answers of the uploads
  reach the counters of the block. The references of cells are a block number and two more numbers.\<close>

theorem inserted_cells_counted:
  assumes "\<And>p. \<exists>x y :: u32. cell_reference K p b = join_on CHR '':'' (map show_word [b, x, y])"
    and "insert_cells_into_dht K alive now ttl_secs b cells q = (Ok (), q')"
  shows "\<exists>rs. q' = q @ [PutKadRecord rs b] \<and> map kr_value rs = map cell_content cells \<and> cells \<noteq> [] \<and>
    list_all (\<lambda>r. key_in_block b (kr_key r)) rs"
proof -
  have "key_in_block b (as_bytes (cell_reference K p b))" for p
  proof -
    obtain x y :: u32 where "cell_reference K p b = join_on CHR '':'' (map show_word [b, x, y])" using assms(1) by blast
    then show ?thesis using dht_key_of_numbers [of "[b, x, y]"] by (simp add: key_in_block_def)
  qed
  then show ?thesis
    using assms(2)
    by (auto simp: insert_cells_into_dht_def insert_into_dht_def send_command_def cell_dht_record_def list_all_iff
        op_lift_def split: if_splits)
qed

theorem inserted_cells_counted_witness:
  "\<exists>rs. insert_cells_into_dht sample_kate True 0 10 5 [\<lparr>cell_position = \<lparr>pos_row = 0, pos_col = 1\<rparr>, cell_content = [7]\<rparr>] [] =
     (Ok (), [PutKadRecord rs 5]) \<and> list_all (\<lambda>r. key_in_block 5 (kr_key r)) rs"
proof -
  have up: "unat (ucast w :: u32) = unat w" for w :: u16 by (transfer, simp)
  have ref: "\<exists>x y :: u32. cell_reference sample_kate p 5 = join_on CHR '':'' (map show_word [5, x, y])" for p
    by (rule exI [of _ "pos_row p"], rule exI [of _ "ucast (pos_col p)"]) (simp add: show_word_def up)
  obtain q' where run: "insert_cells_into_dht sample_kate True 0 10 5
      [\<lparr>cell_position = \<lparr>pos_row = 0, pos_col = 1\<rparr>, cell_content = [7]\<rparr>] [] = (Ok (), q')"
    by (simp add: insert_cells_into_dht_def insert_into_dht_def send_command_def)
  from inserted_cells_counted [OF ref run] run show ?thesis by auto
qed

end
