(* ===== verification/Sampling.thy ===== *)
theory Sampling
  imports Subscriptions
begin

text \<open>
  The parts of \<open>src/network/rpc.rs\<close> that are not the client itself: the list of nodes, the choice
  of random cells, the number of cells for a confidence, and waiting for the first finalized header.

  The random generator is a list of raw draws, and a draw out of a range is reduced modulo its
  size; the loop of \<open>generate_random_cells\<close> returns \<open>None\<close> when the draws do not suffice. The shuffle of
  the node list and the iteration order of the \<open>HashSet\<close> are functions that permute a list. The
  computation of the cell count is modelled in exact real arithmetic.
\<close>

section \<open>Nodes\<close>

definition nodes_new :: "string list \<Rightarrow> node list" where
  "nodes_new nodes = map (\<lambda>s. \<lparr>node_host = s, node_system_version = '''', node_spec_version = 0,
                              node_genesis_hash = 0\<rparr>) nodes"

definition nodes_shuffle :: "(node list \<Rightarrow> node list) \<Rightarrow> string \<Rightarrow> node list \<Rightarrow> node list" where
  "nodes_shuffle permute current_host nodes =
     (if length nodes \<le> 1 then nodes
      else permute (filter (\<lambda>n. node_host n \<noteq> current_host) nodes))"

text \<open>\<open>NodesIterator::next\<close>: the item and the next index.\<close>

definition nodes_next :: "node list \<Rightarrow> nat \<Rightarrow> node option \<times> nat" where
  "nodes_next nodes i = (if i < length nodes then Some (nodes ! i) else None, i + 1)"

section \<open>Random cells\<close>

text \<open>The set of positions, newest first. One round draws the column, then the row; the loop
  compares the truncated sizes.\<close>

definition draw_position :: "('dim, 'lk) kate \<Rightarrow> 'dim \<Rightarrow> nat \<Rightarrow> nat \<Rightarrow> position" where
  "draw_position K dims c r =
     \<lparr>pos_row = word_of_nat (r mod unat (extended_rows K dims)),
      pos_col = word_of_nat (c mod unat (dim_cols K dims))\<rparr>"

fun draw_cells ::
    "('dim, 'lk) kate \<Rightarrow> 'dim \<Rightarrow> u16 \<Rightarrow> position list \<Rightarrow> (nat \<times> nat) list \<Rightarrow> position list option" where
  "draw_cells K dims cnt indices draws =
     (if \<not> (word_of_nat (length indices) :: u16) < cnt then Some indices
      else (case draws of
              [] \<Rightarrow> None
            | (c, r) # ds \<Rightarrow> draw_cells K dims cnt (List.insert (draw_position K dims c r) indices) ds))"

declare draw_cells.simps [simp del]

definition generate_random_cells ::
    "('dim, 'lk) kate \<Rightarrow> (position list \<Rightarrow> position list) \<Rightarrow> 'dim \<Rightarrow> u32 \<Rightarrow> (nat \<times> nat) list \<Rightarrow>
     position list option" where
  "generate_random_cells K permute dims cell_count draws =
     (let max_cells = extended_size K dims;
          cnt = (if max_cells < cell_count then max_cells else cell_count)
      in map_option permute (draw_cells K dims (ucast cnt) [] draws))"

section \<open>Cells for a confidence\<close>

definition CELL_COUNT_99_99 :: u32 where "CELL_COUNT_99_99 = 14"

text \<open>\<open>(-((1 - x).log2())).ceil() as u32\<close>: the logarithm of zero is minus infinity, and the cast
  saturates at both ends.\<close>

definition count_for :: "real \<Rightarrow> u32" where
  "count_for x =
     (if 1 - x \<le> 0 then 4294967295
      else (let n = \<lceil>- log 2 (1 - x)\<rceil> in if n < 0 then 0 else if n > 4294967295 then 4294967295 else word_of_int n))"

definition cell_count_for_confidence :: "f64 \<Rightarrow> u32" where
  "cell_count_for_confidence confidence =
     (let cell_count =
            (case confidence of
               Fin c \<Rightarrow> if 50 \<le> c \<and> c \<le> 100 then count_for (c / 100) else count_for (993 / 1000)
             | _ \<Rightarrow> count_for (993 / 1000))
      in if cell_count \<le> 1 then 1
         else if cell_count > CELL_COUNT_99_99 then CELL_COUNT_99_99
         else cell_count)"

section \<open>The first finalized header\<close>

text \<open>What the receiver of the events yields within the timeout: \<open>None\<close> when nothing arrives.\<close>

definition wait_for_finalized_header :: "(string, event) res option \<Rightarrow> header result" where
  "wait_for_finalized_header received =
     (case received of
        Some (Ok (HeaderUpdate hdr _)) \<Rightarrow> Ok hdr
      | Some (Err e) \<Rightarrow> Err [''Failed to receive finalized header: '' @ e]
      | Some (Panic m) \<Rightarrow> Panic m
      | None \<Rightarrow> Err [''Timeout on waiting for first finalized header''])"

section \<open>Lemmas on the drawing of cells\<close>

definition position_ok :: "('dim, 'lk) kate \<Rightarrow> 'dim \<Rightarrow> position \<Rightarrow> bool" where
  "position_ok K dims p \<longleftrightarrow> pos_row p < extended_rows K dims \<and> pos_col p < dim_cols K dims"

lemma unat_u16_less [simp]: "unat (w :: u16) < 65536"
  using unsigned_less [of w] by simp

lemma word_of_nat_mod_less:
  fixes w :: "'a::len word"
  assumes "0 < w"
  shows "word_of_nat (a mod unat w) < w"
proof -
  have "0 < unat w" using assms by (simp add: word_less_nat_alt)
  then have "a mod unat w < unat w" by simp
  moreover have "unat w < 2 ^ LENGTH('a)" by (rule unsigned_less)
  ultimately have "unat (word_of_nat (a mod unat w) :: 'a word) = a mod unat w"
    by (simp only: unat_of_nat) (rule mod_less, rule less_trans)
  with \<open>a mod unat w < unat w\<close> show ?thesis by (simp only: word_less_nat_alt)
qed

lemma draw_position_ok:
  "0 < extended_rows K dims \<Longrightarrow> 0 < dim_cols K dims \<Longrightarrow>
     position_ok K dims (draw_position K dims c r)"
  by (simp add: position_ok_def draw_position_def word_of_nat_mod_less)

lemma unat_u16_of_length:
  "length xs \<le> unat (w :: u16) \<Longrightarrow> unat (word_of_nat (length xs) :: u16) = length xs"
  using unat_u16_less [of w] by (simp add: unat_of_nat take_bit_nat_eq_self del: unat_u16_less)

lemma draw_cells_Some:
  assumes "draw_cells K dims cnt indices draws = Some ps" and "distinct indices"
    and "\<And>p. p \<in> set indices \<Longrightarrow> position_ok K dims p"
    and "0 < extended_rows K dims" "0 < dim_cols K dims" and "length indices \<le> unat cnt"
  shows "distinct ps \<and> (\<forall>p \<in> set ps. position_ok K dims p) \<and> length ps = unat cnt"
  using assms
proof (induction K dims cnt indices draws rule: draw_cells.induct)
  case (1 K dims cnt indices draws)
  have len: "unat (word_of_nat (length indices) :: u16) = length indices"
    by (rule unat_u16_of_length [OF "1.prems"(6)])
  show ?case
  proof (cases "(word_of_nat (length indices) :: u16) < cnt")
    case False
    then have "length indices = unat cnt" using "1.prems"(6) len by (simp add: word_less_nat_alt)
    with False "1.prems" show ?thesis by (auto simp: draw_cells.simps [of K dims cnt indices])
  next
    case True
    then have less: "length indices < unat cnt" using len by (simp add: word_less_nat_alt)
    from True "1.prems"(1) obtain c r ds where d: "draws = (c, r) # ds"
      and rest: "draw_cells K dims cnt (List.insert (draw_position K dims c r) indices) ds = Some ps"
      by (auto simp: draw_cells.simps [of K dims cnt indices draws] split: list.splits prod.splits)
    show ?thesis
    proof (rule "1.IH" [OF _ d refl rest])
      show "\<not> \<not> (word_of_nat (length indices) :: u16) < cnt" using True by simp
      show "distinct (List.insert (draw_position K dims c r) indices)" using "1.prems"(2) by simp
      show "length (List.insert (draw_position K dims c r) indices) \<le> unat cnt"
        using less by (simp add: List.insert_def)
    qed (use "1.prems" draw_position_ok in auto)
  qed
qed

text \<open>Draws that hit enough different positions suffice.\<close>

lemma draw_cells_enough:
  assumes "unat cnt \<le> card (set indices \<union> (\<lambda>(c, r). draw_position K dims c r) ` set draws)"
    and "distinct indices" and "length indices \<le> unat cnt"
  shows "\<exists>ps. draw_cells K dims cnt indices draws = Some ps"
  using assms
proof (induction K dims cnt indices draws rule: draw_cells.induct)
  case (1 K dims cnt indices draws)
  have len: "unat (word_of_nat (length indices) :: u16) = length indices"
    by (rule unat_u16_of_length [OF "1.prems"(3)])
  show ?case
  proof (cases "(word_of_nat (length indices) :: u16) < cnt")
    case False
    then show ?thesis by (simp add: draw_cells.simps [of K dims cnt indices])
  next
    case True
    then have less: "length indices < unat cnt" using len by (simp add: word_less_nat_alt)
    show ?thesis
    proof (cases draws)
      case Nil
      with "1.prems"(1,2) less show ?thesis by (simp add: distinct_card)
    next
      case (Cons d ds)
      obtain c r where d: "d = (c, r)" by (cases d)
      let ?i = "List.insert (draw_position K dims c r) indices"
      have "set ?i \<union> (\<lambda>(c, r). draw_position K dims c r) ` set ds =
            set indices \<union> (\<lambda>(c, r). draw_position K dims c r) ` set draws"
        using Cons d by auto
      moreover have "length ?i \<le> unat cnt" using less by (simp add: List.insert_def)
      ultimately have "\<exists>ps. draw_cells K dims cnt ?i ds = Some ps"
        using "1.prems"(1,2) by (intro "1.IH" [OF _ Cons d [symmetric]]) (simp_all add: True)
      with True show ?thesis
        unfolding Cons d by (subst draw_cells.simps) simp
    qed
  qed
qed

text \<open>Whatever the dimensions are, a loop that ended has drawn as many cells as were asked for, without repetition.\<close>

lemma draw_cells_shape:
  "\<lbrakk>draw_cells K dims cnt indices draws = Some ps; distinct indices; length indices \<le> unat cnt\<rbrakk> \<Longrightarrow>
     distinct ps \<and> length ps = unat cnt"
proof (induction K dims cnt indices draws rule: draw_cells.induct)
  case (1 K dims cnt indices draws)
  have len: "unat (word_of_nat (length indices) :: u16) = length indices"
    by (rule unat_u16_of_length [OF "1.prems"(3)])
  show ?case
  proof (cases "(word_of_nat (length indices) :: u16) < cnt")
    case False
    then have "length indices = unat cnt" using "1.prems"(3) len by (simp add: word_less_nat_alt)
    with False "1.prems" show ?thesis by (auto simp: draw_cells.simps [of K dims cnt indices])
  next
    case True
    then have less: "length indices < unat cnt" using len by (simp add: word_less_nat_alt)
    with True "1.prems"(1) obtain c r ds where draws: "draws = (c, r) # ds"
      and rest: "draw_cells K dims cnt (List.insert (draw_position K dims c r) indices) ds = Some ps"
      by (auto simp: draw_cells.simps [of K dims cnt indices] split: list.splits)
    show ?thesis
      by (rule "1.IH" [OF _ draws refl rest]) (use True "1.prems"(2) less in \<open>simp_all add: List.insert_def\<close>)
  qed
qed

lemma generate_random_cells_shape:
  assumes "generate_random_cells K permute dims n draws = Some ps" "\<And>ps. mset (permute ps) = mset ps"
    and "n < 65536" "n \<le> extended_size K dims"
  shows "distinct ps \<and> length ps = unat n"
proof -
  have n: "unat (ucast n :: u16) = unat n"
    using assms(3) by (simp add: unsigned_ucast_eq word_less_nat_alt take_bit_nat_eq_self)
  obtain qs where q: "draw_cells K dims (ucast n) [] draws = Some qs" "ps = permute qs"
    using assms(1,4) by (auto simp: generate_random_cells_def Let_def not_less [symmetric])
  with draw_cells_shape [OF q(1)] n mset_eq_length [OF assms(2)] mset_eq_imp_distinct_iff [OF assms(2)] show ?thesis by simp
qed

section \<open>Lemmas on the cell count\<close>

lemma ceiling_log_bounds:
  assumes "0 < y" and "y \<le> 1 / 2" and "1 / 2 ^ 14 \<le> y"
  shows "\<exists>k. \<lceil>- log 2 y\<rceil> = int k \<and> 1 \<le> k \<and> k \<le> 14 \<and> 1 / 2 ^ k \<le> y \<and> y < 1 / 2 ^ (k - 1)"
proof -
  let ?L = "- log 2 y"
  define k where "k = nat \<lceil>?L\<rceil>"
  have "?L \<le> 14"
  proof -
    have "log 2 (1 / 2 ^ 14) \<le> log 2 y" using assms by simp
    moreover have "log 2 (1 / 2 ^ 14 :: real) = - 14"
      using log_nat_power [of 2 2 14] by (simp add: log_divide del: power_numeral)
    ultimately show ?thesis by simp
  qed
  moreover have "1 \<le> ?L"
  proof -
    have "log 2 y \<le> log 2 (1 / 2)" using assms by simp
    then show ?thesis by (simp add: log_divide)
  qed
  ultimately have ki: "\<lceil>?L\<rceil> = int k" "1 \<le> k" "k \<le> 14"
    unfolding k_def by (simp_all add: ceiling_le_iff le_ceiling_iff) (linarith | simp add: nat_le_iff ceiling_le_iff)+
  have y: "y = 2 powr (- ?L)" using assms(1) by simp
  have "?L \<le> real k" using ki(1) le_of_int_ceiling [of ?L] by simp
  then have lo: "2 powr (- real k) \<le> y" by (subst y) simp
  have "real k - 1 < ?L" using ki(1) ceiling_correct [of ?L] by simp
  then have hi: "y < 2 powr (- (real k - 1))" by (subst y) simp
  have "2 powr (- real k) = 1 / 2 ^ k" by (simp add: powr_minus powr_realpow divide_inverse)
  moreover have "2 powr (- (real k - 1)) = 1 / 2 ^ (k - 1)"
  proof -
    have "real k - 1 = real (k - 1)" using ki(2) by simp
    then show ?thesis by (simp only: powr_minus powr_realpow divide_inverse mult_1)
  qed
  ultimately show ?thesis using ki lo hi by (intro exI [of _ k]) simp
qed

lemma count_for_default: "count_for (993 / 1000) = 8"
proof -
  have y: "\<lceil>- log 2 (7 / 1000 :: real)\<rceil> = 8"
  proof -
    obtain k where k: "\<lceil>- log 2 (7 / 1000 :: real)\<rceil> = int k" "1 \<le> k" "k \<le> 14"
        "1 / 2 ^ k \<le> (7 / 1000 :: real)" "(7 / 1000 :: real) < 1 / 2 ^ (k - 1)"
      using ceiling_log_bounds [of "7 / 1000"] by auto
    have "k < 9"
    proof (rule ccontr)
      assume "\<not> k < 9"
      then have "(1 :: real) / 2 ^ (k - 1) \<le> 1 / 2 ^ 8" by (intro divide_left_mono power_increasing) auto
      from less_le_trans [OF k(5) this] show False by simp
    qed
    moreover have "7 < k"
    proof (rule ccontr)
      assume "\<not> 7 < k"
      then have "(1 :: real) / 2 ^ 7 \<le> 1 / 2 ^ k" by (intro divide_left_mono power_increasing) auto
      from order_trans [OF this k(4)] show False by simp
    qed
    ultimately have "k = 8" by simp
    with k(1) show ?thesis by simp
  qed
  then show ?thesis by (simp add: count_for_def)
qed

lemma count_for_bounds:
  assumes "50 \<le> c" and "c \<le> 100 * (1 - 1 / 2 ^ 14)"
  shows "\<exists>k. count_for (c / 100) = word_of_nat k \<and> 1 \<le> k \<and> k \<le> 14 \<and>
    c \<le> 100 * (1 - 1 / 2 ^ k) \<and> 100 * (1 - 1 / 2 ^ (k - 1)) < c"
proof -
  have y: "0 < 1 - c / 100" "1 - c / 100 \<le> 1 / 2" "1 / 2 ^ 14 \<le> 1 - c / 100"
    using assms by (simp_all add: field_simps)
  from ceiling_log_bounds [OF this] obtain k where k: "\<lceil>- log 2 (1 - c / 100)\<rceil> = int k" "1 \<le> k" "k \<le> 14"
      "1 / 2 ^ k \<le> 1 - c / 100" "1 - c / 100 < 1 / 2 ^ (k - 1)" by blast
  have "count_for (c / 100) = word_of_nat k" using y(1) k(1,3) by (simp add: count_for_def)
  moreover have "c \<le> 100 * (1 - 1 / 2 ^ k)" using k(4) by argo
  moreover have "100 * (1 - 1 / 2 ^ (k - 1)) < c" using k(5) by argo
  ultimately show ?thesis using k(2,3) by blast
qed

lemma cell_count_range:
  "1 \<le> cell_count_for_confidence c \<and> cell_count_for_confidence c \<le> 14"
  by (auto simp: cell_count_for_confidence_def Let_def CELL_COUNT_99_99_def word_le_nat_alt word_less_nat_alt)

lemma cell_count_confidence:
  assumes "50 \<le> c" and "c \<le> 100 * (1 - 1 / 2 ^ 14)"
  shows "\<exists>r s. calculate_confidence (cell_count_for_confidence (Fin c)) = Fin r \<and> c \<le> r \<and>
    calculate_confidence (cell_count_for_confidence (Fin c) - 1) = Fin s \<and>
    (1 < cell_count_for_confidence (Fin c) \<longrightarrow> s < c)"
proof -
  obtain k where k: "count_for (c / 100) = word_of_nat k" "1 \<le> k" "k \<le> 14"
      "c \<le> 100 * (1 - 1 / 2 ^ k)" "100 * (1 - 1 / 2 ^ (k - 1)) < c"
    using count_for_bounds [OF assms] by blast
  have u: "unat (word_of_nat k :: u32) = k" using k(3) by (simp add: unat_u32_of_nat)
  have "c \<le> 100" using assms(2) by simp
  then have n: "cell_count_for_confidence (Fin c) = word_of_nat k"
    using assms(1) k(1-3) u
    by (auto simp: cell_count_for_confidence_def Let_def CELL_COUNT_99_99_def word_less_nat_alt word_le_nat_alt)
  have u': "unat (word_of_nat k - 1 :: u32) = k - 1"
    using u k(2) by (subst unat_minus_one) auto
  show ?thesis
    using k(2-5) u u' by (simp add: n calculate_confidence_small)
qed

section \<open>Properties\<close>



text \<open>Whatever the configured value is, infinities and NaN included, between 1 and 14 cells are
  sampled; a value outside 50 to 100 means 8 cells.\<close>

theorem cell_count_bounds:
  "1 \<le> cell_count_for_confidence c \<and> cell_count_for_confidence c \<le> 14 \<and>
   ((\<nexists>x. c = Fin x \<and> 50 \<le> x \<and> x \<le> 100) \<longrightarrow> cell_count_for_confidence c = 8)"
proof -
  have "cell_count_for_confidence c = 8" if "\<nexists>x. c = Fin x \<and> 50 \<le> x \<and> x \<le> 100"
    using that by (cases c) (auto simp: cell_count_for_confidence_def count_for_default CELL_COUNT_99_99_def
      word_le_nat_alt)
  with cell_count_range show ?thesis by blast
qed

theorem cell_count_bounds_witness: "cell_count_for_confidence NaN = 8"
  using cell_count_bounds [of NaN] by simp

text \<open>C25: The loop that draws random cells ends as soon as the draws have hit enough different positions, and
  then returns exactly the requested number of cells, or all of the matrix when it is
  smaller, without repetition and all inside the extended matrix. The number is compared at 16 bits, so it has
  to fit there.\<close>

theorem generate_random_cells_correct:
  assumes "0 < extended_rows K dims" and "0 < dim_cols K dims"
    and "min cell_count (extended_size K dims) < 65536"
    and "unat (min cell_count (extended_size K dims)) \<le> card ((\<lambda>(c, r). draw_position K dims c r) ` set draws)"
    and "\<And>ps. mset (permute ps) = mset ps"
  shows "\<exists>ps. generate_random_cells K permute dims cell_count draws = Some ps \<and>
    length ps = unat (min cell_count (extended_size K dims)) \<and> distinct ps \<and>
    list_all (position_ok K dims) ps"
proof -
  let ?n = "min cell_count (extended_size K dims)"
  have n: "unat (ucast ?n :: u16) = unat ?n"
    using assms(3) by (simp add: unsigned_ucast_eq word_less_nat_alt take_bit_nat_eq_self)
  obtain ps where ps: "draw_cells K dims (ucast ?n) [] draws = Some ps"
    using draw_cells_enough [of "ucast ?n" "[]" K dims draws] assms(4) n by auto
  have d: "distinct ps \<and> (\<forall>p \<in> set ps. position_ok K dims p) \<and> length ps = unat (ucast ?n :: u16)"
    by (rule draw_cells_Some [OF ps]) (simp_all add: assms(1,2))
  have "generate_random_cells K permute dims cell_count draws = Some (permute ps)"
    using ps by (auto simp: generate_random_cells_def Let_def min_def split: if_splits)
  moreover have "length (permute ps) = length ps" "distinct (permute ps) = distinct ps"
      "set (permute ps) = set ps"
    using mset_eq_length [OF assms(5)] mset_eq_imp_distinct_iff [OF assms(5)] mset_eq_setD [OF assms(5)]
    by auto
  ultimately show ?thesis using d n by (simp add: list_all_iff)
qed

theorem generate_random_cells_correct_witness:
  "\<exists>ps. generate_random_cells sample_kate rev (1, 4) 3 [(0, 0), (0, 0), (2, 1), (3, 0)] = Some ps \<and>
     length ps = 3 \<and> distinct ps"
proof -
  let ?draws = "[(0, 0), (0, 0), (2, 1), (3, 0)] :: (nat \<times> nat) list"
  have "(\<lambda>(c, r). draw_position sample_kate (1, 4) c r) ` set ?draws =
      {\<lparr>pos_row = 0, pos_col = 0\<rparr>, \<lparr>pos_row = 1, pos_col = 2\<rparr>, \<lparr>pos_row = 0, pos_col = 3\<rparr>}"
    by (simp add: draw_position_def)
  then have "card ((\<lambda>(c, r). draw_position sample_kate (1, 4) c r) ` set ?draws) = 3" by simp
  then show ?thesis
    using generate_random_cells_correct [of sample_kate "(1, 4)" 3 ?draws rev]
    by (auto simp: min_def)
qed

end
