(* ===== verification/Rpc_Client.thy ===== *)
theory Rpc_Client
  imports Sampling Config
begin

text \<open>
  The RPC client (\<open>src/network/rpc/client.rs\<close>, \<open>src/consts.rs\<close>): choosing a node, retrying a call, switching to
  another node, and the methods that turn the answers of a node into the data of the clients.

  The connection to a node is an \<open>AvailClient\<close> of the crate \<open>avail_subxt\<close>: a value of the type \<open>'cl\<close>, with the calls
  that the sources make as fields of \<open>subxt_env\<close> and \<open>node_api\<close>; \<open>'w\<close> is the state of the outside world, which every
  call may change. \<open>tokio_retry::Retry::spawn\<close> under \<open>with_cancel\<close> is a parameter too, one for each of the two places
  where it is used (\<open>retries\<close>): it runs an action and returns the outcome, or the reason of a shutdown. While a call runs, the
  current client is not replaced by another call.

  The lemmas show that the client only ever switches to a configured node with the right genesis hash and version,
  that a call that succeeds at once changes nothing, and what the cells of \<open>request_kate_proof\<close> are.
\<close>

section \<open>Expected nodes\<close>

definition EXPECTED_SYSTEM_VERSION :: "string list" where "EXPECTED_SYSTEM_VERSION = [''2.1'']"

record expected_node_variant =
  en_system_version :: "string list"

definition expected_node_default :: expected_node_variant where
  "expected_node_default = \<lparr>en_system_version = EXPECTED_SYSTEM_VERSION\<rparr>"

fun matches_any :: "string list \<Rightarrow> string \<Rightarrow> bool" where
  "matches_any [] version = False"
| "matches_any (v # vs) version = (if starts_with version v then True else matches_any vs version)"

definition expected_node_matches :: "expected_node_variant \<Rightarrow> string \<Rightarrow> bool" where
  "expected_node_matches e version = matches_any (en_system_version e) version"

section \<open>Connecting\<close>

record ('w, 'cl) subxt_env =
  sx_connect :: "string \<Rightarrow> ('w, 'cl) op"
  sx_genesis_hash :: "'cl \<Rightarrow> h256"
  sx_system_version :: "'cl \<Rightarrow> ('w, string) op"
  sx_spec_version :: "'cl \<Rightarrow> u32"
  sx_from_hex :: "string \<Rightarrow> bytes option"
  sx_h256_from :: "bytes \<Rightarrow> h256"

definition configured_hash :: "('w, 'cl) subxt_env \<Rightarrow> string \<Rightarrow> h256 option" where
  "configured_hash X expected_hash =
     (case sx_from_hex X expected_hash of
        Some b \<Rightarrow> if length b = 32 then Some (sx_h256_from X b) else None
      | None \<Rightarrow> None)"

definition check_genesis_hash :: "('w, 'cl) subxt_env \<Rightarrow> string \<Rightarrow> 'cl \<Rightarrow> unit result" where
  "check_genesis_hash X expected_hash client =
     (case configured_hash X expected_hash of
        Some cfg_genhash \<Rightarrow>
          if sx_genesis_hash X client \<noteq> cfg_genhash then
            Err [''Genesis hash doesn't match the configured one! Change the config or the node url.'']
          else Ok ()
      | None \<Rightarrow>
          if starts_with expected_hash DEV_FLAG_GENHASH then Ok ()
          else Err [''Genesis hash invalid, badly configured or missing.''])"

definition create_subxt_client ::
    "('w, 'cl) subxt_env \<Rightarrow> string \<Rightarrow> expected_node_variant \<Rightarrow> string \<Rightarrow> ('w, 'cl \<times> node) op" where
  "create_subxt_client X host expected_node expected_hash =
     op_bind (sx_connect X host) (\<lambda>client.
     op_bind (op_lift (check_genesis_hash X expected_hash client)) (\<lambda>_.
     op_bind (sx_system_version X client) (\<lambda>system_version.
       if \<not> expected_node_matches expected_node system_version then
         op_lift (Err [''Expected Node system version not found. Skipping to another node.''])
       else
         op_return (client, \<lparr>node_host = host, node_system_version = system_version,
           node_spec_version = sx_spec_version X client, node_genesis_hash = sx_genesis_hash X client\<rparr>))))"

fun try_connect_and_execute ::
    "('w, 'cl) subxt_env \<Rightarrow> expected_node_variant \<Rightarrow> string \<Rightarrow> ('cl \<Rightarrow> ('w, 'a) op) \<Rightarrow> node list \<Rightarrow>
     ('w, 'cl \<times> node \<times> 'a) op" where
  "try_connect_and_execute X expected_node expected_hash f [] w =
     (Err [''Failed to connect any appropriate working node''], w)"
| "try_connect_and_execute X expected_node expected_hash f (n # ns) w =
     (case op_bind (create_subxt_client X (node_host n) expected_node expected_hash) (\<lambda>(client, node).
             op_bind (f client) (\<lambda>res. op_return (client, node, res))) w of
        (Err _, w') \<Rightarrow> try_connect_and_execute X expected_node expected_hash f ns w'
      | ok \<Rightarrow> ok)"

section \<open>Retries\<close>

type_synonym ('w, 'a) cancellable = "'w \<Rightarrow> (string + 'a result) \<times> 'w"

record ('w, 'cl, 'a) retries =
  rt_call :: "('w, 'a) op \<Rightarrow> ('w, 'a) cancellable"
  rt_connect :: "('w, 'cl \<times> node \<times> 'a) op \<Rightarrow> ('w, 'cl \<times> node \<times> 'a) cancellable"
  rt_permute :: "node list \<Rightarrow> node list"

record ('w, 'cl) rpc_client =
  rc_world :: 'w
  rc_subxt_client :: 'cl
  rc_state :: state
  rc_nodes :: "node list"
  rc_expected_genesis_hash :: string

text \<open>\<open>Client::new\<close>.\<close>

definition rpc_client_new ::
    "('w, 'cl) subxt_env \<Rightarrow> ('w, 'cl, unit) retries \<Rightarrow> state \<Rightarrow> node list \<Rightarrow> string \<Rightarrow> 'w \<Rightarrow>
     ('w, 'cl) rpc_client result \<times> 'w" where
  "rpc_client_new X R st nodes expected_hash w =
     (case rt_connect R (try_connect_and_execute X expected_node_default expected_hash (\<lambda>_. op_return ())
             (nodes_shuffle (rt_permute R) '''' nodes)) w of
        (Inr (Ok (client, node, _)), w') \<Rightarrow>
          (Ok \<lparr>rc_world = w', rc_subxt_client = client, rc_state = st\<lparr>st_connected_node := node\<rparr>,
               rc_nodes = nodes, rc_expected_genesis_hash = expected_hash\<rparr>, w')
      | (Inr (Err e), w') \<Rightarrow> (Err e, w')
      | (Inr (Panic m), w') \<Rightarrow> (Panic m, w')
      | (Inl reason, w') \<Rightarrow> (Err [''RPC Client creation Retry strategy halted due to shutdown'', reason], w'))"

definition with_retries ::
    "('w, 'cl) subxt_env \<Rightarrow> ('w, 'cl, 'a) retries \<Rightarrow> ('cl \<Rightarrow> ('w, 'a) op) \<Rightarrow> (('w, 'cl) rpc_client, 'a) op" where
  "with_retries X R f c =
     (case rt_call R (f (rc_subxt_client c)) (rc_world c) of
        (Inr (Ok result), w) \<Rightarrow> (Ok result, c\<lparr>rc_world := w\<rparr>)
      | (Inr (Panic m), w) \<Rightarrow> (Panic m, c\<lparr>rc_world := w\<rparr>)
      | (Inl reason, w) \<Rightarrow> (Err [''RPC Client call Retry Strategy halted due to shutdown'', reason], c\<lparr>rc_world := w\<rparr>)
      | (Inr (Err _), w) \<Rightarrow>
          (case rt_connect R (try_connect_and_execute X expected_node_default (rc_expected_genesis_hash c) f
                  (nodes_shuffle (rt_permute R) (node_host (st_connected_node (rc_state c))) (rc_nodes c))) w of
             (Inr (Ok (client, node, result)), w') \<Rightarrow>
               (Ok result, c\<lparr>rc_world := w', rc_subxt_client := client,
                             rc_state := (rc_state c)\<lparr>st_connected_node := node\<rparr>\<rparr>)
           | (Inr (Err e), w') \<Rightarrow> (Err e, c\<lparr>rc_world := w'\<rparr>)
           | (Inr (Panic m), w') \<Rightarrow> (Panic m, c\<lparr>rc_world := w'\<rparr>)
           | (Inl reason, w') \<Rightarrow>
               (Err [''RPC Node selection for passed Client calls' Retry Strategy halted due to shutdown'', reason],
                c\<lparr>rc_world := w'\<rparr>)))"

section \<open>Methods\<close>

record ('w, 'cl) node_api =
  na_chain_get_block_hash :: "'cl \<Rightarrow> u32 \<Rightarrow> ('w, h256 option) op"
  na_block_header :: "'cl \<Rightarrow> h256 \<Rightarrow> ('w, header option) op"
  na_grandpa_authorities :: "'cl \<Rightarrow> h256 \<Rightarrow> ('w, (public_key \<times> u64) list) op"
  na_finalized_head :: "'cl \<Rightarrow> ('w, h256) op"
  na_current_set_id :: "'cl \<Rightarrow> h256 \<Rightarrow> ('w, u64 option) op"
  na_query_rows :: "'cl \<Rightarrow> u32 list \<Rightarrow> h256 \<Rightarrow> ('w, h256 list list) op"
  na_query_proof :: "'cl \<Rightarrow> (u32 \<times> u32) list \<Rightarrow> h256 \<Rightarrow> ('w, (h256 \<times> bytes) list) op"
  na_rows_fit :: "nat \<Rightarrow> bool"
  na_cells_fit :: "nat \<Rightarrow> bool"

definition get_block_hash ::
    "('w, 'cl) subxt_env \<Rightarrow> ('w, 'cl) node_api \<Rightarrow> ('w, 'cl, h256 option) retries \<Rightarrow> u32 \<Rightarrow> (('w, 'cl) rpc_client, h256) op" where
  "get_block_hash X A R n =
     op_bind (with_retries X R (\<lambda>client. na_chain_get_block_hash A client n)) (\<lambda>hash.
       op_lift (ok_or [''Block not found''] hash))"

definition get_header_by_hash ::
    "('w, 'cl) subxt_env \<Rightarrow> ('w, 'cl) node_api \<Rightarrow> ('w, 'cl, header) retries \<Rightarrow> h256 \<Rightarrow> (('w, 'cl) rpc_client, header) op" where
  "get_header_by_hash X A R hash =
     op_wrap_err ''Block Header not found''
       (with_retries X R (\<lambda>client. op_bind (na_block_header A client hash) (\<lambda>h.
          op_lift (ok_or [''Block Header not found''] h))))"

definition get_header_by_block_number ::
    "('w, 'cl) subxt_env \<Rightarrow> ('w, 'cl) node_api \<Rightarrow> ('w, 'cl, h256 option) retries \<Rightarrow> ('w, 'cl, header) retries \<Rightarrow> u32 \<Rightarrow>
     (('w, 'cl) rpc_client, header \<times> h256) op" where
  "get_header_by_block_number X A R1 R2 n =
     op_bind (get_block_hash X A R1 n) (\<lambda>hash.
     op_bind (get_header_by_hash X A R2 hash) (\<lambda>h. op_return (h, hash)))"

definition get_validator_set_by_hash ::
    "('w, 'cl) subxt_env \<Rightarrow> ('w, 'cl) node_api \<Rightarrow> ('w, 'cl, (public_key \<times> u64) list) retries \<Rightarrow> h256 \<Rightarrow>
     (('w, 'cl) rpc_client, public_key list) op" where
  "get_validator_set_by_hash X A R hash =
     op_bind (with_retries X R (\<lambda>client. na_grandpa_authorities A client hash)) (\<lambda>res. op_return (map fst res))"

definition get_validator_set_by_block_number ::
    "('w, 'cl) subxt_env \<Rightarrow> ('w, 'cl) node_api \<Rightarrow> ('w, 'cl, h256 option) retries \<Rightarrow>
     ('w, 'cl, (public_key \<times> u64) list) retries \<Rightarrow> u32 \<Rightarrow> (('w, 'cl) rpc_client, public_key list) op" where
  "get_validator_set_by_block_number X A R1 R2 n =
     op_bind (get_block_hash X A R1 n) (get_validator_set_by_hash X A R2)"

definition get_finalized_head_hash ::
    "('w, 'cl) subxt_env \<Rightarrow> ('w, 'cl) node_api \<Rightarrow> ('w, 'cl, h256) retries \<Rightarrow> (('w, 'cl) rpc_client, h256) op" where
  "get_finalized_head_hash X A R = with_retries X R (na_finalized_head A)"

definition get_chain_head_header ::
    "('w, 'cl) subxt_env \<Rightarrow> ('w, 'cl) node_api \<Rightarrow> ('w, 'cl, h256) retries \<Rightarrow> ('w, 'cl, header) retries \<Rightarrow>
     (('w, 'cl) rpc_client, header) op" where
  "get_chain_head_header X A R1 R2 =
     op_bind (get_finalized_head_hash X A R1) (get_header_by_hash X A R2)"

definition fetch_set_id_at ::
    "('w, 'cl) subxt_env \<Rightarrow> ('w, 'cl) node_api \<Rightarrow> ('w, 'cl, u64 option) retries \<Rightarrow> h256 \<Rightarrow> (('w, 'cl) rpc_client, u64) op" where
  "fetch_set_id_at X A R hash =
     op_bind (with_retries X R (\<lambda>client. na_current_set_id A client hash)) (\<lambda>res.
       op_lift (ok_or [''The set_id should exist''] res))"

text \<open>\<open>U256::to_big_endian\<close>.\<close>

definition to_big_endian :: "h256 \<Rightarrow> bytes" where
  "to_big_endian x = map (\<lambda>i. ucast (drop_bit (8 * (31 - i)) x)) [0 ..< 32]"

definition request_kate_rows ::
    "('w, 'cl) subxt_env \<Rightarrow> ('w, 'cl) node_api \<Rightarrow> ('w, 'cl, bytes list) retries \<Rightarrow> u32 list \<Rightarrow> h256 \<Rightarrow>
     (('w, 'cl) rpc_client, bytes list) op" where
  "request_kate_rows X A R rows hash =
     (if \<not> na_rows_fit A (length rows) then op_lift (Panic ''called `Result::unwrap()` on an `Err` value'')
      else with_retries X R (\<lambda>client. op_bind (na_query_rows A client rows hash) (\<lambda>rs.
             op_return (map (\<lambda>row. concat (map to_big_endian row)) rs))))"

definition concat_content :: "h256 \<Rightarrow> bytes \<Rightarrow> bytes result" where
  "concat_content scalar prf =
     (if length prf \<noteq> 48 then Err [''Invalid proof length''] else Ok (prf @ to_big_endian scalar))"

definition cell_of_proof :: "position \<times> h256 \<times> bytes \<Rightarrow> cell result" where
  "cell_of_proof = (\<lambda>(p, scalar, prf).
     case concat_content scalar prf of
       Ok content \<Rightarrow> Ok \<lparr>cell_position = p, cell_content = content\<rparr>
     | _ \<Rightarrow> Panic ''TODO'')"

definition request_kate_proof ::
    "('w, 'cl) subxt_env \<Rightarrow> ('w, 'cl) node_api \<Rightarrow> ('w, 'cl, (h256 \<times> bytes) list) retries \<Rightarrow> h256 \<Rightarrow> position list \<Rightarrow>
     (('w, 'cl) rpc_client, cell list) op" where
  "request_kate_proof X A R hash positions =
     (if \<not> na_cells_fit A (length positions) then op_lift (Err [''Failed to convert to cells''])
      else op_bind (with_retries X R (\<lambda>client.
               na_query_proof A client (map (\<lambda>p. (pos_row p, ucast (pos_col p))) positions) hash)) (\<lambda>proofs.
             op_lift (collect_res (map cell_of_proof (zip positions proofs)))))"

section \<open>An example node\<close>

text \<open>Two hosts, of which only the second answers; a retry is one attempt.\<close>

definition sample_subxt :: "(unit, string) subxt_env" where
  "sample_subxt = \<lparr>sx_connect = (\<lambda>host w. (Ok host, w)), sx_genesis_hash = (\<lambda>_. 7),
     sx_system_version = (\<lambda>_ w. (Ok ''2.1.3'', w)), sx_spec_version = (\<lambda>_. 1),
     sx_from_hex = (\<lambda>_. None), sx_h256_from = (\<lambda>_. 0)\<rparr>"

definition one_attempt :: "(unit, string, 'a) retries" where
  "one_attempt = \<lparr>rt_call = (\<lambda>m w. case m w of (r, w') \<Rightarrow> (Inr r, w')), rt_connect = (\<lambda>m w. case m w of (r, w') \<Rightarrow> (Inr r, w')),
     rt_permute = rev\<rparr>"

definition sample_rpc_client :: "(unit, string) rpc_client" where
  "sample_rpc_client = \<lparr>rc_world = (), rc_subxt_client = ''a'', rc_state = state_default\<lparr>st_connected_node := node_default\<lparr>node_host := ''a''\<rparr>\<rparr>,
     rc_nodes = nodes_new [''a'', ''b''], rc_expected_genesis_hash = ''DEV''\<rparr>"

definition sample_call :: "string \<Rightarrow> (unit, nat) op" where
  "sample_call host w = (if host = ''b'' then (Ok 5, w) else (Err [''no answer''], w))"

section \<open>Switching nodes\<close>

text \<open>What a node has to fulfil.\<close>

definition node_accepted :: "('w, 'cl) subxt_env \<Rightarrow> string \<Rightarrow> 'cl \<Rightarrow> node \<Rightarrow> bool" where
  "node_accepted X expected_hash client n \<longleftrightarrow>
     node_genesis_hash n = sx_genesis_hash X client \<and>
     (case configured_hash X expected_hash of
        Some h \<Rightarrow> node_genesis_hash n = h
      | None \<Rightarrow> starts_with expected_hash DEV_FLAG_GENHASH) \<and>
     (\<exists>v \<in> set EXPECTED_SYSTEM_VERSION. starts_with (node_system_version n) v)"

lemma matches_any_iff: "matches_any vs version \<longleftrightarrow> (\<exists>v \<in> set vs. starts_with version v)"
  by (induction vs) auto

lemma create_subxt_client_Ok:
  "create_subxt_client X host expected_node_default expected_hash w = (Ok (client, n), w') \<Longrightarrow>
     node_host n = host \<and> node_accepted X expected_hash client n"
  by (auto simp: create_subxt_client_def res_simps check_genesis_hash_def node_accepted_def expected_node_matches_def
      matches_any_iff expected_node_default_def split: if_splits option.splits)

lemma try_connect_and_execute_Ok:
  "try_connect_and_execute X expected_node_default expected_hash f ns w = (Ok (client, n, res), w') \<Longrightarrow>
     node_host n \<in> node_host ` set ns \<and> node_accepted X expected_hash client n \<and> (\<exists>w1. f client w1 = (Ok res, w'))"
proof (induction ns arbitrary: w)
  case Nil
  then show ?case by simp
next
  case (Cons m ns)
  let ?first = "op_bind (create_subxt_client X (node_host m) expected_node_default expected_hash) (\<lambda>(client, node).
             op_bind (f client) (\<lambda>res. op_return (client, node, res))) w"
  show ?case
  proof (cases "fst ?first")
    case (Ok y)
    then have "?first = (Ok (client, n, res), w')" using Cons.prems by (cases ?first) auto
    then show ?thesis by (auto simp: res_simps dest!: create_subxt_client_Ok)
  next
    case (Err e)
    then have "try_connect_and_execute X expected_node_default expected_hash f ns (snd ?first) = (Ok (client, n, res), w')"
      using Cons.prems by (cases ?first) auto
    from Cons.IH [OF this] show ?thesis by auto
  next
    case (Panic e)
    then show ?thesis using Cons.prems by (cases ?first) auto
  qed
qed

lemma nodes_shuffle_subset:
  assumes "\<And>ns. set (permute ns) \<subseteq> set ns"
  shows "n \<in> set (nodes_shuffle permute host ns) \<Longrightarrow> n \<in> set ns \<and> (1 < length ns \<longrightarrow> node_host n \<noteq> host)"
  using assms by (fastforce simp: nodes_shuffle_def split: if_splits)

section \<open>Cells from a node\<close>

text \<open>What a client of \<open>request_kate_proof\<close> relies on: the cells that are returned are those of the first positions.\<close>

locale cell_source =
  fixes request :: "h256 \<Rightarrow> position list \<Rightarrow> ('s, cell list) op"
  assumes request_positions: "request h ps s = (Ok cs, s') \<Longrightarrow> map cell_position cs = take (length cs) ps"
begin

lemma request_subset:
  assumes "request h ps s = (Ok cs, s')" "c \<in> set cs"
  shows "cell_position c \<in> set ps"
proof -
  have "cell_position c \<in> set (take (length cs) ps)" using assms request_positions [OF assms(1)] by (metis imageI set_map)
  then show ?thesis by (meson in_set_takeD)
qed

lemma request_distinct:
  "request h ps s = (Ok cs, s') \<Longrightarrow> distinct ps \<Longrightarrow> distinct (map cell_position cs)"
  by (simp add: request_positions)

end

lemma cell_of_proof_Ok:
  "cell_of_proof x = Ok c \<Longrightarrow> cell_position c = fst x \<and> length (cell_content c) = 80 \<and> take 48 (cell_content c) = snd (snd x)"
  by (auto simp: cell_of_proof_def concat_content_def to_big_endian_def split: prod.splits if_splits res.splits)

lemma collect_cells_positions:
  "collect_res (map cell_of_proof xs) = Ok cs \<Longrightarrow> map cell_position cs = map fst xs \<and> length cs = length xs"
  by (induction xs arbitrary: cs) (auto simp: res_simps dest: cell_of_proof_Ok)

interpretation kate_proof: cell_source "request_kate_proof X A R" for X A R
proof
  fix h ps s cs s'
  assume "request_kate_proof X A R h ps s = (Ok cs, s')"
  then obtain proofs where "collect_res (map cell_of_proof (zip ps proofs)) = Ok cs"
    by (auto simp: request_kate_proof_def res_simps op_lift_def split: if_splits)
  from collect_cells_positions [OF this] show "map cell_position cs = take (length cs) ps"
    by (simp add: map_fst_zip_take)
qed

section \<open>Properties\<close>

text \<open>C28: The client only switches to a node that it may use. Whatever a call does and however often it is retried,
  afterwards the connected node is the one before, or a configured one, different from the one that failed if there is
  more than one, whose genesis hash is the configured one, or the configuration is for development, and whose version
  is supported; and the client is then a connection to a node with that genesis hash. A retry returns what an
  attempt returned.\<close>

theorem with_retries_node:
  assumes "\<And>m w y w'. rt_connect R m w = (Inr (Ok y), w') \<Longrightarrow> \<exists>w1. m w1 = (Ok y, w')"
    and "\<And>ns. set (rt_permute R ns) \<subseteq> set ns"
    and "with_retries X R f c = (r, c')"
  shows "(rc_state c' = rc_state c \<and> rc_subxt_client c' = rc_subxt_client c) \<or>
    (\<exists>n. rc_state c' = (rc_state c)\<lparr>st_connected_node := n\<rparr> \<and> node_host n \<in> node_host ` set (rc_nodes c) \<and>
       (length (rc_nodes c) \<le> 1 \<or> node_host n \<noteq> node_host (st_connected_node (rc_state c))) \<and>
       node_accepted X (rc_expected_genesis_hash c) (rc_subxt_client c') n)"
proof -
  have switch: "node_host n \<in> node_host ` set (rc_nodes c) \<and>
       (length (rc_nodes c) \<le> 1 \<or> node_host n \<noteq> node_host (st_connected_node (rc_state c))) \<and>
       node_accepted X (rc_expected_genesis_hash c) client n"
    if conn: "rt_connect R (try_connect_and_execute X expected_node_default (rc_expected_genesis_hash c) f
         (nodes_shuffle (rt_permute R) (node_host (st_connected_node (rc_state c))) (rc_nodes c))) w = (Inr (Ok (client, n, res)), w')"
    for w client n res w'
  proof -
    from assms(1) [OF conn] obtain w1 where
      "try_connect_and_execute X expected_node_default (rc_expected_genesis_hash c) f
         (nodes_shuffle (rt_permute R) (node_host (st_connected_node (rc_state c))) (rc_nodes c)) w1 = (Ok (client, n, res), w')"
      by blast
    from try_connect_and_execute_Ok [OF this] show ?thesis
      by (auto dest!: nodes_shuffle_subset [OF assms(2)])
  qed
  show ?thesis
    using assms(3) switch
    by (fastforce simp: with_retries_def split: prod.splits sum.splits res.splits)
qed

theorem with_retries_node_witness:
  "\<exists>c' n. with_retries sample_subxt one_attempt sample_call sample_rpc_client = (Ok 5, c') \<and>
     rc_state c' = (rc_state sample_rpc_client)\<lparr>st_connected_node := n\<rparr> \<and> node_host n = ''b'' \<and>
     node_accepted sample_subxt ''DEV'' ''b'' n"
proof -
  have run: "with_retries sample_subxt one_attempt sample_call sample_rpc_client =
    (Ok 5, sample_rpc_client\<lparr>rc_subxt_client := ''b'', rc_state := (rc_state sample_rpc_client)\<lparr>st_connected_node :=
       \<lparr>node_host = ''b'', node_system_version = ''2.1.3'', node_spec_version = 1, node_genesis_hash = 7\<rparr>\<rparr>\<rparr>)"
    by (simp add: with_retries_def sample_subxt_def one_attempt_def sample_call_def sample_rpc_client_def nodes_new_def
        nodes_shuffle_def create_subxt_client_def op_bind_def check_genesis_hash_def configured_hash_def DEV_FLAG_GENHASH_def
        starts_with_def expected_node_matches_def expected_node_default_def EXPECTED_SYSTEM_VERSION_def op_return_def op_lift_def split: prod.split)
  have h1: "\<exists>w1. m w1 = (Ok y, w')" if "rt_connect one_attempt m w = (Inr (Ok y), w')" for m w y w'
    using that by (auto simp: one_attempt_def split: prod.splits)
  have h2: "set (rt_permute one_attempt ns) \<subseteq> set ns" for ns by (simp add: one_attempt_def)
  have "node_accepted sample_subxt ''DEV'' ''b''
      \<lparr>node_host = ''b'', node_system_version = ''2.1.3'', node_spec_version = 1, node_genesis_hash = 7\<rparr>"
    using with_retries_node [OF h1 h2 run] by (auto simp: sample_rpc_client_def node_default_def nodes_new_def state_default_def)
  with run show ?thesis by auto
qed

end
