(* ===== verification/Rpc_Methods.thy ===== *)
theory Rpc_Methods
  imports Rpc_Client
begin

text \<open>
  The methods of the RPC client that pass a request on to a node, the stream of subscriptions that it keeps
  alive (\<open>src/network/rpc/client.rs\<close>), and \<open>init\<close>, which connects the client and the subscription loop (\<open>src/network/rpc.rs\<close>).

  As in \<open>Rpc_Client\<close>, the calls of \<open>avail_subxt\<close> are parameters, the fields of \<open>node_calls\<close>. A stream of a node is the list of the items that arrive
  on it until it ends; \<open>nc_merge\<close> is the merge of two streams. \<open>'h\<close> stands for a transaction on its way, \<open>'key\<close> for
  a signer, \<open>'ev\<close> for the events of a transaction and \<open>'rv\<close> for a runtime version.

  The lemmas show that a call that returns an answer has it from the current node or from one that the configuration
  admits, and that the stream of subscriptions survives the failures of single nodes.
\<close>

section \<open>Methods\<close>

record ('w, 'cl, 'h, 'key, 'ev, 'rv) node_calls =
  nc_runtime_version :: "'cl \<Rightarrow> 'rv"
  nc_validators :: "'cl \<Rightarrow> h256 \<Rightarrow> ('w, account_id list option) op"
  nc_session_key_owner :: "'cl \<Rightarrow> h256 \<Rightarrow> public_key \<Rightarrow> ('w, account_id option) op"
  nc_raw_keys :: "'cl \<Rightarrow> h256 \<Rightarrow> bytes \<Rightarrow> ('w, storage_key result list) op"
  nc_prove_finality :: "'cl \<Rightarrow> u32 \<Rightarrow> ('w, finality_proof) op"
  nc_submit_data :: "'cl \<Rightarrow> 'key \<Rightarrow> bytes \<Rightarrow> u32 \<Rightarrow> ('w, 'h) op"
  nc_extrinsic_from_bytes :: "'cl \<Rightarrow> bytes \<Rightarrow> 'h"
  nc_submit_and_watch :: "'h \<Rightarrow> ('w, 'h) op"
  nc_in_finalized :: "'h \<Rightarrow> ('w, 'h) op"
  nc_wait_for_success :: "'h \<Rightarrow> ('w, 'ev) op"
  nc_finalized_headers :: "'cl \<Rightarrow> ('w, header result list) op"
  nc_justifications :: "'cl \<Rightarrow> ('w, grandpa_justification result list) op"
  nc_merge :: "subscription result list \<Rightarrow> subscription result list \<Rightarrow> subscription result list"

definition current_client :: "('w, 'cl) rpc_client \<Rightarrow> 'cl" where
  "current_client c = rc_subxt_client c"

definition get_genesis_hash :: "('w, 'cl) subxt_env \<Rightarrow> (('w, 'cl) rpc_client, h256) op" where
  "get_genesis_hash X c = (Ok (sx_genesis_hash X (current_client c)), c)"

definition get_system_version ::
    "('w, 'cl) subxt_env \<Rightarrow> ('w, 'cl, string) retries \<Rightarrow> (('w, 'cl) rpc_client, string) op" where
  "get_system_version X R = with_retries X R (sx_system_version X)"

definition get_runtime_version ::
    "('w, 'cl) subxt_env \<Rightarrow> ('w, 'cl, 'h, 'key, 'ev, 'rv) node_calls \<Rightarrow> ('w, 'cl, 'rv) retries \<Rightarrow> (('w, 'cl) rpc_client, 'rv) op" where
  "get_runtime_version X C R = with_retries X R (\<lambda>client. op_return (nc_runtime_version C client))"

definition get_current_set_id_by_block_number ::
    "('w, 'cl) subxt_env \<Rightarrow> ('w, 'cl) node_api \<Rightarrow> ('w, 'cl, h256 option) retries \<Rightarrow> ('w, 'cl, u64 option) retries \<Rightarrow> u32 \<Rightarrow>
     (('w, 'cl) rpc_client, u64) op" where
  "get_current_set_id_by_block_number X A R1 R2 block_num =
     op_bind (get_block_hash X A R1 block_num) (fetch_set_id_at X A R2)"

definition get_validator_set_at ::
    "('w, 'cl) subxt_env \<Rightarrow> ('w, 'cl, 'h, 'key, 'ev, 'rv) node_calls \<Rightarrow> ('w, 'cl, account_id list option) retries \<Rightarrow> h256 \<Rightarrow>
     (('w, 'cl) rpc_client, account_id list option) op" where
  "get_validator_set_at X C R block_hash = with_retries X R (\<lambda>client. nc_validators C client block_hash)"

definition submit_signed_and_wait_for_finalized ::
    "('w, 'cl) subxt_env \<Rightarrow> ('w, 'cl, 'h, 'key, 'ev, 'rv) node_calls \<Rightarrow> ('w, 'cl, 'ev) retries \<Rightarrow> bytes \<Rightarrow> 'key \<Rightarrow> u32 \<Rightarrow>
     (('w, 'cl) rpc_client, 'ev) op" where
  "submit_signed_and_wait_for_finalized X C R dat signer appid =
     with_retries X R (\<lambda>client.
       op_bind (nc_submit_data C client signer dat appid) (\<lambda>tx.
       op_bind (nc_in_finalized C tx) (nc_wait_for_success C)))"

definition submit_from_bytes_and_wait_for_finalized ::
    "('w, 'cl) subxt_env \<Rightarrow> ('w, 'cl, 'h, 'key, 'ev, 'rv) node_calls \<Rightarrow> ('w, 'cl, 'ev) retries \<Rightarrow> bytes \<Rightarrow>
     (('w, 'cl) rpc_client, 'ev) op" where
  "submit_from_bytes_and_wait_for_finalized X C R tx_bytes =
     with_retries X R (\<lambda>client.
       op_bind (nc_submit_and_watch C (nc_extrinsic_from_bytes C client tx_bytes)) (\<lambda>tx.
       op_bind (nc_in_finalized C tx) (nc_wait_for_success C)))"

definition get_paged_storage_keys ::
    "('w, 'cl) subxt_env \<Rightarrow> ('w, 'cl, 'h, 'key, 'ev, 'rv) node_calls \<Rightarrow> ('w, 'cl, storage_key list) retries \<Rightarrow> bytes \<Rightarrow> nat \<Rightarrow> h256 \<Rightarrow>
     (('w, 'cl) rpc_client, storage_key list) op" where
  "get_paged_storage_keys X C R k cnt hash =
     with_retries X R (\<lambda>client.
       op_bind (nc_raw_keys C client hash k) (\<lambda>raw_keys. op_lift (collect_res (take cnt raw_keys))))"

definition get_session_key_owner_at ::
    "('w, 'cl) subxt_env \<Rightarrow> ('w, 'cl, 'h, 'key, 'ev, 'rv) node_calls \<Rightarrow> ('w, 'cl, account_id option) retries \<Rightarrow> h256 \<Rightarrow> public_key \<Rightarrow>
     (('w, 'cl) rpc_client, account_id option) op" where
  "get_session_key_owner_at X C R block_hash pk = with_retries X R (\<lambda>client. nc_session_key_owner C client block_hash pk)"

text \<open>\<open>{e}\<close> prints the outermost message of a report.\<close>

definition display_report :: "report \<Rightarrow> string" where
  "display_report e = (case e of [] \<Rightarrow> '''' | m # _ \<Rightarrow> m)"

definition request_finality_proof ::
    "('w, 'cl) subxt_env \<Rightarrow> ('w, 'cl, 'h, 'key, 'ev, 'rv) node_calls \<Rightarrow> ('w, 'cl, finality_proof) retries \<Rightarrow> u32 \<Rightarrow>
     (('w, 'cl) rpc_client, finality_proof) op" where
  "request_finality_proof X C R block_number c =
     (case with_retries X R (\<lambda>client. nc_prove_finality C client block_number) c of
        (Err e, c') \<Rightarrow> (Err [''Request failed at Finality Proof. Error: '' @ display_report e], c')
      | r \<Rightarrow> r)"

section \<open>The stream of subscriptions\<close>

definition create_subxt_subscriptions ::
    "('w, 'cl, 'h, 'key, 'ev, 'rv) node_calls \<Rightarrow> 'cl \<Rightarrow> ('w, subscription result list) op" where
  "create_subxt_subscriptions C client =
     op_bind (nc_finalized_headers C client) (\<lambda>headers.
     op_bind (nc_justifications C client) (\<lambda>justifications.
       op_return (nc_merge C (map (map_res HeaderSub) headers) (map (map_res JustificationSub) justifications))))"

text \<open>The items of one stream that are passed on: those before its end or its first error.\<close>

fun passed_on :: "'a result list \<Rightarrow> 'a list" where
  "passed_on (Ok x # xs) = x # passed_on xs"
| "passed_on _ = []"

text \<open>\<open>subscription_stream\<close> makes a new stream whenever the current one ends or yields an error; it runs for ever as long as nodes
  are found. The number bounds how many streams are made.\<close>

fun subscription_stream ::
    "('w, 'cl) subxt_env \<Rightarrow> ('w, 'cl, 'h, 'key, 'ev, 'rv) node_calls \<Rightarrow> ('w, 'cl, subscription result list) retries \<Rightarrow> nat \<Rightarrow>
     ('w, 'cl) rpc_client \<Rightarrow> subscription result list \<times> ('w, 'cl) rpc_client" where
  "subscription_stream X C R 0 c = ([], c)"
| "subscription_stream X C R (Suc n) c =
     (case with_retries X R (create_subxt_subscriptions C) c of
        (Ok stream, c1) \<Rightarrow>
          (case subscription_stream X C R n c1 of (rest, c2) \<Rightarrow> (map Ok (passed_on stream) @ rest, c2))
      | (Err e, c1) \<Rightarrow> ([Err e], c1)
      | (Panic m, c1) \<Rightarrow> ([Panic m], c1))"

section \<open>Initialisation\<close>

text \<open>\<open>view\<close> is the RPC client as the subscription loop sees it.\<close>

definition rpc_init ::
    "('w, 'cl) subxt_env \<Rightarrow> ('w, 'cl, unit) retries \<Rightarrow> (('w, 'cl) rpc_client \<Rightarrow> rpc_api) \<Rightarrow> database \<Rightarrow> state \<Rightarrow> string list \<Rightarrow> string \<Rightarrow> 'w \<Rightarrow>
     (('w, 'cl) rpc_client \<times> sub_loop) result \<times> 'w" where
  "rpc_init X R view db st nodes genesis w =
     (case rpc_client_new X R st (nodes_new nodes) genesis w of
        (Ok client, w') \<Rightarrow> (map_res (Pair client) (sub_loop_new (view client) (rc_state client) db), w')
      | (Err e, w') \<Rightarrow> (Err e, w')
      | (Panic m, w') \<Rightarrow> (Panic m, w'))"

section \<open>Where an answer comes from\<close>

text \<open>A client that may be asked: the current one, or a connection to a configured node that passed the checks.\<close>

definition may_ask :: "('w, 'cl) subxt_env \<Rightarrow> ('w, 'cl) rpc_client \<Rightarrow> 'cl \<Rightarrow> bool" where
  "may_ask X c client \<longleftrightarrow> client = rc_subxt_client c \<or>
     (\<exists>n. node_host n \<in> node_host ` set (rc_nodes c) \<and> node_accepted X (rc_expected_genesis_hash c) client n)"

text \<open>What the retries are relied on for: an answer is that of an attempt, and the shuffle invents no node.\<close>

definition faithful_retries :: "('w, 'cl, 'a) retries \<Rightarrow> bool" where
  "faithful_retries R \<longleftrightarrow>
     (\<forall>m w y w'. rt_call R m w = (Inr (Ok y), w') \<longrightarrow> (\<exists>w1. m w1 = (Ok y, w'))) \<and>
     (\<forall>m w y w'. rt_connect R m w = (Inr (Ok y), w') \<longrightarrow> (\<exists>w1. m w1 = (Ok y, w'))) \<and>
     (\<forall>ns. set (rt_permute R ns) \<subseteq> set ns)"

text \<open>An item that a client which may be asked has put on one of its two streams.\<close>

definition pushed_by :: "('w, 'cl, 'h, 'key, 'ev, 'rv) node_calls \<Rightarrow> 'cl \<Rightarrow> subscription \<Rightarrow> bool" where
  "pushed_by C client sub \<longleftrightarrow>
     (case sub of
        HeaderSub h \<Rightarrow> \<exists>w w' hs. nc_finalized_headers C client w = (Ok hs, w') \<and> Ok h \<in> set hs
      | JustificationSub j \<Rightarrow> \<exists>w w' js. nc_justifications C client w = (Ok js, w') \<and> Ok j \<in> set js)"

text \<open>A node for the example: the first host cannot be reached, the second pushes a header and its justification, then an error.\<close>

definition sample_node_calls :: "(unit, string, unit, unit, unit, unit) node_calls" where
  "sample_node_calls =
     \<lparr>nc_runtime_version = (\<lambda>_. ()), nc_validators = (\<lambda>_ _. op_return None), nc_session_key_owner = (\<lambda>_ _ _. op_return None),
      nc_raw_keys = (\<lambda>_ _ _. op_return []), nc_prove_finality = (\<lambda>_ _. op_lift (Err [''none''])),
      nc_submit_data = (\<lambda>_ _ _ _. op_return ()), nc_extrinsic_from_bytes = (\<lambda>_ _. ()), nc_submit_and_watch = op_return,
      nc_in_finalized = op_return, nc_wait_for_success = op_return,
      nc_finalized_headers = (\<lambda>client. op_lift (if client = ''b'' then Ok [Ok (sample_header 4), Err [''closed'']] else Err [''no answer''])),
      nc_justifications = (\<lambda>_. op_return []), nc_merge = (@)\<rparr>"

lemma with_retries_frame:
  "with_retries X R f c = (r, c') \<Longrightarrow> rc_nodes c' = rc_nodes c \<and> rc_expected_genesis_hash c' = rc_expected_genesis_hash c"
  by (auto simp: with_retries_def split: prod.splits sum.splits res.splits)

lemma connect_answer:
  assumes R: "faithful_retries R"
    and conn: "rt_connect R (try_connect_and_execute X expected_node_default (rc_expected_genesis_hash c) f
      (nodes_shuffle (rt_permute R) (node_host (st_connected_node (rc_state c))) (rc_nodes c))) w = (Inr (Ok (client, n, y)), w')"
  shows "may_ask X c client \<and> (\<exists>w1. f client w1 = (Ok y, w'))"
proof -
  have perm: "\<And>ns. set (rt_permute R ns) \<subseteq> set ns" using R by (simp add: faithful_retries_def)
  obtain w1 where "try_connect_and_execute X expected_node_default (rc_expected_genesis_hash c) f
      (nodes_shuffle (rt_permute R) (node_host (st_connected_node (rc_state c))) (rc_nodes c)) w1 = (Ok (client, n, y), w')"
    using R conn unfolding faithful_retries_def by blast
  from try_connect_and_execute_Ok [OF this] show ?thesis
    using nodes_shuffle_subset [OF perm] unfolding may_ask_def by blast
qed

lemma with_retries_answer:
  assumes R: "faithful_retries R" and call: "with_retries X R f c = (Ok y, c')"
  shows "\<exists>client w w'. may_ask X c client \<and> f client w = (Ok y, w')"
proof (cases "fst (rt_call R (f (rc_subxt_client c)) (rc_world c)) = Inr (Ok y)")
  case True
  then obtain w' where "rt_call R (f (rc_subxt_client c)) (rc_world c) = (Inr (Ok y), w')" by (metis prod.collapse)
  then obtain w1 where "f (rc_subxt_client c) w1 = (Ok y, w')" using R unfolding faithful_retries_def by blast
  then show ?thesis unfolding may_ask_def by blast
next
  case False
  then show ?thesis
    using call connect_answer [OF R]
    by (fastforce simp: with_retries_def split: prod.splits sum.splits res.splits)
qed

lemma with_retries_current:
  assumes R: "faithful_retries R" and call: "with_retries X R f c = (r, c')"
  shows "may_ask X c (rc_subxt_client c')"
  using call connect_answer [OF R]
  by (fastforce simp: with_retries_def may_ask_def split: prod.splits sum.splits res.splits)

lemma may_ask_trans:
  assumes "rc_nodes c1 = rc_nodes c" "rc_expected_genesis_hash c1 = rc_expected_genesis_hash c"
    and "may_ask X c (rc_subxt_client c1)" "may_ask X c1 client"
  shows "may_ask X c client"
  using assms by (auto simp: may_ask_def)

lemma passed_on_subset: "x \<in> set (passed_on xs) \<Longrightarrow> Ok x \<in> set xs"
  by (induction xs rule: passed_on.induct) auto

lemma create_subscriptions_pushed:
  assumes "\<And>xs ys. set (nc_merge C xs ys) \<subseteq> set xs \<union> set ys"
    and "create_subxt_subscriptions C client w = (Ok stream, w')" "Ok sub \<in> set stream"
  shows "pushed_by C client sub"
proof -
  from assms(2) obtain hs js w1 where hs: "nc_finalized_headers C client w = (Ok hs, w1)" and js: "nc_justifications C client w1 = (Ok js, w')"
    and stream: "stream = nc_merge C (map (map_res HeaderSub) hs) (map (map_res JustificationSub) js)"
    by (auto simp: create_subxt_subscriptions_def res_simps op_return_def)
  have "Ok sub \<in> set (map (map_res HeaderSub) hs) \<union> set (map (map_res JustificationSub) js)"
    using assms(1,3) stream by blast
  then show ?thesis using hs js unfolding pushed_by_def by (fastforce simp: res_simps dest!: sym [of "Ok sub"])
qed

section \<open>Properties\<close>

text \<open>C29: The stream of subscriptions survives the failures of nodes. Whatever streams the nodes give and however they break off, every item that
  is passed on was pushed by the node that the client was connected to or by a configured one that passed the checks of genesis hash and version; an error
  is passed on at most once, as the last item, and only when no stream could be made any more with any node. The merge of two streams is
  assumed to invent no items, and a retry to return what an attempt returned.\<close>

theorem subscription_stream_sound:
  assumes "faithful_retries R" "\<And>xs ys. set (nc_merge C xs ys) \<subseteq> set xs \<union> set ys"
    and "subscription_stream X C R n c = (items, c')"
  shows "\<exists>subs final. items = map Ok subs @ final \<and>
    (\<forall>sub \<in> set subs. \<exists>client. may_ask X c client \<and> pushed_by C client sub) \<and>
    (final = [] \<or>
     (\<exists>e c1. final = [Err e] \<and> with_retries X R (create_subxt_subscriptions C) c1 = (Err e, c')) \<or>
     (\<exists>m c1. final = [Panic m] \<and> with_retries X R (create_subxt_subscriptions C) c1 = (Panic m, c')))"
  using assms(3)
proof (induction n arbitrary: c items)
  case 0
  then show ?case by simp
next
  case (Suc n)
  obtain r c1 where call: "with_retries X R (create_subxt_subscriptions C) c = (r, c1)" by fastforce
  show ?case
  proof (cases r)
    case (Ok stream)
    obtain rest where rest: "subscription_stream X C R n c1 = (rest, c')" and items: "items = map Ok (passed_on stream) @ rest"
      using Suc.prems call Ok by (auto split: prod.splits)
    obtain subs final where IH: "rest = map Ok subs @ final" "\<forall>sub \<in> set subs. \<exists>client. may_ask X c1 client \<and> pushed_by C client sub"
      "final = [] \<or> (\<exists>e c1. final = [Err e] \<and> with_retries X R (create_subxt_subscriptions C) c1 = (Err e, c')) \<or>
       (\<exists>m c1. final = [Panic m] \<and> with_retries X R (create_subxt_subscriptions C) c1 = (Panic m, c'))"
      using Suc.IH [OF rest] by blast
    have "\<forall>sub \<in> set (passed_on stream). \<exists>client. may_ask X c client \<and> pushed_by C client sub"
      using with_retries_answer [OF assms(1) call [unfolded Ok]] create_subscriptions_pushed [OF assms(2)] passed_on_subset by metis
    moreover have "\<forall>sub \<in> set subs. \<exists>client. may_ask X c client \<and> pushed_by C client sub"
      using IH(2) may_ask_trans with_retries_frame [OF call] with_retries_current [OF assms(1) call] by metis
    ultimately have "items = map Ok (passed_on stream @ subs) @ final \<and>
        (\<forall>sub \<in> set (passed_on stream @ subs). \<exists>client. may_ask X c client \<and> pushed_by C client sub)"
      using items IH(1) by auto
    with IH(3) show ?thesis by blast
  next
    case (Err e)
    then show ?thesis using Suc.prems call by (intro exI [of _ "[]"] exI [of _ "[Err e]"]) auto
  next
    case (Panic m)
    then show ?thesis using Suc.prems call by (intro exI [of _ "[]"] exI [of _ "[Panic m]"]) auto
  qed
qed

lemma sample_subscriptions:
  "create_subxt_subscriptions sample_node_calls client w =
     (if client = ''b'' then Ok [Ok (HeaderSub (sample_header 4)), Err [''closed'']] else Err [''no answer''], w)"
  by (simp add: create_subxt_subscriptions_def sample_node_calls_def op_bind_def op_return_def op_lift_def)

lemma sample_retries:
  "with_retries sample_subxt one_attempt (create_subxt_subscriptions sample_node_calls) sample_rpc_client =
     (Ok [Ok (HeaderSub (sample_header 4)), Err [''closed'']],
      sample_rpc_client\<lparr>rc_subxt_client := ''b'', rc_state := (rc_state sample_rpc_client)\<lparr>st_connected_node :=
       \<lparr>node_host = ''b'', node_system_version = ''2.1.3'', node_spec_version = 1, node_genesis_hash = 7\<rparr>\<rparr>\<rparr>)"
  by (simp add: with_retries_def sample_subxt_def one_attempt_def sample_subscriptions sample_rpc_client_def nodes_new_def
        nodes_shuffle_def create_subxt_client_def op_bind_def check_genesis_hash_def configured_hash_def DEV_FLAG_GENHASH_def
        starts_with_def expected_node_matches_def expected_node_default_def EXPECTED_SYSTEM_VERSION_def op_return_def op_lift_def)

lemma sample_stream:
  "subscription_stream sample_subxt sample_node_calls one_attempt (Suc 0) sample_rpc_client =
     ([Ok (HeaderSub (sample_header 4))], sample_rpc_client\<lparr>rc_subxt_client := ''b'', rc_state := (rc_state sample_rpc_client)\<lparr>st_connected_node :=
       \<lparr>node_host = ''b'', node_system_version = ''2.1.3'', node_spec_version = 1, node_genesis_hash = 7\<rparr>\<rparr>\<rparr>)"
  by (simp add: sample_retries)

theorem subscription_stream_sound_witness:
  "\<exists>client. may_ask sample_subxt sample_rpc_client client \<and> pushed_by sample_node_calls client (HeaderSub (sample_header 4))"
proof -
  have R: "faithful_retries (one_attempt :: (unit, string, subscription result list) retries)"
    by (auto simp: faithful_retries_def one_attempt_def split: prod.splits)
  have m: "set (nc_merge sample_node_calls xs ys) \<subseteq> set xs \<union> set ys" for xs ys by (simp add: sample_node_calls_def)
  from subscription_stream_sound [OF R m sample_stream] obtain subs final
    where items: "[Ok (HeaderSub (sample_header 4))] = map Ok subs @ final"
      and subs: "\<forall>sub \<in> set subs. \<exists>client. may_ask sample_subxt sample_rpc_client client \<and> pushed_by sample_node_calls client sub"
      and final: "final = [] \<or> (\<exists>e c1. final = [Err e] \<and>
          with_retries sample_subxt one_attempt (create_subxt_subscriptions sample_node_calls) c1 = (Err e, snd (subscription_stream sample_subxt
            sample_node_calls one_attempt (Suc 0) sample_rpc_client))) \<or>
        (\<exists>e c1. final = [Panic e] \<and>
          with_retries sample_subxt one_attempt (create_subxt_subscriptions sample_node_calls) c1 = (Panic e, snd (subscription_stream sample_subxt
            sample_node_calls one_attempt (Suc 0) sample_rpc_client)))"
    unfolding sample_stream snd_conv by (elim exE conjE)
  have "subs = [HeaderSub (sample_header 4)]"
    using items final by (elim disjE exE conjE) (auto simp: Cons_eq_append_conv Cons_eq_map_conv)
  with subs show ?thesis by simp
qed

end
