(* ===== verification/Network.thy ===== *)
theory Network
  imports P2p_Client Rpc_Client Samples
begin

text \<open>
  Fetching verified cells (\<open>src/network.rs\<close>) and the parallel verification of their proofs (\<open>src/proof.rs\<close>).

  The tasks of the \<open>JoinSet\<close> complete in any order: \<open>ne_completed\<close> says which of the running tasks completes
  next. The DHT is the function of
  \<open>P2p_Client\<close>, the node is asked through \<open>ne_request\<close>, which is \<open>request_kate_proof\<close> of \<open>Rpc_Client\<close>, and the measured durations are
  parameters. The state is that of the RPC client and the queue of commands to the event loop.

  The lemmas show that every cell that is returned has been verified, and how the fetched and the unfetched positions
  relate to the requested ones.
\<close>

section \<open>Proof verification\<close>

definition verify_proof :: "('dim, 'lk) kate \<Rightarrow> 'dim \<Rightarrow> commitment \<Rightarrow> cell \<Rightarrow> (position \<times> bool) result" where
  "verify_proof K dims cm c = map_res (\<lambda>verified. (cell_position c, verified)) (proof_verify K dims cm c)"

text \<open>The results of tasks in the order in which they complete: the numbers say which of the remaining ones is next.\<close>

fun completion_order :: "nat list \<Rightarrow> 'a list \<Rightarrow> 'a list" where
  "completion_order [] xs = xs"
| "completion_order (i # is) xs =
     (if xs = [] then []
      else xs ! (i mod length xs) # completion_order is (remove_nth (i mod length xs) xs))"

text \<open>A task that panics is an error for the one who joins it.\<close>

fun join_task :: "'a result \<Rightarrow> 'a result" where
  "join_task (Panic m) = Err [''task panicked'']"
| "join_task r = r"

definition verify ::
    "('dim, 'lk) kate \<Rightarrow> ((position \<times> bool) result list \<Rightarrow> (position \<times> bool) result list) \<Rightarrow> 'dim \<Rightarrow> cell list \<Rightarrow>
     commitment list \<Rightarrow> (position list \<times> position list) result" where
  "verify K order dims cells commitments =
     (if cells = [] then Ok ([], [])
      else
        and_then (collect_res (map (\<lambda>c. index_res commitments (unat (pos_row (cell_position c)))) cells)) (\<lambda>cms.
        and_then (collect_res (order (map2 (\<lambda>cm c. join_task (verify_proof K dims cm c)) cms cells))) (\<lambda>results.
          Ok (map fst (filter snd results), map fst (filter (\<lambda>r. \<not> snd r) results)))))"

section \<open>Fetching\<close>

record fetch_stats =
  fs_dht_fetched :: f64
  fs_dht_fetched_percentage :: f64
  fs_dht_fetch_duration :: f64
  fs_rpc_fetched :: "f64 option"
  fs_rpc_fetch_duration :: "f64 option"

definition fetch_stats_new :: "nat \<Rightarrow> nat \<Rightarrow> real \<Rightarrow> (nat \<times> real) option \<Rightarrow> fetch_stats" where
  "fetch_stats_new total_cells dht_fetched duration rpc_stats =
     \<lparr>fs_dht_fetched = Fin (real dht_fetched), fs_dht_fetched_percentage = f64_ratio dht_fetched total_cells,
      fs_dht_fetch_duration = Fin duration,
      fs_rpc_fetched = map_option (\<lambda>(n, _). Fin (real n)) rpc_stats,
      fs_rpc_fetch_duration = map_option (\<lambda>(_, d). Fin d) rpc_stats\<rparr>"

record 'r net_state =
  ns_rpc :: 'r
  ns_queue :: command_queue

record ('dim, 'lk, 'r) net_env =
  ne_kate :: "('dim, 'lk) kate"
  ne_completed :: "nat list"
  ne_dht :: dht
  ne_parallelization_limit :: nat
  ne_request :: "h256 \<Rightarrow> position list \<Rightarrow> ('r, cell list) op"
  ne_disable_rpc :: bool
  ne_receiver_alive :: bool
  ne_now :: nat
  ne_ttl :: u64
  ne_dht_duration :: real
  ne_rpc_duration :: real

definition fetch_verified_from_dht ::
    "('dim, 'lk, 'r) net_env \<Rightarrow> u32 \<Rightarrow> 'dim \<Rightarrow> commitment list \<Rightarrow> position list \<Rightarrow> (cell list \<times> position list \<times> real) result" where
  "fetch_verified_from_dht E block_number dims commitments positions =
     and_then (fetch_cells_from_dht (ne_kate E) (ne_parallelization_limit E) (ne_dht E) block_number positions)
       (\<lambda>(dht_fetched, unfetched).
     and_then (wrap_err ''Failed to verify fetched cells'' (verify (ne_kate E) (completion_order (ne_completed E)) dims dht_fetched commitments))
       (\<lambda>(verified, unverified).
         Ok (filter (\<lambda>c. cell_position c \<in> set verified) dht_fetched, unfetched @ unverified, ne_dht_duration E)))"

definition rpc_op :: "('r, 'a) op \<Rightarrow> ('r net_state, 'a) op" where
  "rpc_op m s = (case m (ns_rpc s) of (r, x) \<Rightarrow> (r, s\<lparr>ns_rpc := x\<rparr>))"

definition queue_op :: "(command_queue, 'a) op \<Rightarrow> ('r net_state, 'a) op" where
  "queue_op m s = (case m (ns_queue s) of (r, q) \<Rightarrow> (r, s\<lparr>ns_queue := q\<rparr>))"

definition fetch_verified_from_rpc ::
    "('dim, 'lk, 'r) net_env \<Rightarrow> u32 \<Rightarrow> h256 \<Rightarrow> 'dim \<Rightarrow> commitment list \<Rightarrow> position list \<Rightarrow>
     ('r net_state, cell list \<times> position list \<times> real) op" where
  "fetch_verified_from_rpc E block_number block_hash dims commitments positions =
     op_bind (rpc_op (ne_request E block_hash positions)) (\<lambda>fetched.
     op_bind (op_lift (wrap_err ''Failed to verify fetched cells'' (verify (ne_kate E) (completion_order (ne_completed E)) dims fetched commitments)))
       (\<lambda>(verified, unverified).
         op_return (filter (\<lambda>c. cell_position c \<in> set verified) fetched, unverified, ne_rpc_duration E)))"

text \<open>An operation whose error is only logged.\<close>

definition ignore_err :: "('s, unit) op \<Rightarrow> ('s, unit) op" where
  "ignore_err m s = (case m s of (Err _, s') \<Rightarrow> (Ok (), s') | r \<Rightarrow> r)"

definition fetch_verified ::
    "('dim, 'lk, 'r) net_env \<Rightarrow> u32 \<Rightarrow> h256 \<Rightarrow> 'dim \<Rightarrow> commitment list \<Rightarrow> position list \<Rightarrow>
     ('r net_state, cell list \<times> position list \<times> fetch_stats) op" where
  "fetch_verified E block_number block_hash dims commitments positions =
     op_bind (op_lift (fetch_verified_from_dht E block_number dims commitments positions))
       (\<lambda>(dht_fetched, unfetched, dht_fetch_duration).
     if ne_disable_rpc E then
       op_return (dht_fetched, unfetched, fetch_stats_new (length positions) (length dht_fetched) dht_fetch_duration None)
     else
       op_bind (fetch_verified_from_rpc E block_number block_hash dims commitments unfetched)
         (\<lambda>(rpc_fetched, unfetched, rpc_fetch_duration).
       op_bind (ignore_err (queue_op (insert_cells_into_dht (ne_kate E) (ne_receiver_alive E) (ne_now E) (ne_ttl E)
                                        block_number rpc_fetched))) (\<lambda>_.
         op_return (dht_fetched @ rpc_fetched, unfetched,
           fetch_stats_new (length positions) (length dht_fetched) dht_fetch_duration
             (Some (length rpc_fetched, rpc_fetch_duration))))))"

section \<open>Verified cells\<close>

definition cell_verified :: "('dim, 'lk) kate \<Rightarrow> 'dim \<Rightarrow> commitment list \<Rightarrow> cell \<Rightarrow> bool" where
  "cell_verified K dims commitments c \<longleftrightarrow>
     unat (pos_row (cell_position c)) < length commitments \<and>
     proof_verify K dims (commitments ! unat (pos_row (cell_position c))) c = Ok True"

definition permutes_lists :: "('a list \<Rightarrow> 'a list) \<Rightarrow> bool" where
  "permutes_lists order \<longleftrightarrow> (\<forall>xs. mset (order xs) = mset xs)"

section \<open>An example\<close>

text \<open>Nothing is in the DHT and the node answers every request.\<close>

definition sample_node_api :: "(unit, string) node_api" where
  "sample_node_api = \<lparr>na_chain_get_block_hash = (\<lambda>_ _ w. (Ok None, w)), na_block_header = (\<lambda>_ _ w. (Ok None, w)),
     na_grandpa_authorities = (\<lambda>_ _ w. (Ok [], w)), na_finalized_head = (\<lambda>_ w. (Ok 0, w)), na_current_set_id = (\<lambda>_ _ w. (Ok None, w)),
     na_query_rows = (\<lambda>_ _ _ w. (Ok [], w)), na_query_proof = (\<lambda>_ ps _ w. (Ok (map (\<lambda>_. (1, replicate 48 0)) ps), w)),
     na_rows_fit = (\<lambda>_. True), na_cells_fit = (\<lambda>_. True)\<rparr>"

definition sample_net :: "(u16 \<times> u16, (u32 \<times> u32) list, (unit, string) rpc_client) net_env" where
  "sample_net = \<lparr>ne_kate = sample_kate, ne_completed = [1], ne_dht = (\<lambda>_. Err [''not found'']), ne_parallelization_limit = 2,
     ne_request = request_kate_proof sample_subxt sample_node_api one_attempt, ne_disable_rpc = False, ne_receiver_alive = True,
     ne_now = 0, ne_ttl = 1, ne_dht_duration = 0, ne_rpc_duration = 0\<rparr>"

definition sample_cell :: "u16 \<Rightarrow> cell" where
  "sample_cell c = \<lparr>cell_position = \<lparr>pos_row = 1, pos_col = c\<rparr>, cell_content = replicate 48 0 @ to_big_endian 1\<rparr>"

definition sample_net_state :: "(unit, string) rpc_client net_state" where
  "sample_net_state = \<lparr>ns_rpc = sample_rpc_client, ns_queue = []\<rparr>"

definition sample_requested :: "position list" where
  "sample_requested = map (\<lambda>c. cell_position (sample_cell c)) [0, 2]"

section \<open>Lemmas\<close>

lemma join_task_verify_Ok:
  "join_task (verify_proof K dims cm c) = Ok x \<longleftrightarrow> (\<exists>b. proof_verify K dims cm c = Ok b \<and> x = (cell_position c, b))"
  by (cases "proof_verify K dims cm c") (auto simp: verify_proof_def)

lemma mset_take_subseteq: "mset (take n xs) \<subseteq># mset xs"
proof -
  have "mset (take n xs) \<subseteq># mset (take n xs) + mset (drop n xs)" by simp
  also have "\<dots> = mset (take n xs @ drop n xs)" by (simp only: mset_append)
  finally show ?thesis by simp
qed

lemma submset_distinct:
  assumes "mset xs \<subseteq># mset ys" "distinct ys"
  shows "distinct xs"
proof -
  obtain zs where "mset ys = mset (xs @ zs)"
    using assms(1) by (metis ex_mset mset_append subset_mset.add_diff_inverse)
  then show ?thesis using assms(2) by (metis distinct_append mset_eq_imp_distinct_iff)
qed

lemma completion_order_permutes: "permutes_lists (completion_order is)"
proof -
  have "mset (completion_order is xs) = mset xs" for xs :: "'a list"
    by (induction "is" xs rule: completion_order.induct) (auto simp: mset_remove_nth)
  then show ?thesis by (simp add: permutes_lists_def)
qed

lemma map2_map_left: "map2 f (map g xs) xs = map (\<lambda>x. f (g x) x) xs"
  by (induction xs) auto

lemma verify_results:
  assumes "permutes_lists order" "verify K order dims cells commitments = Ok (verified, unverified)"
  shows "\<exists>results. mset results = mset (map (\<lambda>c. (cell_position c, cell_verified K dims commitments c)) cells) \<and>
     verified = map fst (filter snd results) \<and> unverified = map fst (filter (\<lambda>r. \<not> snd r) results)"
proof (cases "cells = []")
  case True
  then show ?thesis using assms(2) by (auto simp: verify_def)
next
  case False
  let ?row = "\<lambda>c. unat (pos_row (cell_position c))"
  obtain cms results where cms: "map (\<lambda>c. index_res commitments (?row c) :: commitment result) cells = map Ok cms"
    and res: "order (map2 (\<lambda>cm c. join_task (verify_proof K dims cm c)) cms cells) = map Ok results"
    and out: "verified = map fst (filter snd results)" "unverified = map fst (filter (\<lambda>r. \<not> snd r) results)"
    using assms(2) False by (auto simp: verify_def res_simps collect_res_eq_Ok)
  have rows: "?row c < length commitments" if "c \<in> set cells" for c
  proof -
    have "(index_res commitments (?row c) :: commitment result) \<in> set (map Ok cms)" using that cms by (metis imageI list.set_map)
    then show ?thesis by (auto simp: index_res_def split: if_splits)
  qed
  then have "(map Ok cms :: commitment result list) = map Ok (map (\<lambda>c. commitments ! ?row c) cells)"
    unfolding cms [symmetric] map_map by (intro map_cong) (simp_all add: index_res_def)
  then have "cms = map (\<lambda>c. commitments ! ?row c) cells" by (rule map_injective) (simp add: inj_def)
  with res have "order (map (\<lambda>c. join_task (verify_proof K dims (commitments ! ?row c) c)) cells) = map Ok results"
    by (simp add: map2_map_left)
  then have "mset (map (\<lambda>c. join_task (verify_proof K dims (commitments ! ?row c) c)) cells) = mset (map Ok results)"
    using assms(1) [unfolded permutes_lists_def, rule_format,
      of "map (\<lambda>c. join_task (verify_proof K dims (commitments ! ?row c) c)) cells"] by simp
  moreover have "join_task (verify_proof K dims (commitments ! ?row c) c) =
      Ok (cell_position c, cell_verified K dims commitments c)" if "c \<in> set cells" for c
  proof -
    have "join_task (verify_proof K dims (commitments ! ?row c) c) \<in> set (map Ok results)"
      using that calculation by (metis (no_types, lifting) imageI list.set_map mset_eq_setD)
    then obtain x where "join_task (verify_proof K dims (commitments ! ?row c) c) = Ok x" by auto
    then show ?thesis using rows [OF that] unfolding join_task_verify_Ok by (auto simp: cell_verified_def verify_proof_def)
  qed
  ultimately have "mset (map (\<lambda>c. Ok (cell_position c, cell_verified K dims commitments c) :: (position \<times> bool) result) cells) =
      mset (map Ok results)"
    by (simp cong: map_cong image_mset_cong)
  then have "(image_mset Ok (mset (map (\<lambda>c. (cell_position c, cell_verified K dims commitments c)) cells)) :: (position \<times> bool) result multiset) =
      image_mset Ok (mset results)"
    by (simp add: multiset.map_comp comp_def)
  then have "mset results = mset (map (\<lambda>c. (cell_position c, cell_verified K dims commitments c)) cells)"
    by (metis (mono_tags, lifting) inj_on_def multiset.inj_map_strong res.inject(1))
  with out show ?thesis by blast
qed

lemma verify_positions:
  assumes "permutes_lists order" "verify K order dims cells commitments = Ok (verified, unverified)"
  shows "mset verified = mset (map cell_position (filter (cell_verified K dims commitments) cells))"
    and "mset unverified = mset (map cell_position (filter (\<lambda>c. \<not> cell_verified K dims commitments c) cells))"
proof -
  obtain results where r: "mset results = mset (map (\<lambda>c. (cell_position c, cell_verified K dims commitments c)) cells)"
    "verified = map fst (filter snd results)" "unverified = map fst (filter (\<lambda>r. \<not> snd r) results)"
    using verify_results [OF assms] by blast
  have "image_mset fst (filter_mset P (mset results)) =
      mset (map cell_position (filter (\<lambda>c. P (cell_position c, cell_verified K dims commitments c)) cells))" for P
    unfolding r(1) by (induction cells) auto
  from this [of snd] this [of "\<lambda>r. \<not> snd r"] r(2,3)
  show "mset verified = mset (map cell_position (filter (cell_verified K dims commitments) cells))"
    "mset unverified = mset (map cell_position (filter (\<lambda>c. \<not> cell_verified K dims commitments c) cells))"
    by simp_all
qed

text \<open>Cells are kept by their positions. With distinct positions these are the verified cells.\<close>

lemma kept_cells:
  assumes "permutes_lists order" "verify K order dims cells commitments = Ok (verified, unverified)"
    and "distinct (map cell_position cells)"
  shows "filter (\<lambda>c. cell_position c \<in> set verified) cells = filter (cell_verified K dims commitments) cells"
proof (rule filter_cong [OF refl])
  fix c assume c: "c \<in> set cells"
  have "set verified = cell_position ` {c \<in> set cells. cell_verified K dims commitments c}"
    using verify_positions(1) [OF assms(1,2)] by (metis mset_eq_setD set_filter set_map)
  moreover have "c' = c" if "c' \<in> set cells" "cell_position c' = cell_position c" for c'
    using assms(3) c that by (metis distinct_map inj_onD)
  ultimately show "cell_position c \<in> set verified \<longleftrightarrow> cell_verified K dims commitments c" using c by auto
qed

lemma kept_and_unverified:
  assumes "permutes_lists order" "verify K order dims cells commitments = Ok (verified, unverified)"
    and "distinct (map cell_position cells)"
  shows "mset (map cell_position (filter (\<lambda>c. cell_position c \<in> set verified) cells)) + mset unverified =
     mset (map cell_position cells)"
  unfolding kept_cells [OF assms] verify_positions(2) [OF assms(1,2)] by (induction cells) auto

lemma flatten_positions_distinct:
  "distinct ps \<Longrightarrow> distinct (map cell_position (flatten_options (map (fetch_cell_from_dht K dht b) ps)))"
  unfolding fetched_positions by simp

lemma fetched_and_unfetched:
  "mset (filter (\<lambda>p. fetch_cell_from_dht K dht b p \<noteq> None) ps) + mset (filter (\<lambda>p. fetch_cell_from_dht K dht b p = None) ps) =
     mset ps"
  by (induction ps) auto

lemma fetch_verified_from_dht_Ok:
  assumes "fetch_verified_from_dht E b dims commitments positions = Ok (fetched, unfetched, d)"
    and "distinct positions"
  shows "list_all (cell_verified (ne_kate E) dims commitments) fetched"
    and "mset (map cell_position fetched) + mset unfetched = mset positions"
proof -
  let ?cells = "flatten_options (map (fetch_cell_from_dht (ne_kate E) (ne_dht E) b) positions)"
  obtain verified unverified where
    v: "verify (ne_kate E) (completion_order (ne_completed E)) dims ?cells commitments = Ok (verified, unverified)"
    and f: "fetched = filter (\<lambda>c. cell_position c \<in> set verified) ?cells"
    and u: "unfetched = filter (\<lambda>p. fetch_cell_from_dht (ne_kate E) (ne_dht E) b p = None) positions @ unverified"
    using assms(1) by (auto simp: fetch_verified_from_dht_def res_simps fetch_cells_eq)
  have d: "distinct (map cell_position ?cells)" by (rule flatten_positions_distinct [OF assms(2)])
  show "list_all (cell_verified (ne_kate E) dims commitments) fetched"
    unfolding f kept_cells [OF completion_order_permutes v d] by (simp add: list_all_iff)
  have sum: "mset (map cell_position fetched) + mset unverified =
      mset (filter (\<lambda>p. fetch_cell_from_dht (ne_kate E) (ne_dht E) b p \<noteq> None) positions)"
    using kept_and_unverified [OF completion_order_permutes v d] unfolding f fetched_positions .
  have "mset (map cell_position fetched) + mset unfetched =
      mset (filter (\<lambda>p. fetch_cell_from_dht (ne_kate E) (ne_dht E) b p \<noteq> None) positions) +
      mset (filter (\<lambda>p. fetch_cell_from_dht (ne_kate E) (ne_dht E) b p = None) positions)"
    unfolding sum [symmetric] unfolding u mset_append by (simp only: ac_simps)
  then show "mset (map cell_position fetched) + mset unfetched = mset positions"
    unfolding fetched_and_unfetched .
qed

context cell_source
begin

lemma fetch_verified_from_rpc_Ok:
  assumes "fetch_verified_from_rpc (E\<lparr>ne_request := request\<rparr>) b h dims commitments positions s = (Ok (fetched, unfetched, d), s')"
    and "distinct positions"
  shows "list_all (cell_verified (ne_kate E) dims commitments) fetched"
    and "\<exists>n. mset (map cell_position fetched) + mset unfetched = mset (take n positions) \<and>
           (\<exists>cs r. request h positions (ns_rpc s) = (Ok cs, r) \<and> length cs = n)"
proof -
  obtain cells r verified unverified where
    req: "request h positions (ns_rpc s) = (Ok cells, r)"
    and v: "verify (ne_kate E) (completion_order (ne_completed E)) dims cells commitments = Ok (verified, unverified)"
    and f: "fetched = filter (\<lambda>c. cell_position c \<in> set verified) cells" and u: "unfetched = unverified"
    using assms(1) by (auto simp: fetch_verified_from_rpc_def rpc_op_def res_simps split: prod.splits)
  have d: "distinct (map cell_position cells)" by (rule request_distinct [OF req assms(2)])
  show "list_all (cell_verified (ne_kate E) dims commitments) fetched"
    unfolding f kept_cells [OF completion_order_permutes v d] by (simp add: list_all_iff)
  show "\<exists>n. mset (map cell_position fetched) + mset unfetched = mset (take n positions) \<and>
      (\<exists>cs r. request h positions (ns_rpc s) = (Ok cs, r) \<and> length cs = n)"
    using kept_and_unverified [OF completion_order_permutes v d] req request_positions [OF req] unfolding f u by auto
qed

end

lemma fetch_verified_Ok:
  assumes "fetch_verified (E\<lparr>ne_request := request_kate_proof X A R\<rparr>) b h dims commitments positions s =
      (Ok (fetched, unfetched, stats), s')"
    and "distinct positions"
  obtains dht_fetched dht_unfetched rpc_fetched n where
    "fetched = dht_fetched @ rpc_fetched"
    "list_all (cell_verified (ne_kate E) dims commitments) fetched"
    "mset (map cell_position dht_fetched) + mset dht_unfetched = mset positions"
    "mset (map cell_position rpc_fetched) + mset unfetched = mset (take n dht_unfetched)"
    "ne_disable_rpc E \<and> rpc_fetched = [] \<and> n = length dht_unfetched \<or>
     \<not> ne_disable_rpc E \<and> (\<exists>cs r. request_kate_proof X A R h dht_unfetched (ns_rpc s) = (Ok cs, r) \<and> length cs = n)"
proof -
  let ?E = "E\<lparr>ne_request := request_kate_proof X A R\<rparr>"
  obtain df du d where dht: "fetch_verified_from_dht ?E b dims commitments positions = Ok (df, du, d)"
    using assms(1) by (auto simp: fetch_verified_def res_simps)
  have dht': "list_all (cell_verified (ne_kate E) dims commitments) df"
      "mset (map cell_position df) + mset du = mset positions"
    using fetch_verified_from_dht_Ok [OF dht] assms(2) by simp_all
  then have "distinct du" using assms(2) by (metis distinct_append mset_append mset_eq_imp_distinct_iff)
  show thesis
  proof (cases "ne_disable_rpc E")
    case True
    then show thesis
      using that [of df "[]" du "length du"] assms(1) dht dht' by (auto simp: fetch_verified_def res_simps)
  next
    case False
    then obtain rf u rd s1 where
      rpc: "fetch_verified_from_rpc ?E b h dims commitments du s = (Ok (rf, u, rd), s1)"
      and "fetched = df @ rf" "unfetched = u"
      using assms(1) dht by (auto simp: fetch_verified_def res_simps)
    with that [of df rf du] kate_proof.fetch_verified_from_rpc_Ok [OF rpc \<open>distinct du\<close>] dht' False
    show thesis by auto
  qed
qed

lemma fetch_verified_sound_cells:
  assumes "fetch_verified (E\<lparr>ne_request := request_kate_proof X A R\<rparr>) b h dims commitments positions s =
      (Ok (fetched, unfetched, stats), s')"
    and "distinct positions"
  shows "list_all (cell_verified (ne_kate E) dims commitments) fetched \<and>
    set (map cell_position fetched) \<subseteq> set positions \<and> set unfetched \<subseteq> set positions \<and>
    distinct (map cell_position fetched @ unfetched)"
proof -
  obtain df du rf n where f: "fetched = df @ rf" "list_all (cell_verified (ne_kate E) dims commitments) fetched"
    "mset (map cell_position df) + mset du = mset positions"
    "mset (map cell_position rf) + mset unfetched = mset (take n du)"
    by (rule fetch_verified_Ok [OF assms])
  have "mset (map cell_position fetched @ unfetched) = mset (map cell_position df) + mset (take n du)"
    unfolding f(1) f(4) [symmetric] by simp
  also have "\<dots> \<subseteq># mset positions"
    unfolding f(3) [symmetric] using mset_take_subseteq [of n du] by (rule mset_subset_eq_mono_add_left_cancel [THEN iffD2])
  finally have sub: "mset (map cell_position fetched @ unfetched) \<subseteq># mset positions" .
  then have "set (map cell_position fetched @ unfetched) \<subseteq> set positions" by (metis set_mset_mono set_mset_mset)
  moreover have "distinct (map cell_position fetched @ unfetched)"
    by (rule submset_distinct [OF sub assms(2)])
  ultimately show ?thesis using f(2) by auto
qed

section \<open>The contract of the network client\<close>

text \<open>The trait \<open>network::Client\<close>, as the light client and the sync client use it: the cells that are returned are verified
  cells of the requested positions.\<close>

locale network_client =
  fixes K :: "('dim, 'lk) kate"
    and fetch :: "u32 \<Rightarrow> h256 \<Rightarrow> 'dim \<Rightarrow> commitment list \<Rightarrow> position list \<Rightarrow> ('n, cell list \<times> position list \<times> fetch_stats) op"
  assumes fetch_sound: "\<lbrakk>fetch b h dims commitments ps s = (Ok (fetched, unfetched, stats), s'); distinct ps\<rbrakk> \<Longrightarrow>
    list_all (cell_verified K dims commitments) fetched \<and> distinct (map cell_position fetched) \<and>
    set (map cell_position fetched) \<subseteq> set ps"
begin

text \<open>Fetching as many cells as were requested is fetching all of them.\<close>

lemma fetch_all:
  assumes "fetch b h dims commitments ps s = (Ok (fetched, unfetched, stats), s')" "distinct ps" "length ps \<le> length fetched"
  shows "list_all (cell_verified K dims commitments) fetched \<and> distinct (map cell_position fetched) \<and>
    set (map cell_position fetched) = set ps \<and> length fetched = length ps"
proof -
  have f: "list_all (cell_verified K dims commitments) fetched" "distinct (map cell_position fetched)"
      "set (map cell_position fetched) \<subseteq> set ps"
    using fetch_sound [OF assms(1,2)] by auto
  have c: "card (set (map cell_position fetched)) = length fetched" "card (set ps) = length ps"
    using f(2) assms(2) by (metis distinct_card length_map, metis distinct_card)
  then have "set (map cell_position fetched) = set ps" using f(3) assms(3) by (metis List.finite_set card_seteq)
  with f c show ?thesis by auto
qed

end

interpretation net: network_client "ne_kate E" "fetch_verified (E\<lparr>ne_request := request_kate_proof X A R\<rparr>)" for E X A R
proof
  fix b h dims commitments ps s fetched unfetched stats s'
  assume "fetch_verified (E\<lparr>ne_request := request_kate_proof X A R\<rparr>) b h dims commitments ps s =
      (Ok (fetched, unfetched, stats), s')" "distinct ps"
  from fetch_verified_sound_cells [OF this]
  show "list_all (cell_verified (ne_kate E) dims commitments) fetched \<and> distinct (map cell_position fetched) \<and>
      set (map cell_position fetched) \<subseteq> set ps" by auto
qed

lemma sample_fetch:
  "fetch_verified (sample_net\<lparr>ne_request := request_kate_proof sample_subxt sample_node_api one_attempt\<rparr>) b h (1, 4) [[1], [2]]
     sample_requested sample_net_state =
   (Ok ([sample_cell 0, sample_cell 2], [], fetch_stats_new 2 0 0 (Some (2, 0))),
    sample_net_state\<lparr>ns_queue := snd (insert_cells_into_dht sample_kate True 0 1 b [sample_cell 0, sample_cell 2] [])\<rparr>)"
  by (simp add: fetch_verified_def fetch_verified_from_dht_def fetch_verified_from_rpc_def fetch_cells_from_dht_def sample_net_def
      sample_requested_def sample_cell_def fetch_cell_from_dht_def chunks.simps flatten_options_def verify_def rpc_op_def queue_op_def
      request_kate_proof_def with_retries_def one_attempt_def sample_node_api_def op_bind_def op_lift_def op_return_def cell_of_proof_def
      concat_content_def index_res_def verify_proof_def remove_nth_def ignore_err_def sample_net_state_def insert_cells_into_dht_def insert_into_dht_def
      send_command_def sample_rpc_client_def numeral_2_eq_2)

lemma sample_net_ok: "distinct sample_requested"
  by (simp add: sample_requested_def sample_cell_def)

section \<open>Properties\<close>

text \<open>C9: Every cell that \<open>fetch_verified\<close> returns has a proof that was verified against the commitment of its row, it is
  one of the requested cells, no position is returned twice, and no position is both fetched and unfetched. This holds
  whatever the DHT and the nodes answer and in whichever order the verification tasks complete, provided that the
  requested positions are distinct.\<close>

theorem fetch_verified_sound:
  assumes "fetch_verified (E\<lparr>ne_request := request_kate_proof X A R\<rparr>) b h dims commitments positions s =
      (Ok (fetched, unfetched, stats), s')"
    and "distinct positions"
  shows "list_all (cell_verified (ne_kate E) dims commitments) fetched \<and>
    set (map cell_position fetched) \<subseteq> set positions \<and> set unfetched \<subseteq> set positions \<and>
    distinct (map cell_position fetched @ unfetched)"
  by (rule fetch_verified_sound_cells [OF assms])

theorem fetch_verified_sound_witness:
  "list_all (cell_verified sample_kate (1, 4) [[1], [2]]) [sample_cell 0, sample_cell 2] \<and>
   distinct (map cell_position [sample_cell 0, sample_cell 2])"
  using fetch_verified_sound [OF sample_fetch [of 1 7] sample_net_ok] by (simp add: sample_net_def)



end
