(* ===== verification/Client_State.thy ===== *)
theory Client_State
  imports Network Data Sampling Shutdown
begin

text \<open>
  What the block-processing clients share: the database, the state behind the mutex, the network client, the
  metrics, the channel of verified blocks and the shutdown controller. The clients run as tasks of one process; each
  is modelled as a sequence of operations on this record. The metrics that were recorded and the messages that were
  sent are logged in it.
\<close>

record ('n, 'dim, 'lk) client_sys =
  cs_db :: database
  cs_state :: state
  cs_net :: 'n
  cs_metrics :: "metrics_call list"
  cs_sent :: "('dim, 'lk) block_verified list"
  cs_shutdown :: "string controller"

definition cs_metric :: "metrics_call list \<Rightarrow> ('n, 'dim, 'lk) client_sys \<Rightarrow> ('n, 'dim, 'lk) client_sys" where
  "cs_metric ms s = s\<lparr>cs_metrics := cs_metrics s @ ms\<rparr>"

definition on_db :: "(database, 'a) op \<Rightarrow> (('n, 'dim, 'lk) client_sys, 'a) op" where
  "on_db m s = (case m (cs_db s) of (r, d) \<Rightarrow> (r, s\<lparr>cs_db := d\<rparr>))"

definition on_net :: "('n, 'a) op \<Rightarrow> (('n, 'dim, 'lk) client_sys, 'a) op" where
  "on_net m s = (case m (cs_net s) of (r, n) \<Rightarrow> (r, s\<lparr>cs_net := n\<rparr>))"

definition on_state :: "(state \<Rightarrow> state) \<Rightarrow> ('n, 'dim, 'lk) client_sys \<Rightarrow> ('n, 'dim, 'lk) client_sys" where
  "on_state f s = s\<lparr>cs_state := f (cs_state s)\<rparr>"

text \<open>\<open>trigger_shutdown\<close> with its result ignored.\<close>

definition cs_trigger_shutdown :: "string \<Rightarrow> ('n, 'dim, 'lk) client_sys \<Rightarrow> ('n, 'dim, 'lk) client_sys" where
  "cs_trigger_shutdown reason s = s\<lparr>cs_shutdown := snd (trigger_shutdown (cs_shutdown s) reason)\<rparr>"

text \<open>One iteration of a client that waits for headers: what the receiver returns, the time since the header was
  received, the random cells, and whether a receiver of verified blocks exists.\<close>

record 'dim block_input =
  bi_event :: "(string, event) res"
  bi_elapsed :: nat
  bi_positions :: "'dim \<Rightarrow> u32 \<Rightarrow> position list"
  bi_receiver_alive :: bool

definition send_verified ::
    "bool \<Rightarrow> ('dim, 'lk) block_verified \<Rightarrow> ('n, 'dim, 'lk) client_sys \<Rightarrow> ('n, 'dim, 'lk) client_sys" where
  "send_verified alive msg s = (if alive then s\<lparr>cs_sent := cs_sent s @ [msg]\<rparr> else s)"

text \<open>The metric and the sleep before a block is processed.\<close>

definition processing_delay :: "nat option \<Rightarrow> nat \<Rightarrow> ('n, 'dim, 'lk) client_sys \<Rightarrow> ('n, 'dim, 'lk) client_sys" where
  "processing_delay delay elapsed s =
     (case sleep_duration delay elapsed of
        Some d \<Rightarrow> cs_metric [RecordCall (BlockProcessingDelay (Fin (real d)))] s
      | None \<Rightarrow> s)"

lemma on_db_Ok [res_simps]: "on_db m s = (Ok x, s') \<longleftrightarrow> (\<exists>d. m (cs_db s) = (Ok x, d) \<and> s' = s\<lparr>cs_db := d\<rparr>)"
  by (auto simp: on_db_def split: prod.splits)

lemma on_net_Ok [res_simps]: "on_net m s = (Ok x, s') \<longleftrightarrow> (\<exists>n. m (cs_net s) = (Ok x, n) \<and> s' = s\<lparr>cs_net := n\<rparr>)"
  by (auto simp: on_net_def split: prod.splits)

end
