(* ===== verification/Crawl_Client.thy ===== *)
theory Crawl_Client
  imports Client_State
begin

text \<open>
  The crawl client (\<open>src/crawl_client.rs\<close>): fetching the cells and the rows of a block from the DHT to measure their
  availability.

  Each iteration has the event that is received, the time since the header was received, and the DHT at that time. The
  lemmas relate the recorded rates to the mode and to what is in the DHT.
\<close>

datatype crawl_mode = Rows | Cells | Both

record crawl_config =
  cr_crawl_block :: bool
  cr_crawl_block_delay :: u64
  cr_crawl_block_mode :: crawl_mode
  cr_crawl_block_matrix_partition :: "partition option"

definition crawl_config_default :: crawl_config where
  "crawl_config_default = \<lparr>cr_crawl_block = False, cr_crawl_block_delay = 20, cr_crawl_block_mode = Cells,
     cr_crawl_block_matrix_partition = None\<rparr>"

definition ENTIRE_BLOCK :: partition where
  "ENTIRE_BLOCK = \<lparr>part_number = 1, part_fraction = 1\<rparr>"

record crawl_input =
  ci_event :: "(string, event) res"
  ci_elapsed :: nat
  ci_dht :: dht

text \<open>\<open>Iterator::step_by(2)\<close>.\<close>

fun step_by_2 :: "'a list \<Rightarrow> 'a list" where
  "step_by_2 [] = []"
| "step_by_2 [x] = [x]"
| "step_by_2 (x # _ # xs) = x # step_by_2 xs"

definition crawl_cells ::
    "('dim, 'lk) kate \<Rightarrow> nat \<Rightarrow> dht \<Rightarrow> u32 \<Rightarrow> 'dim \<Rightarrow> partition \<Rightarrow> metrics_call list result" where
  "crawl_cells K limit dht block_number dims prt =
     (let positions = partition_positions K dims prt
      in map_res (\<lambda>(fetched, _). [RecordCall (CrawlCellsSuccessRate (f64_ratio (length fetched) (length positions)))])
           (fetch_cells_from_dht K limit dht block_number positions))"

definition crawl_rows :: "('dim, 'lk) kate \<Rightarrow> nat \<Rightarrow> dht \<Rightarrow> u32 \<Rightarrow> 'dim \<Rightarrow> metrics_call list result" where
  "crawl_rows K limit dht block_number dims =
     (let rows = step_by_2 (range_u32 0 (extended_rows K dims))
      in map_res (\<lambda>fetched. [RecordCall (CrawlRowsSuccessRate (f64_ratio (length (flatten_options (step_by_2 fetched))) (length rows)))])
           (fetch_rows_from_dht K limit dht block_number dims rows))"

text \<open>One header: the metrics that are recorded. Both conditions of the source test for the same modes.\<close>

definition crawl_block ::
    "('dim, 'lk) kate \<Rightarrow> nat \<Rightarrow> u64 \<Rightarrow> crawl_mode \<Rightarrow> partition \<Rightarrow> header \<Rightarrow> crawl_input \<Rightarrow> metrics_call list result" where
  "crawl_block K limit delay mode prt hdr i =
     (case block_verified_try_from K hdr None of
        Panic m \<Rightarrow> Panic m
      | Err _ \<Rightarrow> Ok []
      | Ok block \<Rightarrow>
          (case bv_extension block of
             None \<Rightarrow> Ok []
           | Some ext \<Rightarrow>
               (let slept = (case sleep_duration (Some (unat delay)) (ci_elapsed i) of
                               Some d \<Rightarrow> [RecordCall (CrawlBlockDelay (Fin (real d)))] | None \<Rightarrow> []);
                    block_number = bv_block_num block; dims = ext_dimensions ext
                in and_then (if mode = Cells \<or> mode = Both then crawl_cells K limit (ci_dht i) block_number dims prt else Ok []) (\<lambda>cs.
                   and_then (if mode = Cells \<or> mode = Both then crawl_rows K limit (ci_dht i) block_number dims else Ok []) (\<lambda>rs.
                     Ok (slept @ cs @ rs))))))"

fun crawl_client_run ::
    "('dim, 'lk) kate \<Rightarrow> nat \<Rightarrow> u64 \<Rightarrow> crawl_mode \<Rightarrow> partition \<Rightarrow> crawl_input list \<Rightarrow> (metrics_call list, unit) op" where
  "crawl_client_run K limit delay mode prt [] ms = (Ok (), ms)"
| "crawl_client_run K limit delay mode prt (i # is) ms =
     (case ci_event i of
        Ok (HeaderUpdate hdr received_at) \<Rightarrow>
          (case crawl_block K limit delay mode prt hdr i of
             Ok new \<Rightarrow> crawl_client_run K limit delay mode prt is (ms @ new)
           | Err e \<Rightarrow> (Err e, ms)
           | Panic m \<Rightarrow> (Panic m, ms))
      | _ \<Rightarrow> (Ok (), ms))"

section \<open>Lemmas\<close>

lemma crawl_cells_rate:
  assumes "0 < limit"
  shows "crawl_cells K limit dht n dims prt =
    Ok [RecordCall (CrawlCellsSuccessRate (f64_ratio
      (length (filter (\<lambda>p. fetch_cell_from_dht K dht n p \<noteq> None) (partition_positions K dims prt)))
      (length (partition_positions K dims prt))))]"
proof -
  let ?ps = "partition_positions K dims prt"
  let ?f = "flatten_options (map (fetch_cell_from_dht K dht n) ?ps)"
  have "fetch_cells_from_dht K limit dht n ?ps = Ok (?f, filter (\<lambda>p. fetch_cell_from_dht K dht n p = None) ?ps)"
    using assms by (simp add: fetch_cells_eq)
  moreover have "length ?f = length (filter (\<lambda>p. fetch_cell_from_dht K dht n p \<noteq> None) ?ps)"
    by (metis fetched_positions length_map)
  ultimately show ?thesis by (simp add: crawl_cells_def Let_def)
qed

lemma crawl_block_rows_mode:
  "crawl_block K limit delay Rows prt hdr i = Ok ms \<Longrightarrow> m \<in> set ms \<Longrightarrow> \<exists>d. m = RecordCall (CrawlBlockDelay d)"
  by (auto simp: crawl_block_def Let_def split: res.splits option.splits)

section \<open>Properties\<close>

text \<open>The crawler in the mode \<open>Rows\<close> measures nothing: neither a rate of rows nor a rate of cells is ever recorded, only delays.
  Both conditions of the source test for the modes \<open>Cells\<close> and \<open>Both\<close>.\<close>

theorem crawl_rows_mode_records_no_rate:
  assumes "crawl_client_run K limit delay Rows prt is [] = (r, ms)" "m \<in> set ms"
  shows "\<exists>d. m = RecordCall (CrawlBlockDelay d)"
proof -
  have "(\<forall>m \<in> set acc. \<exists>d. m = RecordCall (CrawlBlockDelay d)) \<Longrightarrow>
      crawl_client_run K limit delay Rows prt is acc = (r, ms) \<Longrightarrow> \<forall>m \<in> set ms. \<exists>d. m = RecordCall (CrawlBlockDelay d)" for acc
  proof (induction "is" arbitrary: acc)
    case Nil
    then show ?case by simp
  next
    case (Cons i "is")
    have new: "\<forall>m \<in> set (acc @ new). \<exists>d. m = RecordCall (CrawlBlockDelay d)"
      if "crawl_block K limit delay Rows prt hdr i = Ok new" for hdr new
      using Cons.prems(1) crawl_block_rows_mode [OF that] by auto
    show ?case using Cons.prems Cons.IH [OF new] by (auto split: res.splits event.splits)
  qed
  from this [of "[]"] assms show ?thesis by simp
qed

theorem crawl_rows_mode_records_no_rate_witness:
  "\<exists>d. RecordCall (CrawlBlockDelay (Fin 20)) = RecordCall (CrawlBlockDelay d)"
proof -
  have "crawl_client_run sample_kate 1 20 Rows ENTIRE_BLOCK
      [\<lparr>ci_event = Ok (HeaderUpdate (sample_header 3) 0), ci_elapsed = 0, ci_dht = (\<lambda>_. Err [])\<rparr>] [] =
      (Ok (), [RecordCall (CrawlBlockDelay (Fin 20))])"
    by (simp add: crawl_block_def Let_def block_verified_try_from_def sleep_duration_def)
  from crawl_rows_mode_records_no_rate [OF this] show ?thesis by simp
qed

end
