(* ===== verification/Maintenance.thy ===== *)
theory Maintenance
  imports Client_State
begin

text \<open>
  Maintenance (\<open>src/maintenance.rs\<close>): for every verified block, pruning of the expired records and flushing of the metrics at
  their intervals, shrinking of the record store, and the periodic metrics.

  The replies of the event loop to the calls of the P2P client are the record \<open>maint_replies\<close>; the calls have the channels 0 to 4.
  \<open>kademlia-rocksdb\<close> is the feature that leaves out the pruning. A remainder by zero panics.
\<close>

record static_config_params =
  sp_block_confidence_treshold :: f64
  sp_replication_factor :: u16
  sp_query_timeout :: u32
  sp_pruning_interval :: u32
  sp_telemetry_flush_interval :: u32

record maint_replies =
  mr_loop_alive :: bool
  mr_now :: nat
  mr_prune :: "nat result option"
  mr_shrink :: "unit result option"
  mr_map_size :: "nat result option"
  mr_peers :: "nat result option"
  mr_list :: "string list result option"
  mr_flush :: "unit result"

definition rem_u32 :: "u32 \<Rightarrow> u32 \<Rightarrow> u32 result" where
  "rem_u32 a b = (if b = 0 then Panic ''attempt to calculate the remainder with a divisor of zero'' else Ok (a mod b))"

text \<open>A call whose error is only logged.\<close>

definition log_err :: "('s, 'a) op \<Rightarrow> ('s, unit) op" where
  "log_err m s = (case m s of (Panic p, s') \<Rightarrow> (Panic p, s') | (_, s') \<Rightarrow> (Ok (), s'))"

definition maint_prune ::
    "bool \<Rightarrow> maint_replies \<Rightarrow> static_config_params \<Rightarrow> u32 \<Rightarrow> (('r net_state, 'dim, 'lk) client_sys, unit) op" where
  "maint_prune kademlia_rocksdb M cfg block_number =
     (if kademlia_rocksdb then op_return ()
      else op_bind (op_lift (rem_u32 block_number (sp_pruning_interval cfg))) (\<lambda>r.
        if r = 0 then on_net (queue_op (log_err (prune_expired_records (mr_loop_alive M) (mr_now M) 0 (\<lambda>_. mr_prune M))))
        else op_return ()))"

definition maint_flush :: "maint_replies \<Rightarrow> static_config_params \<Rightarrow> u32 \<Rightarrow> (('r net_state, 'dim, 'lk) client_sys, unit) op" where
  "maint_flush M cfg block_number =
     op_bind (op_lift (rem_u32 block_number (sp_telemetry_flush_interval cfg))) (\<lambda>r.
       if r = 0 then (\<lambda>s. log_err (op_lift (mr_flush M)) (cs_metric [FlushCall] s)) else op_return ())"

definition maint_process_block ::
    "bool \<Rightarrow> maint_replies \<Rightarrow> static_config_params \<Rightarrow> u32 \<Rightarrow> (('r net_state, 'dim, 'lk) client_sys, unit) op" where
  "maint_process_block kademlia_rocksdb M cfg block_number =
     (let alive = mr_loop_alive M
      in
        op_bind (maint_prune kademlia_rocksdb M cfg block_number) (\<lambda>_.
        op_bind (maint_flush M cfg block_number) (\<lambda>_.
        op_bind (op_wrap_err ''Unable to perform Kademlia map shrink'' (on_net (queue_op (shrink_kademlia_map alive 1 (\<lambda>_. mr_shrink M))))) (\<lambda>_.
        op_bind (op_wrap_err ''Unable to get Kademlia map size'' (on_net (queue_op (get_kademlia_map_size alive 2 (\<lambda>_. mr_map_size M))))) (\<lambda>_.
        op_bind (on_net (queue_op (count_dht_entries alive 3 (\<lambda>_. mr_peers M)))) (\<lambda>peers_num.
        op_bind (on_net (queue_op (list_connected_peers alive 4 (\<lambda>_. mr_list M)))) (\<lambda>_ s.
          (Ok (), cs_metric [RecordCall (DHTConnectedPeers peers_num),
                             RecordCall (BlockConfidenceThreshold (sp_block_confidence_treshold cfg)),
                             RecordCall (DHTReplicationFactor (sp_replication_factor cfg)),
                             RecordCall (DHTQueryTimeout (sp_query_timeout cfg)), RecordCall Up] s))))))))"

text \<open>The loop: what is received, and the replies while the block is processed.\<close>

fun maintenance_run ::
    "bool \<Rightarrow> static_config_params \<Rightarrow> ((string, u32) res \<times> maint_replies) list \<Rightarrow> (('r net_state, 'dim, 'lk) client_sys, unit) op" where
  "maintenance_run feature_rocksdb cfg [] s = (Ok (), s)"
| "maintenance_run feature_rocksdb cfg ((received, M) # is) s =
     (case received of
        Panic m \<Rightarrow> (Panic m, s)
      | Err e \<Rightarrow> (Ok (), cs_trigger_shutdown e s)
      | Ok block_num \<Rightarrow>
          (case maint_process_block feature_rocksdb M cfg block_num s of
             (Ok _, s1) \<Rightarrow> maintenance_run feature_rocksdb cfg is s1
           | (Err e, s1) \<Rightarrow> (Ok (), cs_trigger_shutdown (report_text e) s1)
           | (Panic m, s1) \<Rightarrow> (Panic m, s1)))"

section \<open>An example\<close>

definition sample_params :: static_config_params where
  "sample_params = \<lparr>sp_block_confidence_treshold = Fin 92, sp_replication_factor = 5, sp_query_timeout = 10, sp_pruning_interval = 180,
     sp_telemetry_flush_interval = 15\<rparr>"

definition sample_replies :: maint_replies where
  "sample_replies = \<lparr>mr_loop_alive = True, mr_now = 0, mr_prune = Some (Ok 1), mr_shrink = Some (Ok ()), mr_map_size = Some (Ok 3),
     mr_peers = Some (Ok 4), mr_list = Some (Ok []), mr_flush = Err [''no endpoint'']\<rparr>"

definition sample_maint_sys :: "(unit net_state, unit, unit) client_sys" where
  "sample_maint_sys = \<lparr>cs_db = db_empty, cs_state = state_default, cs_net = \<lparr>ns_rpc = (), ns_queue = []\<rparr>, cs_metrics = [], cs_sent = [],
     cs_shutdown = controller_new\<rparr>"

section \<open>Lemmas\<close>

lemma maint_prune_Ok:
  assumes "maint_prune feature_rocksdb M cfg n s = (Ok (), s')" "mr_loop_alive M"
  shows "ns_queue (cs_net s') = ns_queue (cs_net s) @
      (if \<not> feature_rocksdb \<and> n mod sp_pruning_interval cfg = 0 then [PruneExpiredRecords (mr_now M) 0] else []) \<and>
    cs_metrics s' = cs_metrics s \<and> (feature_rocksdb \<or> sp_pruning_interval cfg \<noteq> 0)"
  using assms
  by (auto simp: maint_prune_def rem_u32_def res_simps on_net_def queue_op_def log_err_def prune_expired_records_def execute_sync_def
      send_command_def op_bind_def op_lift_def op_return_def split: if_splits prod.splits res.splits)

lemma maint_flush_Ok:
  assumes "maint_flush M cfg n s = (Ok (), s')"
  shows "cs_net s' = cs_net s \<and> sp_telemetry_flush_interval cfg \<noteq> 0 \<and>
    cs_metrics s' = cs_metrics s @ (if n mod sp_telemetry_flush_interval cfg = 0 then [FlushCall] else [])"
  using assms
  by (auto simp: maint_flush_def rem_u32_def log_err_def cs_metric_def op_bind_def op_lift_def op_return_def
      split: if_splits prod.splits res.splits)

lemma execute_call_Ok:
  "on_net (queue_op (execute_sync alive mk ch replies)) s = (Ok x, s') \<longleftrightarrow>
     alive \<and> replies ch = Some (Ok x) \<and> s' = s\<lparr>cs_net := (cs_net s)\<lparr>ns_queue := ns_queue (cs_net s) @ [mk ch]\<rparr>\<rparr>"
  by (auto simp: on_net_def queue_op_def execute_sync_def send_command_def op_bind_def op_lift_def split: option.splits res.splits)

section \<open>Properties\<close>

text \<open>The maintenance of a block that succeeds sends exactly these commands, in this order: the pruning, if the number of the block is a
  multiple of the pruning interval and the records are not kept in RocksDB, the shrinking of the record store, and the three
  queries; it flushes the metrics at the multiples of the flush interval, whether or not the flush
  succeeds, and records the five periodic metrics. Neither interval can be zero then.\<close>

theorem maintenance_schedule:
  assumes "maint_process_block feature_rocksdb M cfg n s = (Ok (), s')"
  shows "ns_queue (cs_net s') = ns_queue (cs_net s) @
      (if \<not> feature_rocksdb \<and> n mod sp_pruning_interval cfg = 0 then [PruneExpiredRecords (mr_now M) 0] else []) @
      [ReduceKademliaMapSize 1, GetKademliaMapSize 2, CountConnectedPeers 3, ListConnectedPeers 4] \<and>
    (\<exists>peers_num. cs_metrics s' = cs_metrics s @ (if n mod sp_telemetry_flush_interval cfg = 0 then [FlushCall] else []) @
      [RecordCall (DHTConnectedPeers peers_num), RecordCall (BlockConfidenceThreshold (sp_block_confidence_treshold cfg)),
       RecordCall (DHTReplicationFactor (sp_replication_factor cfg)), RecordCall (DHTQueryTimeout (sp_query_timeout cfg)), RecordCall Up]) \<and>
    (feature_rocksdb \<or> sp_pruning_interval cfg \<noteq> 0) \<and> sp_telemetry_flush_interval cfg \<noteq> 0"
proof -
  obtain s1 s2 peers_num where p: "maint_prune feature_rocksdb M cfg n s = (Ok (), s1)" and f: "maint_flush M cfg n s1 = (Ok (), s2)"
    and alive: "mr_loop_alive M"
    and rest: "cs_net s' = (cs_net s2)\<lparr>ns_queue := ns_queue (cs_net s2) @
        [ReduceKademliaMapSize 1, GetKademliaMapSize 2, CountConnectedPeers 3, ListConnectedPeers 4]\<rparr>"
      "cs_metrics s' = cs_metrics s2 @ [RecordCall (DHTConnectedPeers peers_num),
         RecordCall (BlockConfidenceThreshold (sp_block_confidence_treshold cfg)),
         RecordCall (DHTReplicationFactor (sp_replication_factor cfg)), RecordCall (DHTQueryTimeout (sp_query_timeout cfg)), RecordCall Up]"
    using assms
    by (auto simp: maint_process_block_def Let_def op_bind_eq_Ok op_wrap_err_eq_Ok shrink_kademlia_map_def get_kademlia_map_size_def
        count_dht_entries_def list_connected_peers_def execute_call_Ok cs_metric_def)
  from maint_prune_Ok [OF p alive] maint_flush_Ok [OF f] rest show ?thesis by auto
qed

theorem maintenance_schedule_witness:
  "\<exists>s'. maint_process_block False sample_replies sample_params 360 sample_maint_sys = (Ok (), s') \<and>
     ns_queue (cs_net s') = [PruneExpiredRecords 0 0, ReduceKademliaMapSize 1, GetKademliaMapSize 2, CountConnectedPeers 3, ListConnectedPeers 4]"
proof -
  have "\<exists>s'. maint_process_block False sample_replies sample_params 360 sample_maint_sys = (Ok (), s')"
    by (simp add: maint_process_block_def maint_prune_def maint_flush_def rem_u32_def log_err_def op_bind_def op_lift_def op_wrap_err_def
        on_net_def queue_op_def prune_expired_records_def shrink_kademlia_map_def get_kademlia_map_size_def count_dht_entries_def
        list_connected_peers_def execute_sync_def send_command_def sample_replies_def sample_params_def)
  then obtain s' where run: "maint_process_block False sample_replies sample_params 360 sample_maint_sys = (Ok (), s')" by blast
  from maintenance_schedule [OF run] run show ?thesis
    by (auto simp: sample_maint_sys_def sample_params_def sample_replies_def)
qed

end
