(* ===== verification/Api_Types.thy ===== *)
theory Api_Types
  imports Client_State
begin

text \<open>
  The types of the second version of the API (\<open>src/api/v2/types.rs\<close>): the status of the client and of a block, headers, data
  transactions and the filter of their fields, the messages that are published, the clients of the web socket with their subscriptions,
  requests, responses and errors.

  Serialization (\<open>serde_json\<close>, \<open>hex\<close>, the formatting of hashes) is a parameter where a definition needs it; \<open>Base64\<close> is the
  bytes it wraps. A \<open>HashMap\<close> of clients is an association list whose order stands for the iteration order. A sender is
  the number of its channel; the channels are a map from numbers to the messages in them, and a closed
  one is not in the map.

  The lemmas show what the status of a block says about the state, what a filter leaves, and who gets a published message.
\<close>

section \<open>Status\<close>

record version =
  ve_version :: string
  ve_network_version :: string

record historical_sync =
  hs_synced :: bool
  hs_available :: "block_range option"
  hs_app_data :: "block_range option"

record blocks =
  bl_latest :: u32
  bl_available :: "block_range option"
  bl_app_data :: "block_range option"
  bl_historical_sync :: "historical_sync option"

datatype v2_mode = Light | App | Partition

record v2_status =
  s2_modes :: "v2_mode list"
  s2_app_id :: "u32 option"
  s2_genesis_hash :: string
  s2_network :: string
  s2_blocks :: blocks
  s2_partition :: "partition option"

definition modes_of :: "runtime_config \<Rightarrow> v2_mode list" where
  "modes_of cfg =
     [Light] @ (if app_id cfg \<noteq> None then [App] else []) @ (if block_matrix_partition cfg \<noteq> None then [Partition] else [])"

definition v2_status_new :: "(h256 \<Rightarrow> string) \<Rightarrow> runtime_config \<Rightarrow> state \<Rightarrow> v2_status" where
  "v2_status_new show_h256 cfg st =
     (let node = st_connected_node st
      in \<lparr>s2_modes = modes_of cfg, s2_app_id = app_id cfg, s2_genesis_hash = show_h256 (node_genesis_hash node),
          s2_network = node_network node,
          s2_blocks = \<lparr>bl_latest = st_latest st, bl_available = st_confidence_achieved st, bl_app_data = st_data_verified st,
            bl_historical_sync = map_option (\<lambda>synced. \<lparr>hs_synced = synced, hs_available = st_sync_confidence_achieved st,
                                                       hs_app_data = st_sync_data_verified st\<rparr>) (st_synced st)\<rparr>,
          s2_partition = block_matrix_partition cfg\<rparr>)"

section \<open>Blocks\<close>

datatype block_status_v2 =
    Unavailable | PendingBlock | VerifyingHeader | VerifyingConfidence | VerifyingData | Incomplete | Finished

definition block_status :: "u32 option \<Rightarrow> state \<Rightarrow> u32 \<Rightarrow> header_extension \<Rightarrow> block_status_v2 option" where
  "block_status sync_start st block_number ext =
     (if block_number > st_latest st then None
      else
        (let first_block = (case range_first (st_header_verified st) of Some f \<Rightarrow> f | None \<Rightarrow> st_latest st);
             first_sync_block = (case sync_start of Some n \<Rightarrow> n | None \<Rightarrow> first_block)
         in if block_number < first_sync_block then Some Unavailable
            else if extension_option ext = None then Some Incomplete
            else if block_number < first_block then
              (if range_contains (st_sync_data_verified st) block_number then Some Finished
               else if range_contains (st_sync_confidence_achieved st) block_number then Some VerifyingData
               else if range_contains (st_sync_header_verified st) block_number then Some VerifyingConfidence
               else if st_sync_latest st = Some block_number then Some VerifyingHeader
               else Some PendingBlock)
            else
              (if range_contains (st_data_verified st) block_number then Some Finished
               else if range_contains (st_confidence_achieved st) block_number then Some VerifyingData
               else if range_contains (st_header_verified st) block_number then Some VerifyingConfidence
               else if st_latest st = block_number then Some VerifyingHeader
               else Some PendingBlock)))"

record v2_block =
  vb_status :: block_status_v2
  vb_confidence :: "f64 option"

section \<open>Headers\<close>

text \<open>A commitment as text: \<open>"0x"\<close> and the hexadecimal digits of its 48 bytes; \<open>hex_decode\<close> is \<open>hex::decode\<close>.\<close>

definition commitment_serialize :: "(bytes \<Rightarrow> string) \<Rightarrow> commitment \<Rightarrow> string" where
  "commitment_serialize hex_encode c = ''0x'' @ hex_encode c"

definition commitment_deserialize :: "(string \<Rightarrow> bytes result) \<Rightarrow> string \<Rightarrow> commitment result" where
  "commitment_deserialize hex_decode s =
     (if \<not> starts_with s ''0x'' \<or> length s \<noteq> 48 * 2 + 2
      then Err [''Expected a hex string of correct length with 0x prefix'']
      else and_then (hex_decode (drop 2 s)) (\<lambda>decoded.
        if length decoded \<noteq> 48 then Err [''invalid length '' @ show_nat (length decoded) @ '', expected Expected vector of 48 bytes'']
        else Ok decoded))"

record api_extension =
  ae_rows :: u16
  ae_cols :: u16
  ae_data_root :: h256
  ae_commitments :: "commitment list"
  ae_app_lookup :: compact_lookup

record api_header =
  ah_hash :: h256
  ah_parent_hash :: h256
  ah_number :: u32
  ah_state_root :: h256
  ah_extrinsics_root :: h256
  ah_extension :: api_extension

definition api_extension_try_from :: "('dim, 'lk) kate \<Rightarrow> header_extension \<Rightarrow> api_extension result" where
  "api_extension_try_from K e =
     (case e of V3 v \<Rightarrow>
        map_res (\<lambda>cs. \<lparr>ae_rows = kc_rows (v3_commitment v), ae_cols = kc_cols (v3_commitment v),
                       ae_data_root = kc_data_root (v3_commitment v), ae_commitments = cs, ae_app_lookup = v3_app_lookup v\<rparr>)
          (commitments_from_slice K (kc_commitment (v3_commitment v))))"

definition api_header_try_from :: "('dim, 'lk) kate \<Rightarrow> header \<Rightarrow> api_header result" where
  "api_header_try_from K hdr =
     map_res (\<lambda>e. \<lparr>ah_hash = hash_of K hdr, ah_parent_hash = h_parent_hash hdr, ah_number = h_number hdr,
                   ah_state_root = h_state_root hdr, ah_extrinsics_root = h_extrinsics_root hdr, ah_extension = e\<rparr>)
       (api_extension_try_from K (h_extension hdr))"

section \<open>Data\<close>

datatype data_field = DataFieldData | DataFieldExtrinsic

record data_transaction =
  dt_data :: "bytes option"
  dt_extrinsic :: "bytes option"

definition data_transaction_try_from :: "('dim, 'lk) kate \<Rightarrow> bytes \<Rightarrow> data_transaction result" where
  "data_transaction_try_from K x = map_res (\<lambda>d. \<lparr>dt_data = d, dt_extrinsic = Some x\<rparr>) (decode_app_data K x)"

definition filter_fields :: "data_field set \<Rightarrow> data_transaction list \<Rightarrow> data_transaction list" where
  "filter_fields flds ts =
     (let ts1 = (if DataFieldExtrinsic \<notin> flds then map (\<lambda>t. t\<lparr>dt_extrinsic := None\<rparr>) ts else ts)
      in if DataFieldData \<notin> flds \<and> DataFieldExtrinsic \<in> flds then map (\<lambda>t. t\<lparr>dt_data := None\<rparr>) ts1 else ts1)"

text \<open>The query parameter: \<open>from_str\<close> is \<open>serde_json::from_str\<close> at the type of a field.\<close>

definition fields_query_parameter :: "(string \<Rightarrow> data_field result) \<Rightarrow> string \<Rightarrow> data_field set result" where
  "fields_query_parameter from_str s =
     map_res set (collect_res (map (\<lambda>part. wrap_err ''Cannot deserialize field'' (from_str (''\"'' @ part @ ''\"''))) (split_on CHR '','' s)))"

section \<open>Messages\<close>

datatype topic = TopicHeaderVerified | TopicConfidenceAchieved | TopicDataVerified

datatype publish_message =
    HeaderVerified u32 api_header
  | ConfidenceAchieved u32 "f64 option"
  | DataVerified u32 "data_transaction list"

definition message_of_event :: "('dim, 'lk) kate \<Rightarrow> event \<Rightarrow> publish_message result" where
  "message_of_event K e =
     (case e of HeaderUpdate hdr _ \<Rightarrow> map_res (\<lambda>h. HeaderVerified (ah_number h) h) (api_header_try_from K hdr))"

definition message_of_block :: "('dim, 'lk) block_verified \<Rightarrow> publish_message result" where
  "message_of_block b = Ok (ConfidenceAchieved (bv_block_num b) (bv_confidence b))"

definition message_of_data :: "('dim, 'lk) kate \<Rightarrow> u32 \<times> app_data \<Rightarrow> publish_message result" where
  "message_of_data K x = map_res (DataVerified (fst x)) (collect_res (map (data_transaction_try_from K) (snd x)))"

fun apply_filter :: "data_field set \<Rightarrow> publish_message \<Rightarrow> publish_message" where
  "apply_filter flds (DataVerified n ts) = DataVerified n (filter_fields flds ts)"
| "apply_filter flds m = m"

section \<open>Clients of the web socket\<close>

record api_subscription =
  su_topics :: "topic set"
  su_data_fields :: "data_field set"

type_synonym sender = nat
type_synonym ws_channels = "sender \<rightharpoonup> string list"

record ws_client =
  wc_subscription :: api_subscription
  wc_sender :: "sender option"

type_synonym ws_clients = "(string \<times> ws_client) list"

definition ws_client_new :: "api_subscription \<Rightarrow> ws_client" where
  "ws_client_new sub = \<lparr>wc_subscription = sub, wc_sender = None\<rparr>"

definition is_subscribed :: "ws_client \<Rightarrow> topic \<Rightarrow> bool" where
  "is_subscribed c t \<longleftrightarrow> t \<in> su_topics (wc_subscription c)"

definition sender_with_data_fields :: "ws_client \<Rightarrow> (sender \<times> data_field set) option" where
  "sender_with_data_fields c = map_option (\<lambda>s. (s, su_data_fields (wc_subscription c))) (wc_sender c)"

definition set_sender :: "string \<Rightarrow> sender \<Rightarrow> (ws_clients, unit) op" where
  "set_sender subscription_id s clients =
     (case map_of clients subscription_id of
        None \<Rightarrow> (Err [''Client is not subscribed''], clients)
      | Some c \<Rightarrow> (Ok (), AList.update subscription_id (c\<lparr>wc_sender := Some s\<rparr>) clients))"

definition has_subscription :: "ws_clients \<Rightarrow> string \<Rightarrow> bool" where
  "has_subscription clients subscription_id \<longleftrightarrow> map_of clients subscription_id \<noteq> None"

definition subscribe :: "string \<Rightarrow> api_subscription \<Rightarrow> ws_clients \<Rightarrow> ws_clients" where
  "subscribe subscription_id sub clients = AList.update subscription_id (ws_client_new sub) clients"

definition send_message :: "string \<Rightarrow> sender \<Rightarrow> string \<Rightarrow> (ws_channels, unit) op" where
  "send_message msg s text chs =
     (case chs s of None \<Rightarrow> (Err [msg, ''channel closed''], chs) | Some ms \<Rightarrow> (Ok (), chs(s \<mapsto> ms @ [text])))"

text \<open>What is sent to one client; \<open>to_json\<close> is \<open>serde_json::to_string\<close>.\<close>

definition publish_to ::
    "(publish_message \<Rightarrow> string result) \<Rightarrow> publish_message \<Rightarrow> sender \<times> data_field set \<Rightarrow> (ws_channels, unit) op" where
  "publish_to to_json_text message target =
     op_bind (op_lift (wrap_err ''Cannot convert to ws message'' (wrap_err ''Cannot serialize publish message''
                (to_json_text (apply_filter (snd target) message))))) (send_message ''Send failed'' (fst target))"

fun publish_all ::
    "(publish_message \<Rightarrow> string result) \<Rightarrow> publish_message \<Rightarrow> (sender \<times> data_field set) list \<Rightarrow> ws_channels \<Rightarrow>
     unit result list \<times> ws_channels" where
  "publish_all to_json_text message [] chs = ([], chs)"
| "publish_all to_json_text message (t # ts) chs =
     (case publish_to to_json_text message t chs of (r, chs') \<Rightarrow>
        (case publish_all to_json_text message ts chs' of (rs, chs'') \<Rightarrow> (r # rs, chs'')))"

definition publish_targets :: "ws_clients \<Rightarrow> topic \<Rightarrow> (sender \<times> data_field set) list" where
  "publish_targets clients t = flatten_options (map (sender_with_data_fields \<circ> snd) (filter (\<lambda>(_, c). is_subscribed c t) clients))"

definition ws_publish ::
    "(publish_message \<Rightarrow> string result) \<Rightarrow> ws_clients \<Rightarrow> topic \<Rightarrow> publish_message \<Rightarrow> ws_channels \<Rightarrow> unit result list \<times> ws_channels" where
  "ws_publish to_json_text clients t message = publish_all to_json_text message (publish_targets clients t)"

section \<open>Requests, responses and errors\<close>

type_synonym uuid = "128 word"

datatype transaction = TransactionData bytes | TransactionExtrinsic bytes

fun transaction_is_empty :: "transaction \<Rightarrow> bool" where
  "transaction_is_empty (TransactionData d) = (d = [])"
| "transaction_is_empty (TransactionExtrinsic d) = (d = [])"

record submit_response =
  sr_block_number :: u32
  sr_block_hash :: h256
  sr_hash :: h256
  sr_index :: u32

datatype payload = PayloadVersion | PayloadStatus | PayloadSubmit transaction

record request =
  rq_payload :: payload
  rq_request_id :: uuid

record 'a response =
  rp_request_id :: uuid
  rp_message :: 'a

datatype ws_response =
    WsVersion "version response"
  | WsStatus "v2_status response"
  | WsDataTransactionSubmitted "submit_response response"

datatype error_code = NotFoundCode | BadRequestCode | InternalServerErrorCode

record api_error =
  er_request_id :: "uuid option"
  er_cause :: "report option"
  er_error_code :: error_code
  er_message :: string

definition error_not_found :: api_error where
  "error_not_found = \<lparr>er_request_id = None, er_cause = None, er_error_code = NotFoundCode, er_message = ''Not Found''\<rparr>"

definition internal_server_error :: "report \<Rightarrow> api_error" where
  "internal_server_error cause =
     \<lparr>er_request_id = None, er_cause = Some cause, er_error_code = InternalServerErrorCode, er_message = ''Internal Server Error''\<rparr>"

definition bad_request_unknown :: "string \<Rightarrow> api_error" where
  "bad_request_unknown msg = \<lparr>er_request_id = None, er_cause = None, er_error_code = BadRequestCode, er_message = msg\<rparr>"

definition bad_request :: "uuid \<Rightarrow> string \<Rightarrow> api_error" where
  "bad_request i msg = \<lparr>er_request_id = Some i, er_cause = None, er_error_code = BadRequestCode, er_message = msg\<rparr>"

fun status_code :: "error_code \<Rightarrow> nat" where
  "status_code NotFoundCode = 404"
| "status_code BadRequestCode = 400"
| "status_code InternalServerErrorCode = 500"

definition error_into_response :: "api_error \<Rightarrow> nat \<times> string" where
  "error_into_response e = (status_code (er_error_code e), er_message e)"

section \<open>Progress of a block\<close>

text \<open>How far a block has come; waiting and the check of the header are one stage, because a block whose header is being
  checked waits again when the next header arrives.\<close>

fun status_rank :: "block_status_v2 \<Rightarrow> nat" where
  "status_rank VerifyingConfidence = 1"
| "status_rank VerifyingData = 2"
| "status_rank Finished = 3"
| "status_rank _ = 0"

instantiation block_status_v2 :: preorder
begin

definition less_eq_block_status_v2 :: "block_status_v2 \<Rightarrow> block_status_v2 \<Rightarrow> bool" where
  "less_eq_block_status_v2 a b \<longleftrightarrow> status_rank a \<le> status_rank b"

definition less_block_status_v2 :: "block_status_v2 \<Rightarrow> block_status_v2 \<Rightarrow> bool" where
  "less_block_status_v2 a b \<longleftrightarrow> status_rank a < status_rank b"

instance
  by standard (auto simp: less_eq_block_status_v2_def less_block_status_v2_def)

end

definition range_grows :: "block_range option \<Rightarrow> block_range option \<Rightarrow> bool" where
  "range_grows r r' \<longleftrightarrow> range_first r = None \<or>
     (range_first r' = range_first r \<and> (case (range_last r, range_last r') of (Some a, Some b) \<Rightarrow> a \<le> b | _ \<Rightarrow> False))"

definition state_progresses :: "state \<Rightarrow> state \<Rightarrow> bool" where
  "state_progresses st st' \<longleftrightarrow>
     st_latest st \<le> st_latest st' \<and> range_first (st_header_verified st) \<noteq> None \<and>
     range_grows (st_header_verified st) (st_header_verified st') \<and>
     range_grows (st_confidence_achieved st) (st_confidence_achieved st') \<and>
     range_grows (st_data_verified st) (st_data_verified st') \<and>
     range_grows (st_sync_header_verified st) (st_sync_header_verified st') \<and>
     range_grows (st_sync_confidence_achieved st) (st_sync_confidence_achieved st') \<and>
     range_grows (st_sync_data_verified st) (st_sync_data_verified st')"

text \<open>The texts that a list of targets contributes to one channel.\<close>

definition texts_for ::
    "(publish_message \<Rightarrow> string result) \<Rightarrow> publish_message \<Rightarrow> sender \<Rightarrow> (sender \<times> data_field set) list \<Rightarrow> string list" where
  "texts_for to_json_text m s targets =
     concat (map (\<lambda>(s', flds). if s' = s then (case to_json_text (apply_filter flds m) of Ok x \<Rightarrow> [x] | _ \<Rightarrow> []) else []) targets)"

lemma range_grows_contains: "range_grows r r' \<Longrightarrow> range_contains r n \<Longrightarrow> range_contains r' n"
  by (auto simp: range_grows_def range_contains_iff split: option.splits)

lemma range_grows_set: "range_last r \<noteq> None \<longrightarrow> the (range_last r) \<le> n \<Longrightarrow> range_grows r (range_set r n)"
  by (cases r) (auto simp: range_grows_def range_first_def range_last_def)

lemma in_publish_targets:
  "(s, flds) \<in> set (publish_targets clients t) \<longleftrightarrow>
     (\<exists>i c. (i, c) \<in> set clients \<and> t \<in> su_topics (wc_subscription c) \<and> wc_sender c = Some s \<and>
        flds = su_data_fields (wc_subscription c))"
  by (force simp: publish_targets_def flatten_options_def sender_with_data_fields_def is_subscribed_def split: option.splits)

lemma publish_all_effect:
  "publish_all to_json_text m targets chs = (rs, chs') \<Longrightarrow>
     length rs = length targets \<and> chs' s = map_option (\<lambda>ms. ms @ texts_for to_json_text m s targets) (chs s)"
proof (induction targets arbitrary: chs rs)
  case Nil
  then show ?case by (auto simp: texts_for_def option.map_ident)
next
  case (Cons t targets)
  obtain r chs1 where p: "publish_to to_json_text m t chs = (r, chs1)" by fastforce
  obtain rs1 where rs: "publish_all to_json_text m targets chs1 = (rs1, chs')" "rs = r # rs1"
    using Cons.prems p by (auto split: prod.splits)
  have "chs1 s = map_option (\<lambda>ms. ms @ texts_for to_json_text m s [t]) (chs s)"
    using p
    by (cases "to_json_text (apply_filter (snd t) m)"; cases "chs (fst t)"; cases "chs s")
      (auto simp: publish_to_def send_message_def texts_for_def split: prod.splits)
  with Cons.IH [OF rs(1)] rs(2) show ?case
    by (cases "chs s") (auto simp: texts_for_def)
qed

section \<open>Properties\<close>

text \<open>The status of a block never goes back. While the first verified header stays the same, the latest block does not decrease and the
  ranges of the state only grow at their ends, a block that has a status keeps one, and once its header is verified, its
  confidence achieved or its data verified, the later status says at least as much.\<close>

theorem block_status_never_regresses:
  assumes "state_progresses st st'" "block_status start st n ext = Some a"
  shows "\<exists>b. block_status start st' n ext = Some b \<and> a \<le> b"
proof -
  obtain f where f: "range_first (st_header_verified st) = Some f" "range_first (st_header_verified st') = Some f"
    using assms(1) by (auto simp: state_progresses_def range_grows_def)
  note grows = range_grows_contains [of "st_header_verified st" "st_header_verified st'" n]
    range_grows_contains [of "st_confidence_achieved st" "st_confidence_achieved st'" n]
    range_grows_contains [of "st_data_verified st" "st_data_verified st'" n]
    range_grows_contains [of "st_sync_header_verified st" "st_sync_header_verified st'" n]
    range_grows_contains [of "st_sync_confidence_achieved st" "st_sync_confidence_achieved st'" n]
    range_grows_contains [of "st_sync_data_verified st" "st_sync_data_verified st'" n]
  have "n \<le> st_latest st" using assms(2) by (auto simp: block_status_def split: if_splits)
  then have "\<not> st_latest st < n" "\<not> st_latest st' < n" using assms(1) by (auto simp: state_progresses_def)
  with assms f grows show ?thesis
    by (simp add: block_status_def Let_def state_progresses_def less_eq_block_status_v2_def split: if_splits)
qed

theorem block_status_never_regresses_witness:
  "\<exists>b. block_status None (state_default\<lparr>st_latest := 9, st_header_verified := Some \<lparr>br_first = 3, br_last = 5\<rparr>,
        st_confidence_achieved := Some \<lparr>br_first = 3, br_last = 4\<rparr>\<rparr>) 4 sample_extension = Some b \<and>
     VerifyingConfidence \<le> b"
  by (rule block_status_never_regresses [of
      "state_default\<lparr>st_latest := 8, st_header_verified := Some \<lparr>br_first = 3, br_last = 4\<rparr>\<rparr>"])
    (simp_all add: state_progresses_def range_grows_def state_default_def range_first_def range_last_def block_status_def
      range_contains_def block_range_contains_def)


text \<open>A filter never adds a field: the extrinsic is there only if it was asked for, and the data are dropped only if the extrinsic
  alone was asked for; filtering again with the same fields changes nothing.\<close>

theorem filter_fields_spec:
  "filter_fields flds ts =
     map (\<lambda>t. \<lparr>dt_data = (if flds = {DataFieldExtrinsic} then None else dt_data t),
               dt_extrinsic = (if DataFieldExtrinsic \<in> flds then dt_extrinsic t else None)\<rparr>) ts \<and>
   filter_fields flds (filter_fields flds ts) = filter_fields flds ts"
proof -
  have eq: "flds = {DataFieldExtrinsic} \<longleftrightarrow> DataFieldData \<notin> flds \<and> DataFieldExtrinsic \<in> flds"
    by (auto, metis data_field.exhaust)
  have surj: "\<lparr>dt_data = dt_data t, dt_extrinsic = dt_extrinsic t\<rparr> = t" for t by (cases t) simp
  show ?thesis unfolding eq by (auto simp: filter_fields_def surj)
qed

end
