(* ===== verification/Api_V2.thy ===== *)
theory Api_V2
  imports Api_Types Event_Loop
begin

text \<open>
  The second version of the API: the handlers of the HTTP requests (\<open>src/api/v2/handlers.rs\<close>, \<open>src/api/v2/handlers/p2p.rs\<close>), the
  submission of transactions (\<open>src/api/v2/transactions.rs\<close>), the web socket (\<open>src/api/v2/ws.rs\<close>) and the publishing of messages
  (\<open>publish\<close> in \<open>src/api/v2/mod.rs\<close>).

  A handler that returns \<open>Result<_, Error>\<close> is a result over \<open>api_error\<close>. The calls of \<open>avail_subxt\<close> that submit a transaction, the parser and the
  serializer of JSON and the downcast of an error to a \<open>DialError\<close> are parameters.

  The lemmas show when a block, its header and its data are served, and how responses and errors carry the identifier
  of the request.
\<close>

section \<open>Handlers\<close>

text \<open>\<open>map_err(Error::internal_server_error)\<close>.\<close>

definition or_internal :: "'a result \<Rightarrow> (api_error, 'a) res" where
  "or_internal = map_err internal_server_error"

definition subscriptions :: "string \<Rightarrow> api_subscription \<Rightarrow> ws_clients \<Rightarrow> string \<times> ws_clients" where
  "subscriptions new_id sub clients = (new_id, subscribe new_id sub clients)"

definition v2_submit :: "(transaction \<Rightarrow> ('n, submit_response) op) \<Rightarrow> transaction \<Rightarrow> 'n \<Rightarrow> (api_error, submit_response) res \<times> 'n" where
  "v2_submit submitter t n = (case submitter t n of (r, n') \<Rightarrow> (or_internal r, n'))"

text \<open>The common beginning of the three requests for a block.\<close>

definition stored_block_status :: "runtime_config \<Rightarrow> state \<Rightarrow> database \<Rightarrow> u32 \<Rightarrow> (api_error, block_status_v2) res" where
  "stored_block_status cfg st d n =
     and_then (or_internal (db_get_header d n)) (\<lambda>h.
       ok_or error_not_found
         (case h of None \<Rightarrow> None | Some hdr \<Rightarrow> block_status (sync_start_block cfg) st n (h_extension hdr)))"

definition v2_block_handler :: "u32 \<Rightarrow> runtime_config \<Rightarrow> state \<Rightarrow> database \<Rightarrow> (api_error, v2_block) res" where
  "v2_block_handler n cfg st d =
     and_then (stored_block_status cfg st d n) (\<lambda>status.
     and_then (or_internal (db_get_count d n)) (\<lambda>cnt.
       Ok \<lparr>vb_status = status, vb_confidence = map_option calculate_confidence cnt\<rparr>))"

definition v2_block_header :: "('dim, 'lk) kate \<Rightarrow> u32 \<Rightarrow> runtime_config \<Rightarrow> state \<Rightarrow> database \<Rightarrow> (api_error, api_header) res" where
  "v2_block_header K n cfg st d =
     and_then (stored_block_status cfg st d n) (\<lambda>status.
       if status = Unavailable \<or> status = PendingBlock \<or> status = VerifyingHeader
       then Err (bad_request_unknown ''Block header is not available'')
       else or_internal (and_then (and_then (db_get_header d n) (ok_or [''Header not found''])) (api_header_try_from K)))"

record data_response =
  dr_block_number :: u32
  dr_data_transactions :: "data_transaction list"

definition v2_block_data ::
    "('dim, 'lk) kate \<Rightarrow> u32 \<Rightarrow> data_field set option \<Rightarrow> runtime_config \<Rightarrow> state \<Rightarrow> database \<Rightarrow> (api_error, data_response) res" where
  "v2_block_data K n query cfg st d =
     and_then (ok_or error_not_found (app_id cfg)) (\<lambda>appid.
     and_then (stored_block_status cfg st d n) (\<lambda>status.
       if status \<noteq> Finished then Err (bad_request_unknown ''Block data is not available'')
       else
         and_then (or_internal (db_get_app_data d appid n)) (\<lambda>dat.
           case dat of
             None \<Rightarrow> Ok \<lparr>dr_block_number = n, dr_data_transactions = []\<rparr>
           | Some xs \<Rightarrow>
               and_then (or_internal (collect_res (map (data_transaction_try_from K) xs))) (\<lambda>ts.
                 Ok \<lparr>dr_block_number = n,
                     dr_data_transactions = (case query of None \<Rightarrow> ts | Some flds \<Rightarrow> filter_fields flds ts)\<rparr>))))"

section \<open>Handlers of the peer-to-peer requests\<close>

record peer_info_response =
  pi_peer_id :: string
  pi_local :: "string list"
  pi_external :: "string list"

definition get_peer_info ::
    "bool \<Rightarrow> channel \<Rightarrow> (channel \<Rightarrow> local_info result option) \<Rightarrow> command_queue \<Rightarrow> (api_error, peer_info_response) res \<times> command_queue" where
  "get_peer_info alive ch replies q =
     (case get_local_info alive ch replies q of (r, q') \<Rightarrow>
        (map_res (\<lambda>i. \<lparr>pi_peer_id = lin_peer_id i, pi_local = lin_local_listeners i, pi_external = lin_external_listeners i\<rparr>)
           (or_internal r), q'))"

datatype dial_error =
    LocalPeerId | NoAddresses | DialPeerConditionFalse | Aborted | WrongPeerId peer_id | Denied | Transport

record dial_success =
  ds_peer_id :: string
  ds_multiaddress :: string
  ds_established_in :: string
  ds_num_established :: u32

record dial_failure =
  df_error :: string
  df_description :: string

record dial_response =
  dl_success :: "dial_success option"
  dl_error :: "dial_failure option"

text \<open>The texts of a peer and of a transport error, and the error at the end of the chain of causes.\<close>

record dial_env =
  de_peer_text :: "peer_id \<Rightarrow> string"
  de_root_cause :: "report \<Rightarrow> dial_error option"
  de_error_text :: "dial_error \<Rightarrow> string"

definition dial_error_response :: "dial_env \<Rightarrow> peer_id \<Rightarrow> report \<Rightarrow> (api_error, dial_response) res" where
  "dial_error_response V p err =
     (case de_root_cause V err of
        None \<Rightarrow> Err (internal_server_error err)
      | Some LocalPeerId \<Rightarrow> Err (bad_request_unknown ''Can't dial yourself!'')
      | Some NoAddresses \<Rightarrow> Err (bad_request_unknown ''Address not provided.'')
      | Some (WrongPeerId obtained) \<Rightarrow>
          Ok \<lparr>dl_success = None, dl_error = Some \<lparr>df_error = ''wrong-peer-id'', df_description =
            ''The peerID obtained on the connection is not matching the one provided. User provided peerID: '' @ de_peer_text V p @
            ''. Observed peerID: '' @ de_peer_text V obtained @ ''.''\<rparr>\<rparr>
      | Some Transport \<Rightarrow>
          Ok \<lparr>dl_success = None, dl_error = Some \<lparr>df_error = ''transport'', df_description =
            ''An error occurred while negotiating the transport protocol(s) on a connection. Cause: '' @ de_error_text V Transport\<rparr>\<rparr>
      | Some _ \<Rightarrow> Err (internal_server_error err))"

definition dial_external_peer ::
    "dial_env \<Rightarrow> bool \<Rightarrow> channel \<Rightarrow> (channel \<Rightarrow> connection_info result option) \<Rightarrow> peer_id \<Rightarrow> multiaddr \<Rightarrow> command_queue \<Rightarrow>
     (api_error, dial_response) res \<times> command_queue" where
  "dial_external_peer V alive ch replies p a q =
     (case dial_peer alive p [a] ch replies q of
        (Ok info, q') \<Rightarrow>
          (Ok \<lparr>dl_success = Some \<lparr>ds_peer_id = de_peer_text V (ci_peer_id info), ds_multiaddress = ci_endpoint info,
                 ds_established_in = show_nat (ci_established_in info div nanos_per_sec), ds_num_established = ci_num_established info\<rparr>,
               dl_error = None\<rparr>, q')
      | (Err e, q') \<Rightarrow> (dial_error_response V p e, q')
      | (Panic m, q') \<Rightarrow> (Panic m, q'))"

section \<open>Submission\<close>

record ex_event =
  ee_block_hash :: h256
  ee_extrinsic_hash :: h256
  ee_extrinsic_index :: u32

record 'n submit_api =
  sa_submit_signed :: "bytes \<Rightarrow> u32 \<Rightarrow> ('n, ex_event) op"
  sa_submit_from_bytes :: "bytes \<Rightarrow> ('n, ex_event) op"
  sa_get_header_by_hash :: "h256 \<Rightarrow> ('n, header) op"

definition submitter_submit :: "'n submit_api \<Rightarrow> u32 \<Rightarrow> transaction \<Rightarrow> ('n, submit_response) op" where
  "submitter_submit S appid t =
     op_bind (case t of TransactionData dat \<Rightarrow> sa_submit_signed S dat appid
              | TransactionExtrinsic ext \<Rightarrow> sa_submit_from_bytes S ext) (\<lambda>ev.
     op_bind (sa_get_header_by_hash S (ee_block_hash ev)) (\<lambda>hdr.
       op_return \<lparr>sr_block_number = h_number hdr, sr_block_hash = ee_block_hash ev, sr_hash = ee_extrinsic_hash ev,
                  sr_index = ee_extrinsic_index ev\<rparr>))"

section \<open>The web socket\<close>

record 'n ws_env =
  we_parse :: "string \<Rightarrow> request result"
  we_show_h256 :: "h256 \<Rightarrow> string"
  we_version :: version
  we_config :: runtime_config
  we_submitter :: "(transaction \<Rightarrow> ('n, submit_response) op) option"
  we_response_json :: "ws_response \<Rightarrow> string result"
  we_error_json :: "api_error \<Rightarrow> string result"

definition handle_request :: "'n ws_env \<Rightarrow> state \<Rightarrow> string \<Rightarrow> 'n \<Rightarrow> (api_error, ws_response) res \<times> 'n" where
  "handle_request E st message n =
     (case we_parse E message of
        Panic m \<Rightarrow> (Panic m, n)
      | Err e \<Rightarrow> (Err (bad_request_unknown (''Failed to parse request: '' @ (case e of [] \<Rightarrow> '''' | m # _ \<Rightarrow> m))), n)
      | Ok rq \<Rightarrow>
          (let i = rq_request_id rq
           in case rq_payload rq of
                PayloadVersion \<Rightarrow> (Ok (WsVersion \<lparr>rp_request_id = i, rp_message = we_version E\<rparr>), n)
              | PayloadStatus \<Rightarrow>
                  (Ok (WsStatus \<lparr>rp_request_id = i, rp_message = v2_status_new (we_show_h256 E) (we_config E) st\<rparr>), n)
              | PayloadSubmit t \<Rightarrow>
                  (case we_submitter E of
                     None \<Rightarrow> (Err (bad_request i ''Submit is not configured.''), n)
                   | Some submitter \<Rightarrow>
                       if transaction_is_empty t then (Err (bad_request i ''Transaction is empty.''), n)
                       else
                         (case submitter t n of (r, n') \<Rightarrow>
                            (map_res (\<lambda>x. WsDataTransactionSubmitted \<lparr>rp_request_id = i, rp_message = x\<rparr>) (or_internal r), n')))))"

text \<open>\<open>send\<close>: its error is only logged.\<close>

definition ws_send :: "sender \<Rightarrow> string result \<Rightarrow> ws_channels \<Rightarrow> ws_channels" where
  "ws_send s text chs =
     snd (op_bind (op_lift (wrap_err ''Failed to serialize message'' text)) (send_message ''Failed to send message'' s) chs)"

text \<open>What the socket yields: an error, a message that is not text, or a text; and the state of the client at that time.\<close>

datatype socket_item = SocketError string | NotText | Text string

fun ws_loop :: "'n ws_env \<Rightarrow> sender \<Rightarrow> (socket_item \<times> state) list \<Rightarrow> ws_channels \<times> 'n \<Rightarrow> ws_channels \<times> 'n" where
  "ws_loop E s [] x = x"
| "ws_loop E s ((Text message, st) # is) (chs, n) =
     (case handle_request E st message n of
        (Ok response, n') \<Rightarrow> ws_loop E s is (ws_send s (we_response_json E response) chs, n')
      | (Err e, n') \<Rightarrow> ws_loop E s is (ws_send s (we_error_json E e) chs, n')
      | (Panic _, n') \<Rightarrow> (chs, n'))"
| "ws_loop E s (_ # is) x = ws_loop E s is x"

definition ws_connect ::
    "'n ws_env \<Rightarrow> string \<Rightarrow> sender \<Rightarrow> (socket_item \<times> state) list \<Rightarrow> ws_clients \<times> ws_channels \<times> 'n \<Rightarrow> ws_clients \<times> ws_channels \<times> 'n" where
  "ws_connect E subscription_id s items w =
     (case w of (clients, chs, n) \<Rightarrow>
        (case set_sender subscription_id s clients of
           (Ok _, clients') \<Rightarrow> (clients', ws_loop E s items (chs(s \<mapsto> []), n))
         | (_, clients') \<Rightarrow> (clients', chs, n)))"

text \<open>The handler of the upgrade request: a socket is only opened for a subscription that exists; several may be opened for the same one, and the last
  one gets the messages. The error is warp's rejection as not found.\<close>

definition v2_ws ::
    "'n ws_env \<Rightarrow> string \<Rightarrow> sender \<Rightarrow> (socket_item \<times> state) list \<Rightarrow> ws_clients \<times> ws_channels \<times> 'n \<Rightarrow>
     (string, unit) res \<times> ws_clients \<times> ws_channels \<times> 'n" where
  "v2_ws E subscription_id s items w =
     (if \<not> has_subscription (fst w) subscription_id then (Err ''not found'', w)
      else (Ok (), ws_connect E subscription_id s items w))"

definition v2_status_handler :: "(h256 \<Rightarrow> string) \<Rightarrow> runtime_config \<Rightarrow> state \<Rightarrow> v2_status" where
  "v2_status_handler show_h256 config st = v2_status_new show_h256 config st"

section \<open>Publishing\<close>

text \<open>The loop of \<open>publish\<close>: each item is what the receiver yields, converted to a message, with the clients at that time.\<close>

fun publish_run ::
    "(publish_message \<Rightarrow> string result) \<Rightarrow> topic \<Rightarrow> ((string, publish_message result) res \<times> ws_clients) list \<Rightarrow> ws_channels \<Rightarrow> ws_channels" where
  "publish_run to_json_text t [] chs = chs"
| "publish_run to_json_text t ((received, clients) # is) chs =
     (case received of
        Ok (Ok message) \<Rightarrow> publish_run to_json_text t is (snd (ws_publish to_json_text clients t message chs))
      | Ok (Err _) \<Rightarrow> publish_run to_json_text t is chs
      | _ \<Rightarrow> chs)"

section \<open>Examples\<close>

definition sample_served_state :: state where
  "sample_served_state = state_default\<lparr>st_latest := 9, st_header_verified := Some \<lparr>br_first = 3, br_last = 9\<rparr>,
     st_data_verified := Some \<lparr>br_first = 3, br_last = 5\<rparr>\<rparr>"

definition sample_served_db :: database where
  "sample_served_db = db_empty\<lparr>db_entries := [BlockHeader 4 \<mapsto> HeaderValue (sample_header 4), AppData 1 4 \<mapsto> AppDataValue [[8, 9]]]\<rparr>"

definition failing_ws_env :: "unit ws_env" where
  "failing_ws_env = \<lparr>we_parse = (\<lambda>_. Ok \<lparr>rq_payload = PayloadSubmit (TransactionData [1]), rq_request_id = 42\<rparr>), we_show_h256 = (\<lambda>_. ''0x''),
     we_version = \<lparr>ve_version = ''1'', ve_network_version = ''2''\<rparr>, we_config = runtime_config_default,
     we_submitter = Some (\<lambda>_ n. (Err [''not reachable''], n)), we_response_json = (\<lambda>_. Ok ''''), we_error_json = (\<lambda>_. Ok '''')\<rparr>"

section \<open>Lemmas\<close>

lemma or_internal_Ok [res_simps]: "or_internal r = Ok x \<longleftrightarrow> r = Ok x"
  by (simp add: or_internal_def res_simps)

lemma or_internal_Err [res_simps]: "or_internal r = Err e \<longleftrightarrow> (\<exists>c. r = Err c \<and> e = internal_server_error c)"
  by (simp add: or_internal_def res_simps)

lemma stored_block_status_Ok:
  "stored_block_status cfg st d n = Ok status \<longleftrightarrow>
     (\<exists>hdr. db_get_header d n = Ok (Some hdr) \<and> block_status (sync_start_block cfg) st n (h_extension hdr) = Some status)"
  by (auto simp: stored_block_status_def res_simps split: option.splits)

lemma collect_res_map_Ok_iff: "collect_res (map f xs) = Ok ys \<longleftrightarrow> list_all2 (\<lambda>x y. f x = Ok y) xs ys"
  by (simp add: collect_res_eq_Ok list_eq_iff_nth_eq list_all2_conv_all_nth) (metis length_map nth_map)

section \<open>Properties\<close>

text \<open>C33: The data of a block are served only if the client runs for an application, the header of the block is stored and its status is
  \<open>Finished\<close>; what is served are the stored data of this application and block, each decoded, after the filter
  that was asked for, and nothing if no data are stored.\<close>

theorem block_data_served:
  assumes "v2_block_data K n query cfg st d = Ok r"
  shows "dr_block_number r = n \<and>
    (\<exists>appid hdr. app_id cfg = Some appid \<and> db_get_header d n = Ok (Some hdr) \<and>
       block_status (sync_start_block cfg) st n (h_extension hdr) = Some Finished \<and>
       (db_get_app_data d appid n = Ok None \<and> dr_data_transactions r = [] \<or>
        (\<exists>xs ts. db_get_app_data d appid n = Ok (Some xs) \<and> list_all2 (\<lambda>x t. data_transaction_try_from K x = Ok t) xs ts \<and>
           dr_data_transactions r = (case query of None \<Rightarrow> ts | Some flds \<Rightarrow> filter_fields flds ts))))"
proof -
  obtain appid hdr dat where h: "app_id cfg = Some appid" "db_get_header d n = Ok (Some hdr)"
      "block_status (sync_start_block cfg) st n (h_extension hdr) = Some Finished" "db_get_app_data d appid n = Ok dat"
    and out: "(case dat of
             None \<Rightarrow> Ok \<lparr>dr_block_number = n, dr_data_transactions = []\<rparr>
           | Some xs \<Rightarrow>
               and_then (or_internal (collect_res (map (data_transaction_try_from K) xs))) (\<lambda>ts.
                 Ok \<lparr>dr_block_number = n,
                     dr_data_transactions = (case query of None \<Rightarrow> ts | Some flds \<Rightarrow> filter_fields flds ts)\<rparr>)) = Ok r"
    using assms by (auto simp: v2_block_data_def res_simps stored_block_status_Ok split: if_splits)
  show ?thesis
  proof (cases dat)
    case None
    with h out show ?thesis by auto
  next
    case (Some xs)
    with out obtain ts where "list_all2 (\<lambda>x t. data_transaction_try_from K x = Ok t) xs ts"
      "r = \<lparr>dr_block_number = n, dr_data_transactions = (case query of None \<Rightarrow> ts | Some flds \<Rightarrow> filter_fields flds ts)\<rparr>"
      by (auto simp: res_simps collect_res_map_Ok_iff)
    with h Some show ?thesis by auto
  qed
qed

lemma sample_block_data:
  "v2_block_data sample_kate 4 (Some {DataFieldData}) (runtime_config_default\<lparr>app_id := Some 1\<rparr>) sample_served_state sample_served_db =
     Ok \<lparr>dr_block_number = 4, dr_data_transactions = [\<lparr>dt_data = Some [8, 9], dt_extrinsic = None\<rparr>]\<rparr>"
  by (simp add: v2_block_data_def stored_block_status_def or_internal_def db_get_header_def db_get_app_data_def db_get_def
      sample_served_db_def sample_served_state_def db_empty_def block_status_def Let_def state_default_def range_first_def
      range_contains_def block_range_contains_def data_transaction_try_from_def decode_app_data_def filter_fields_def
      runtime_config_default_def)

theorem block_data_served_witness:
  "\<exists>hdr. db_get_header sample_served_db 4 = Ok (Some hdr) \<and> block_status None sample_served_state 4 (h_extension hdr) = Some Finished"
  using block_data_served [OF sample_block_data] by (auto simp: runtime_config_default_def)

text \<open>C35: Every answer to a request that could be parsed carries the identifier of the request, except the error of a failed
  submission: it has none, so the client cannot tell which of its requests failed.\<close>

theorem handle_request_correlates:
  assumes "we_parse E message = Ok rq"
  shows "case fst (handle_request E st message n) of
      Ok (WsVersion r) \<Rightarrow> rp_request_id r = rq_request_id rq \<and> rp_message r = we_version E
    | Ok (WsStatus r) \<Rightarrow> rp_request_id r = rq_request_id rq \<and> rp_message r = v2_status_new (we_show_h256 E) (we_config E) st
    | Ok (WsDataTransactionSubmitted r) \<Rightarrow> rp_request_id r = rq_request_id rq
    | Err e \<Rightarrow> er_request_id e = (if er_error_code e = BadRequestCode then Some (rq_request_id rq) else None)
    | Panic m \<Rightarrow> (\<exists>submitter t. we_submitter E = Some submitter \<and> fst (submitter t n) = Panic m)"
proof (cases "rq_payload rq")
  case (PayloadSubmit t)
  show ?thesis
  proof (cases "we_submitter E = None \<or> transaction_is_empty t")
    case True
    then show ?thesis using assms PayloadSubmit by (auto simp: handle_request_def Let_def bad_request_def split: option.splits)
  next
    case False
    then obtain submitter where s: "we_submitter E = Some submitter" by auto
    obtain r n' where r: "submitter t n = (r, n')" by fastforce
    have "fst (submitter t n) = r" using r by simp
    with s r False assms PayloadSubmit show ?thesis
      by (cases r) (auto simp: handle_request_def Let_def or_internal_def internal_server_error_def intro: exI [of _ t])
  qed
qed (use assms in \<open>simp_all add: handle_request_def Let_def\<close>)

theorem handle_request_correlates_witness:
  "fst (handle_request failing_ws_env state_default ''{}'' ()) = Err (internal_server_error [''not reachable'']) \<and>
   er_request_id (internal_server_error [''not reachable'']) = None"
proof -
  have "fst (handle_request failing_ws_env state_default ''{}'' ()) = Err (internal_server_error [''not reachable''])"
    by (simp add: handle_request_def failing_ws_env_def Let_def or_internal_def)
  with handle_request_correlates [of failing_ws_env "''{}''" "\<lparr>rq_payload = PayloadSubmit (TransactionData [1]), rq_request_id = 42\<rparr>"
      state_default "()"] show ?thesis
    by (simp add: failing_ws_env_def internal_server_error_def)
qed

end
