(* ===== verification/Db_Refinement.thy ===== *)
theory Db_Refinement
  imports Data
begin

text \<open>
  The abstract specification of the database, a map from keys to values, and the refinement of it by the two implementations of the
  trait \<open>Database\<close> (\<open>src/data/rocks_db.rs\<close>, \<open>src/data/mem_db.rs\<close>).

  A client is a sequence of puts, gets and deletes. The refinement says that a client cannot tell an implementation from
  the map: it sees the same answers. It is proved once, for every \<open>key_value\<close> store, as a simulation along the
  abstraction function that reads every key.
\<close>

section \<open>Clients\<close>

datatype db_op = PutOp key db_value | GetOp key | DeleteOp key

datatype db_answer = Done | Value "db_value option"

text \<open>The run of a client on an implementation; the first failure ends it.\<close>

fun run_client ::
    "('s \<Rightarrow> key \<Rightarrow> db_value \<Rightarrow> 's result) \<Rightarrow> ('s \<Rightarrow> key \<Rightarrow> db_value option result) \<Rightarrow> ('s \<Rightarrow> key \<Rightarrow> 's result) \<Rightarrow>
     db_op list \<Rightarrow> 's \<Rightarrow> (db_answer list \<times> 's) result" where
  "run_client put get delete [] s = Ok ([], s)"
| "run_client put get delete (PutOp k v # ops) s =
     and_then (put s k v) (\<lambda>s'. map_res (apfst (Cons Done)) (run_client put get delete ops s'))"
| "run_client put get delete (GetOp k # ops) s =
     and_then (get s k) (\<lambda>v. map_res (apfst (Cons (Value v))) (run_client put get delete ops s))"
| "run_client put get delete (DeleteOp k # ops) s =
     and_then (delete s k) (\<lambda>s'. map_res (apfst (Cons Done)) (run_client put get delete ops s'))"

section \<open>The specification\<close>

type_synonym db_spec = "key \<rightharpoonup> db_value"

fun spec_step :: "db_op \<Rightarrow> db_spec \<Rightarrow> db_answer \<times> db_spec" where
  "spec_step (PutOp k v) m = (Done, m(k \<mapsto> v))"
| "spec_step (GetOp k) m = (Value (m k), m)"
| "spec_step (DeleteOp k) m = (Done, m(k := None))"

fun spec_run :: "db_op list \<Rightarrow> db_spec \<Rightarrow> db_answer list \<times> db_spec" where
  "spec_run [] m = ([], m)"
| "spec_run (p # ops) m = (case spec_step p m of (a, m') \<Rightarrow> apfst (Cons a) (spec_run ops m'))"

fun op_admitted :: "(key \<Rightarrow> db_value \<Rightarrow> bool) \<Rightarrow> db_op \<Rightarrow> bool" where
  "op_admitted admits (PutOp k v) = admits k v"
| "op_admitted admits _ = True"

text \<open>The state of an implementation represents a map when every get returns its value.\<close>

definition represents :: "('s \<Rightarrow> key \<Rightarrow> db_value option result) \<Rightarrow> 's \<Rightarrow> db_spec \<Rightarrow> bool" where
  "represents get s m \<longleftrightarrow> (\<forall>k. get s k = Ok (m k))"

section \<open>The simulation\<close>

context key_value
begin

lemma represents_put:
  "put s k v = Ok s' \<Longrightarrow> admits k v \<Longrightarrow> readable s \<Longrightarrow> represents get s m \<Longrightarrow> represents get s' (m(k \<mapsto> v))"
  by (simp add: represents_def get_put)

lemma represents_delete:
  "delete s k = Ok s' \<Longrightarrow> readable s \<Longrightarrow> represents get s m \<Longrightarrow> represents get s' (m(k := None))"
  by (simp add: represents_def get_delete)

lemma client_refines:
  "\<lbrakk>run_client put get delete ops s = Ok (answers, s'); list_all (op_admitted admits) ops; readable s; represents get s m\<rbrakk> \<Longrightarrow>
     answers = fst (spec_run ops m) \<and> represents get s' (snd (spec_run ops m))"
proof (induction ops arbitrary: s m answers)
  case Nil
  then show ?case by simp
next
  case (Cons p ops)
  show ?case
  proof (cases p)
    case (PutOp k v)
    with Cons.prems(1) obtain s1 as where s1: "put s k v = Ok s1" "run_client put get delete ops s1 = Ok (as, s')" "answers = Done # as"
      by (auto simp: res_simps)
    from Cons.IH [OF s1(2)] represents_put [OF s1(1)] readable_put [OF s1(1)] Cons.prems s1(3) PutOp
    show ?thesis by (auto split: prod.splits)
  next
    case (GetOp k)
    with Cons.prems(1,4) obtain as where as: "run_client put get delete ops s = Ok (as, s')" "answers = Value (m k) # as"
      by (auto simp: res_simps represents_def)
    from Cons.IH [OF as(1)] Cons.prems as(2) GetOp show ?thesis by (auto split: prod.splits)
  next
    case (DeleteOp k)
    with Cons.prems(1) obtain s1 as where s1: "delete s k = Ok s1" "run_client put get delete ops s1 = Ok (as, s')" "answers = Done # as"
      by (auto simp: res_simps)
    from Cons.IH [OF s1(2)] represents_delete [OF s1(1)] readable_delete [OF s1(1)] Cons.prems s1(3) DeleteOp
    show ?thesis by (auto split: prod.splits)
  qed
qed

end

context rocks_backend
begin

lemmas rocks_client_refines = rocks.client_refines

end

section \<open>Properties\<close>

text \<open>C10: \<open>RocksDB\<close> refines the map: a client that runs without a failure gets exactly the answers of the specification, whatever puts, gets and
  deletes it makes under whatever kinds of keys, and the map is represented again afterwards. The crate \<open>rocksdb\<close> is
  assumed to keep what is put per column family and key, and the values to survive their codec.\<close>

theorem rocks_db_refines_map:
  assumes "rocks_backend R" "all_cfs_open R db" "list_all (op_admitted (scale_admits S)) ops"
    and "represents (rocks_get R S) db m"
    and "run_client (rocks_put R S) (rocks_get R S) (rocks_delete R) ops db = Ok (answers, db')"
  shows "answers = fst (spec_run ops m) \<and> represents (rocks_get R S) db' (snd (spec_run ops m))"
  by (rule rocks_backend.rocks_client_refines [OF assms(1,5,3,2,4)])

theorem rocks_db_refines_map_witness:
  "[Done, Value (Some (CountValue 7)), Done, Value None] =
     fst (spec_run [PutOp (VerifiedCellCount 5) (CountValue 7), GetOp (VerifiedCellCount 5), DeleteOp (VerifiedCellCount 5),
       GetOp (VerifiedCellCount 5)] Map.empty)"
proof -
  let ?R = "map_rocksdb rocks_column_families"
  let ?k = "VerifiedCellCount 5"
  have get: "rocks_get ?R sample_scale db k =
      (case db (rocks_key k) of None \<Rightarrow> Ok None | Some bs \<Rightarrow> map_res Some (wrap_err ''Failed decoding the app data.''
        (scale_decode sample_scale k bs)))" if "db (rocks_key k) = None \<or> (\<exists>v. scale_decode sample_scale k (the (db (rocks_key k))) = Ok v)" for db k
    using that rocks_key_cf [of k] by (auto simp: rocks_get_def Let_def split: option.splits)
  have "run_client (rocks_put ?R sample_scale) (rocks_get ?R sample_scale) (rocks_delete ?R)
      [PutOp ?k (CountValue 7), GetOp ?k, DeleteOp ?k, GetOp ?k] Map.empty =
      Ok ([Done, Value (Some (CountValue 7)), Done, Value None], Map.empty)"
    by (simp add: rocks_put_def rocks_delete_def rocks_get_def sample_scale_def rocks_column_families_def)
  moreover have "rocks_backend ?R" by (rule map_backend.rocks_backend_axioms)
  moreover have "all_cfs_open ?R Map.empty" by (simp add: all_cfs_open_def list_all_iff)
  moreover have "list_all (op_admitted (scale_admits sample_scale)) [PutOp ?k (CountValue 7), GetOp ?k, DeleteOp ?k, GetOp ?k]"
    by (simp add: scale_admits_def sample_scale_def)
  moreover have "represents (rocks_get ?R sample_scale) Map.empty Map.empty" by (simp add: represents_def get)
  ultimately show ?thesis using rocks_db_refines_map [of ?R Map.empty sample_scale] by blast
qed

text \<open>\<open>MemoryDB\<close>, on which the tests run, refines the same map; so a client cannot tell it from \<open>RocksDB\<close>.\<close>

theorem memory_db_refines_map:
  assumes "list_all (op_admitted (json_admits J)) ops" "represents (mem_get J) db m"
    and "run_client (mem_put J) (mem_get J) mem_delete ops db = Ok (answers, db')"
  shows "answers = fst (spec_run ops m) \<and> represents (mem_get J) db' (snd (spec_run ops m))"
  by (rule memory.client_refines [OF assms(3,1) TrueI assms(2)])

theorem memory_db_refines_map_witness:
  "[Done, Value (Some (CountValue 7))] =
     fst (spec_run [PutOp (VerifiedCellCount 5) (CountValue 7), GetOp (VerifiedCellCount 5)] Map.empty)"
proof -
  let ?k = "VerifiedCellCount 5"
  have "run_client (mem_put sample_json) (mem_get sample_json) mem_delete [PutOp ?k (CountValue 7), GetOp ?k] Map.empty =
      Ok ([Done, Value (Some (CountValue 7))], Map.empty(hash_map_key ?k \<mapsto> show_word (7 :: u32)))"
    by (simp add: mem_put_def mem_get_def sample_json_def parse_u32_show_word)
  moreover have "list_all (op_admitted (json_admits sample_json)) [PutOp ?k (CountValue 7), GetOp ?k]"
    by (simp add: json_admits_def sample_json_def parse_u32_show_word)
  moreover have "represents (mem_get sample_json) Map.empty Map.empty" by (simp add: represents_def mem_get_def)
  ultimately show ?thesis using memory_db_refines_map by blast
qed

end
