(* ===== verification/Shutdown_Phases.thy ===== *)
theory Shutdown_Phases
  imports Shutdown
begin

text \<open>
  The abstract specification of the shutdown controller: a program runs, then it drains until the last delay token is dropped, then it
  is down. The step relation of \<open>Shutdown\<close>, in which all tasks work on the controller, is a refinement of it.
\<close>

datatype 'r phase = Running | Draining 'r | Down 'r

inductive phase_step :: "'r phase \<Rightarrow> 'r phase \<Rightarrow> bool" where
  stay: "phase_step p p"
| trigger_and_drain: "phase_step Running (Draining r)"
| trigger_and_stop: "phase_step Running (Down r)"
| drained: "phase_step (Draining r) (Down r)"

text \<open>The order of the phases: from running over draining to down, with one reason.\<close>

instantiation phase :: (type) order_bot
begin

definition less_eq_phase :: "'a phase \<Rightarrow> 'a phase \<Rightarrow> bool" where
  "less_eq_phase p q \<longleftrightarrow> p = Running \<or> p = q \<or> (\<exists>r. p = Draining r \<and> q = Down r)"

definition less_phase :: "'a phase \<Rightarrow> 'a phase \<Rightarrow> bool" where
  "less_phase p q \<longleftrightarrow> p \<le> q \<and> p \<noteq> q"

definition bot_phase :: "'a phase" where "bot_phase = Running"

instance
  by standard (auto simp: less_eq_phase_def less_phase_def bot_phase_def)

end

definition phase_of :: "'r shutdown_sys \<Rightarrow> 'r phase" where
  "phase_of s =
     (case c_reason (ctl s) of
        None \<Rightarrow> Running
      | Some r \<Rightarrow> if live_delay_tokens s = 0 then Down r else Draining r)"

lemma phase_of_new: "phase_of sys_new = Running"
  by (simp add: phase_of_def sys_new_def controller_new_def)

lemma phase_simulation:
  assumes "sd_step s s'" "sys_inv s"
  shows "phase_step (phase_of s) (phase_of s')"
  using assms
  by (induction rule: sd_step.induct)
    (auto simp: phase_of_def controller_ops sys_inv_def Let_def intro: phase_step.intros split: option.splits if_splits nat.splits)

lemma phase_step_iff: "phase_step p q \<longleftrightarrow> p \<le> q"
  by (cases p; cases q) (auto simp: less_eq_phase_def intro: phase_step.intros elim: phase_step.cases)

lemma phase_steps_iff: "phase_step\<^sup>*\<^sup>* p q \<longleftrightarrow> p \<le> q"
proof
  show "p \<le> q" if "phase_step\<^sup>*\<^sup>* p q" using that by (induction rule: rtranclp_induct) (auto simp: phase_step_iff)
qed (simp add: phase_step_iff r_into_rtranclp)

lemma phase_simulation_steps:
  assumes "sd_step\<^sup>*\<^sup>* s s'" "sys_inv s"
  shows "phase_of s \<le> phase_of s'"
  using assms
proof (induction rule: rtranclp_induct)
  case base
  show ?case by simp
next
  case (step t u)
  have "sys_inv t" by (rule sys.inv_steps [OF step.hyps(1) step.prems])
  with step show ?case by (meson phase_simulation phase_step_iff order_trans)
qed

section \<open>Properties\<close>

text \<open>C11: The controller, with all tasks working on it in any order, refines the three phases: along every run the phase goes
  from running over draining to down, never back and never to another reason. What a task observes is the phase: the shutdown is triggered
  when the program does not run any more, it is completed when the phase is \<open>Down\<close>, and a new delay token is refused exactly then.\<close>

theorem shutdown_refines_phases:
  assumes "sd_step\<^sup>*\<^sup>* sys_new s" "sd_step\<^sup>*\<^sup>* s s'"
  shows "phase_step\<^sup>*\<^sup>* Running (phase_of s) \<and> phase_step\<^sup>*\<^sup>* (phase_of s) (phase_of s') \<and> phase_of s \<le> phase_of s' \<and>
    (is_shutdown_triggered (ctl s) \<longleftrightarrow> phase_of s \<noteq> Running) \<and>
    (is_shutdown_completed (ctl s) \<longleftrightarrow> (\<exists>r. phase_of s = Down r)) \<and>
    (\<forall>r. delay_token (ctl s) = Err (ShutdownHasCompleted r) \<longleftrightarrow> phase_of s = Down r)"
proof -
  have inv: "sys_inv s" by (rule sys_reachable [OF assms(1)])
  have "phase_step\<^sup>*\<^sup>* Running (phase_of s)"
    using phase_simulation_steps [OF assms(1) sys_inv_new] by (simp add: phase_of_new phase_steps_iff)
  with inv phase_simulation_steps [OF assms(2) inv] show ?thesis
    by (auto simp: phase_steps_iff phase_of_def sys_inv_def is_shutdown_triggered_def is_shutdown_completed_def delay_token_def
        split: option.splits if_splits)
qed

theorem shutdown_refines_phases_witness:
  "phase_of (sys_new\<lparr>ctl := snd (trigger_shutdown controller_new ''sigterm'')\<rparr>) = Down ''sigterm''"
proof -
  let ?s = "sys_new\<lparr>ctl := snd (trigger_shutdown controller_new ''sigterm'')\<rparr>"
  have "sd_step sys_new (sys_new\<lparr>ctl := snd (trigger_shutdown (ctl sys_new) ''sigterm'')\<rparr>)"
    by (rule step_trigger)
  then have "sd_step\<^sup>*\<^sup>* sys_new ?s" by (simp add: sys_new_def)
  from shutdown_refines_phases [OF this rtranclp.rtrancl_refl]
  have "delay_token (ctl ?s) = Err (ShutdownHasCompleted ''sigterm'') \<longleftrightarrow> phase_of ?s = Down ''sigterm''" by blast
  then show ?thesis by (simp add: controller_ops controller_new_def sys_new_def)
qed

end
