(* ===== verification/Startup.thy ===== *)
theory Startup
  imports Api_Types Maintenance Crawl_Client Event_Loop
begin

text \<open>
  The start of the program (\<open>src/bin/avail-light.rs\<close>): the checks and initialisations of \<open>run\<close>, waiting for the first finalized header, the
  initial state, and the tasks that are spawned for a configuration.

  The outcomes of what \<open>run\<close> calls in other crates and in the file system are the record \<open>startup_env\<close>; each task is the run function of a component that
  is modelled elsewhere, here only named together with its arguments. The mutex of the state is not poisoned. Logging is left out.

  The lemmas show which tasks a successful start has spawned and in which state they find the program.
\<close>

section \<open>Helpers\<close>

text \<open>\<open>parse_level\<close> is \<open>str::parse\<close> of the level of the crate \<open>tracing\<close>.\<close>

definition upper_char :: "char \<Rightarrow> char" where
  "upper_char c = (if 97 \<le> (of_char c :: nat) \<and> of_char c \<le> (122 :: nat) then char_of (of_char c - 32 :: nat) else c)"

definition parse_log_level :: "(string \<Rightarrow> (string, 'level) res) \<Rightarrow> string \<Rightarrow> 'level \<Rightarrow> 'level \<times> string option" where
  "parse_log_level parse_level level dflt =
     (case parse_level (map upper_char level) of Ok l \<Rightarrow> (l, None) | Err e \<Rightarrow> (dflt, Some e) | Panic m \<Rightarrow> (dflt, Some m))"

datatype protocol = Ip4Unspecified | Tcp u16 | Ws string

definition construct_multiaddress :: "bool \<Rightarrow> u16 \<Rightarrow> protocol list" where
  "construct_multiaddress is_websocket p =
     (let tcp_multiaddress = [Ip4Unspecified, Tcp p]
      in if is_websocket then tcp_multiaddress @ [Ws ''avail-light''] else tcp_multiaddress)"

definition client_role :: "bool \<Rightarrow> runtime_config \<Rightarrow> string" where
  "client_role crawl cfg = (if is_fat_client cfg then ''fatnode'' else if crawl then ''crawler'' else ''lightnode'')"

definition startup_attributes :: "bool \<Rightarrow> runtime_config \<Rightarrow> string \<Rightarrow> string \<Rightarrow> metric_attributes" where
  "startup_attributes crawl cfg peer avail_public_key =
     \<lparr>ma_role = client_role crawl cfg, ma_peer_id = peer, ma_origin = origin cfg, ma_avail_address = avail_public_key,
      ma_operating_mode = kademlia_mode_text (operation_mode cfg),
      ma_partition_size = (case block_matrix_partition cfg of
          Some p \<Rightarrow> show_word (part_number p) @ ''/'' @ show_word (part_fraction p) | None \<Rightarrow> ''n/a''),
      ma_network = network_name (genesis_hash cfg)\<rparr>"

definition startup_params :: "runtime_config \<Rightarrow> static_config_params" where
  "startup_params cfg =
     \<lparr>sp_block_confidence_treshold = confidence cfg, sp_replication_factor = replication_factor cfg, sp_query_timeout = query_timeout cfg,
      sp_pruning_interval = store_pruning_interval cfg, sp_telemetry_flush_interval = ot_flush_block_interval cfg\<rparr>"

section \<open>Outcomes\<close>

record startup_env =
  su_identity :: "string result"
  su_clean :: bool
  su_path_exists :: bool
  su_remove_dir :: "unit result"
  su_open_db :: "unit result"
  su_keypair :: "libp2p_config \<Rightarrow> string result"
  su_version :: string
  su_otel :: "metric_attributes \<Rightarrow> unit result"
  su_listen :: "protocol list \<Rightarrow> unit result"
  su_rpc_init :: "unit result"
  su_first_header :: "(string, header result) res"
  su_subscriptions_finished :: bool
  su_subscriptions_error :: "report option"
  su_crawl :: "crawl_config option"

datatype task =
    TaskEventLoop bool
  | TaskBootstrap "(Kad_Store.peer_id \<times> multiaddr) list"
  | TaskSubscriptions
  | TaskServer
  | TaskAppClient app_client_config u32 "u32 \<times> u32"
  | TaskPublish topic
  | TaskCrawl u64 crawl_mode partition
  | TaskSync sync_client_config "u32 \<times> u32"
  | TaskSyncFinality header
  | TaskMaintenance static_config_params
  | TaskFatClient fat_client_config partition
  | TaskLightClient light_client_config

text \<open>The state of the start: the shared state, the tasks that were spawned and the metrics that were counted so far.\<close>

record startup_state =
  su_state :: state
  su_tasks :: "task list"
  su_counted :: "metric_counter list"

definition spawn :: "task list \<Rightarrow> (startup_state, unit) op" where
  "spawn ts s = (Ok (), s\<lparr>su_tasks := su_tasks s @ ts\<rparr>)"

definition with_state :: "(state \<Rightarrow> state) \<Rightarrow> (startup_state, unit) op" where
  "with_state f s = (Ok (), s\<lparr>su_state := f (su_state s)\<rparr>)"

definition count_start :: "metric_counter \<Rightarrow> (startup_state, unit) op" where
  "count_start c s = (Ok (), s\<lparr>su_counted := su_counted s @ [c]\<rparr>)"

section \<open>The start\<close>

definition startup_services :: "startup_env \<Rightarrow> runtime_config \<Rightarrow> (startup_state, unit) op" where
  "startup_services E cfg =
     op_bind (op_lift (su_identity E)) (\<lambda>avail_public_key.
     op_bind (op_lift (if su_clean E \<and> su_path_exists E then wrap_err ''Failed to remove local state directory'' (su_remove_dir E) else Ok ())) (\<lambda>_.
     op_bind (op_lift (if bootstraps cfg = [] then
         Err [''Bootstrap node list must not be empty. Either use a '' @ [CHR 0x27] @ ''--network'' @ [CHR 0x27] @
              '' flag or add a list of bootstrap nodes in the configuration file''] else Ok ())) (\<lambda>_.
     op_bind (op_lift (wrap_err ''Avail Light could not initialize database'' (su_open_db E))) (\<lambda>_.
     op_bind (op_lift (libp2p_config_of (su_version E) cfg)) (\<lambda>cfg_libp2p.
     op_bind (op_lift (su_keypair E cfg_libp2p)) (\<lambda>peer.
     op_bind (op_lift (wrap_err ''Unable to initialize OpenTelemetry service''
         (su_otel E (startup_attributes (su_crawl E \<noteq> None) cfg peer avail_public_key)))) (\<lambda>_.
     op_bind (spawn [TaskEventLoop (is_fat_client cfg)]) (\<lambda>_.
     op_bind (op_lift (wrap_err ''Listening on TCP not to fail.'' (su_listen E (construct_multiaddress (ws_transport_enable cfg) (port cfg))))) (\<lambda>_.
     op_bind (spawn [TaskBootstrap (map multiaddr_of_config (bootstraps cfg))]) (\<lambda>_.
     op_bind (op_lift (su_rpc_init E)) (\<lambda>_.
       spawn [TaskSubscriptions])))))))))))"

text \<open>Waiting for the first header; an error of the subscription loop is preferred when it has ended with one.\<close>

definition startup_first_header :: "startup_env \<Rightarrow> header result" where
  "startup_first_header E =
     (let prefer = (\<lambda>report. if \<not> su_subscriptions_finished E then Err report
                              else (case su_subscriptions_error E of Some e \<Rightarrow> Err e | None \<Rightarrow> Err report))
      in case su_first_header E of
           Ok (Ok hdr) \<Rightarrow> Ok hdr
         | Ok (Err report) \<Rightarrow> prefer report
         | Ok (Panic m) \<Rightarrow> Panic m
         | Err reason \<Rightarrow> prefer [reason]
         | Panic m \<Rightarrow> Panic m)"

definition startup_clients :: "startup_env \<Rightarrow> runtime_config \<Rightarrow> header \<Rightarrow> (startup_state, unit) op" where
  "startup_clients E cfg hdr =
     (let srange = sync_range cfg (h_number hdr)
      in
        op_bind (with_state (\<lambda>st. st\<lparr>st_latest := h_number hdr\<rparr>)) (\<lambda>_.
        op_bind (spawn [TaskServer]) (\<lambda>_.
        op_bind (spawn (case app_id cfg of Some a \<Rightarrow> [TaskAppClient (app_client_config_of cfg) a srange] | None \<Rightarrow> [])) (\<lambda>_.
        op_bind (spawn [TaskPublish TopicHeaderVerified, TaskPublish TopicConfidenceAchieved]) (\<lambda>_.
        op_bind (spawn (if app_id cfg \<noteq> None then [TaskPublish TopicDataVerified] else [])) (\<lambda>_.
        op_bind (spawn (case su_crawl E of
             Some c \<Rightarrow> if cr_crawl_block c
                       then [TaskCrawl (cr_crawl_block_delay c) (cr_crawl_block_mode c)
                               (case cr_crawl_block_matrix_partition c of Some p \<Rightarrow> p | None \<Rightarrow> ENTIRE_BLOCK)] else []
           | None \<Rightarrow> [])) (\<lambda>_.
        op_bind (if sync_start_block cfg \<noteq> None
                 then op_bind (with_state (\<lambda>st. st\<lparr>st_synced := Some False\<rparr>)) (\<lambda>_. spawn [TaskSync (sync_client_config_of cfg) srange])
                 else op_return ()) (\<lambda>_.
        op_bind (if sync_finality_enable cfg then spawn [TaskSyncFinality hdr]
                 else with_state (\<lambda>st. st\<lparr>st_finality_synced := True\<rparr>)) (\<lambda>_.
        op_bind (spawn [TaskMaintenance (startup_params cfg)]) (\<lambda>_.
        op_bind (spawn (case block_matrix_partition cfg of
                   Some p \<Rightarrow> [TaskFatClient (fat_client_config_of cfg) p]
                 | None \<Rightarrow> [TaskLightClient (light_client_config_of cfg)])) (\<lambda>_.
          count_start Starts)))))))))))"

definition startup_run :: "startup_env \<Rightarrow> runtime_config \<Rightarrow> (startup_state, unit) op" where
  "startup_run E cfg =
     op_bind (startup_services E cfg) (\<lambda>_.
     op_bind (op_lift (startup_first_header E)) (\<lambda>hdr.
       startup_clients E cfg hdr))"

section \<open>Lemmas\<close>

text \<open>The tasks of a configuration, in the order in which they are spawned.\<close>

definition client_tasks :: "startup_env \<Rightarrow> runtime_config \<Rightarrow> header \<Rightarrow> task list" where
  "client_tasks E cfg hdr =
     [TaskServer] @
     (case app_id cfg of Some a \<Rightarrow> [TaskAppClient (app_client_config_of cfg) a (sync_range cfg (h_number hdr))] | None \<Rightarrow> []) @
     [TaskPublish TopicHeaderVerified, TaskPublish TopicConfidenceAchieved] @
     (if app_id cfg \<noteq> None then [TaskPublish TopicDataVerified] else []) @
     (case su_crawl E of
        Some c \<Rightarrow> if cr_crawl_block c
                  then [TaskCrawl (cr_crawl_block_delay c) (cr_crawl_block_mode c)
                          (case cr_crawl_block_matrix_partition c of Some p \<Rightarrow> p | None \<Rightarrow> ENTIRE_BLOCK)] else []
      | None \<Rightarrow> []) @
     (if sync_start_block cfg \<noteq> None then [TaskSync (sync_client_config_of cfg) (sync_range cfg (h_number hdr))] else []) @
     (if sync_finality_enable cfg then [TaskSyncFinality hdr] else []) @
     [TaskMaintenance (startup_params cfg)] @
     (case block_matrix_partition cfg of
        Some p \<Rightarrow> [TaskFatClient (fat_client_config_of cfg) p] | None \<Rightarrow> [TaskLightClient (light_client_config_of cfg)])"

definition sample_startup_env :: startup_env where
  "sample_startup_env =
     \<lparr>su_identity = Ok ''key'', su_clean = False, su_path_exists = True, su_remove_dir = Ok (), su_open_db = Ok (), su_keypair = (\<lambda>_. Ok ''peer''),
      su_version = ''1.12.2'', su_otel = (\<lambda>_. Ok ()), su_listen = (\<lambda>_. Ok ()), su_rpc_init = Ok (), su_first_header = Ok (Ok (sample_header 3)),
      su_subscriptions_finished = False, su_subscriptions_error = None, su_crawl = None\<rparr>"

definition sample_startup_config :: runtime_config where
  "sample_startup_config = runtime_config_default\<lparr>bootstraps := [Compact ([7], ''/ip4/1.1.1.1/tcp/37000'')]\<rparr>"

lemma startup_services_Ok:
  assumes "startup_services E cfg s = (Ok u, s')"
  shows "bootstraps cfg \<noteq> [] \<and>
    s' = s\<lparr>su_tasks := su_tasks s @
      [TaskEventLoop (is_fat_client cfg), TaskBootstrap (map multiaddr_of_config (bootstraps cfg)), TaskSubscriptions]\<rparr>"
  using assms by (auto simp: startup_services_def res_simps op_lift_def spawn_def split: if_splits)

lemma startup_clients_eq:
  "startup_clients E cfg hdr s =
     (Ok (), s\<lparr>su_state := (su_state s)\<lparr>st_latest := h_number hdr,
         st_synced := (if sync_start_block cfg \<noteq> None then Some False else st_synced (su_state s)),
         st_finality_synced := (if sync_finality_enable cfg then st_finality_synced (su_state s) else True)\<rparr>,
       su_tasks := su_tasks s @ client_tasks E cfg hdr,
       su_counted := su_counted s @ [Starts]\<rparr>)"
  by (cases s) (simp add: startup_clients_def client_tasks_def op_bind_def spawn_def with_state_def count_start_def op_return_def Let_def)

lemma client_tasks_light: "TaskLightClient c \<in> set (client_tasks E cfg hdr) \<longleftrightarrow> block_matrix_partition cfg = None \<and> c = light_client_config_of cfg"
  by (simp add: client_tasks_def split: option.split)

lemma client_tasks_fat: "TaskFatClient c p \<in> set (client_tasks E cfg hdr) \<longleftrightarrow> block_matrix_partition cfg = Some p \<and> c = fat_client_config_of cfg"
  by (auto simp: client_tasks_def split: option.split)

lemma client_tasks_app:
  "TaskAppClient c a srange \<in> set (client_tasks E cfg hdr) \<longleftrightarrow>
     app_id cfg = Some a \<and> c = app_client_config_of cfg \<and> srange = sync_range cfg (h_number hdr)"
  by (auto simp: client_tasks_def split: option.split)

text \<open>C36: 
  A start that succeeds: there are bootstrap nodes, the first finalized header was received and is the latest block, the background tasks run before
  the clients, the light client runs exactly when no partition is configured and the fat client exactly when one is, the application client exactly when
  an application is configured, and the state only counts as finality synced from the start when the finality sync is disabled.
\<close>

theorem startup_spawns_clients:
  assumes "startup_run E cfg \<lparr>su_state = state_default, su_tasks = [], su_counted = []\<rparr> = (Ok (), s')"
  shows "bootstraps cfg \<noteq> [] \<and>
    (\<exists>hdr. startup_first_header E = Ok hdr \<and>
       su_tasks s' = [TaskEventLoop (is_fat_client cfg), TaskBootstrap (map multiaddr_of_config (bootstraps cfg)), TaskSubscriptions] @
         client_tasks E cfg hdr \<and>
       st_latest (su_state s') = h_number hdr) \<and>
    (TaskLightClient (light_client_config_of cfg) \<in> set (su_tasks s') \<longleftrightarrow> \<not> is_fat_client cfg) \<and>
    (\<forall>p. TaskFatClient (fat_client_config_of cfg) p \<in> set (su_tasks s') \<longleftrightarrow> block_matrix_partition cfg = Some p) \<and>
    (\<forall>a. TaskAppClient (app_client_config_of cfg) a (sync_range cfg (st_latest (su_state s'))) \<in> set (su_tasks s') \<longleftrightarrow> app_id cfg = Some a) \<and>
    (st_finality_synced (su_state s') \<longleftrightarrow> \<not> sync_finality_enable cfg) \<and>
    su_counted s' = [Starts]"
proof -
  obtain s1 hdr where s1: "startup_services E cfg \<lparr>su_state = state_default, su_tasks = [], su_counted = []\<rparr> = (Ok (), s1)"
    and hdr: "startup_first_header E = Ok hdr" and s': "startup_clients E cfg hdr s1 = (Ok (), s')"
    using assms by (auto simp: startup_run_def res_simps op_lift_def)
  note s1 = startup_services_Ok [OF s1]
  show ?thesis
    using s1 hdr s'
    by (auto simp: startup_clients_eq client_tasks_light client_tasks_fat client_tasks_app is_fat_client_def state_default_def)
qed

theorem startup_spawns_clients_witness:
  "\<exists>s'. startup_run sample_startup_env sample_startup_config \<lparr>su_state = state_default, su_tasks = [], su_counted = []\<rparr> = (Ok (), s') \<and>
     TaskLightClient (light_client_config_of sample_startup_config) \<in> set (su_tasks s') \<and> su_counted s' = [Starts]"
proof -
  have "fst (startup_run sample_startup_env sample_startup_config \<lparr>su_state = state_default, su_tasks = [], su_counted = []\<rparr>) = Ok ()"
    by (simp add: startup_run_def startup_services_def startup_first_header_def startup_clients_eq op_bind_def op_lift_def spawn_def
        wrap_err_def sample_startup_env_def sample_startup_config_def runtime_config_default_def
        libp2p_config_of_def kademlia_config_of_def non_zero_def)
  then obtain s' where r: "startup_run sample_startup_env sample_startup_config
      \<lparr>su_state = state_default, su_tasks = [], su_counted = []\<rparr> = (Ok (), s')"
    by (metis prod.collapse)
  have "\<not> is_fat_client sample_startup_config"
    by (simp add: is_fat_client_def sample_startup_config_def runtime_config_default_def)
  with startup_spawns_clients [OF r] r show ?thesis by blast
qed

end
