(* ===== verification/Light_Client.thy ===== *)
theory Light_Client
  imports Client_State
begin

text \<open>
  The light client (\<open>src/light_client.rs\<close>): sampling of the cells of a block, the confidence, and the loop over the finalized
  headers.

  \<open>fetch\<close> is \<open>network::Client::fetch_verified\<close>; the random cells of one block are the function \<open>positions_of\<close>, which stands for a
  terminated call of \<open>generate_random_cells\<close>.

  The lemmas show what a block with a confidence went through, what is stored for it, and that the confidence is
  at least the configured one.
\<close>

section \<open>One block\<close>

definition fetch_metrics :: "fetch_stats \<Rightarrow> metrics_call list" where
  "fetch_metrics st =
     [RecordCall (DHTFetched (fs_dht_fetched st)), RecordCall (DHTFetchedPercentage (fs_dht_fetched_percentage st)),
      RecordCall (DHTFetchDuration (fs_dht_fetch_duration st))] @
     (case fs_rpc_fetched st of Some x \<Rightarrow> [RecordCall (RPCFetched x)] | None \<Rightarrow> []) @
     (case fs_rpc_fetch_duration st of Some x \<Rightarrow> [RecordCall (RPCFetchDuration x)] | None \<Rightarrow> [])"

definition confidence_achieved :: "u32 \<Rightarrow> state \<Rightarrow> state" where
  "confidence_achieved n st = st\<lparr>st_confidence_achieved := range_set (st_confidence_achieved st) n\<rparr>"

text \<open>What follows when enough cells were verified.\<close>

definition light_store_confidence ::
    "header \<Rightarrow> nat \<Rightarrow> (('n, 'dim, 'lk) client_sys, f64 option) op" where
  "light_store_confidence hdr verified =
     op_bind (op_wrap_err ''Light Client failed to store Confidence Factor''
                (on_db (db_put_op (VerifiedCellCount (h_number hdr)) (CountValue (word_of_nat verified))))) (\<lambda>_ s.
       (let s1 = on_state (confidence_achieved (h_number hdr)) s;
            conf = calculate_confidence (word_of_nat verified);
            s2 = cs_metric [RecordCall (BlockConfidence conf)] s1
        in op_bind (op_wrap_err ''Light Client failed to store Block Header''
                      (on_db (db_put_op (BlockHeader (h_number hdr)) (HeaderValue hdr))))
             (\<lambda>_. op_return (Some conf)) s2))"

definition light_process_block ::
    "('dim, 'lk) kate \<Rightarrow>
     (u32 \<Rightarrow> h256 \<Rightarrow> 'dim \<Rightarrow> commitment list \<Rightarrow> position list \<Rightarrow> ('n, cell list \<times> position list \<times> fetch_stats) op) \<Rightarrow>
     ('dim \<Rightarrow> u32 \<Rightarrow> position list) \<Rightarrow> light_client_config \<Rightarrow> header \<Rightarrow> (('n, 'dim, 'lk) client_sys, f64 option) op" where
  "light_process_block K fetch positions_of cfg hdr s0 =
     (let block_number = h_number hdr;
          header_hash = hash_of K hdr;
          s = cs_metric [CountCall SessionBlocks, RecordCall (BlockHeight block_number)] s0
      in case extract_kate (h_extension hdr) of
           None \<Rightarrow>
             op_bind (op_wrap_err ''Light Client failed to store Block Header''
                        (on_db (db_put_op (BlockHeader block_number) (HeaderValue hdr))))
               (\<lambda>_. op_return None) (on_state (confidence_achieved block_number) s)
         | Some (rows, cols, _, commitment) \<Rightarrow>
             (case dimensions_new K rows cols of
                None \<Rightarrow> (Ok None, s)
              | Some dims \<Rightarrow>
                  if dim_cols K dims \<le> 2 then (Ok None, s)
                  else
                    op_bind (op_lift (commitments_from_slice K commitment)) (\<lambda>commitments.
                      (let positions = positions_of dims (cell_count_for_confidence (lc_confidence cfg))
                       in op_bind (on_net (fetch block_number header_hash dims commitments positions))
                            (\<lambda>(fetched, unfetched, stats) s1.
                              (let s2 = cs_metric (fetch_metrics stats) s1
                               in if length positions > length fetched then (Ok None, s2)
                                  else light_store_confidence hdr (length fetched) s2)))) s))"

section \<open>The loop\<close>

fun light_client_run ::
    "('dim, 'lk) kate \<Rightarrow>
     (u32 \<Rightarrow> h256 \<Rightarrow> 'dim \<Rightarrow> commitment list \<Rightarrow> position list \<Rightarrow> ('n, cell list \<times> position list \<times> fetch_stats) op) \<Rightarrow>
     light_client_config \<Rightarrow> 'dim block_input list \<Rightarrow> (('n, 'dim, 'lk) client_sys, unit) op" where
  "light_client_run K fetch cfg [] s = (Ok (), s)"
| "light_client_run K fetch cfg (i # is) s =
     (case bi_event i of
        Ok (HeaderUpdate hdr received_at) \<Rightarrow>
          (let s1 = processing_delay (lc_block_processing_delay cfg) (bi_elapsed i) s
           in case light_process_block K fetch (bi_positions i) cfg hdr s1 of
                (Ok conf, s2) \<Rightarrow>
                  (case block_verified_try_from K hdr conf of
                     Ok msg \<Rightarrow> light_client_run K fetch cfg is (send_verified (bi_receiver_alive i) msg s2)
                   | Err _ \<Rightarrow> light_client_run K fetch cfg is s2
                   | Panic m \<Rightarrow> (Panic m, s2))
              | (Err e, s2) \<Rightarrow> (Ok (), cs_trigger_shutdown (''Cannot process block: '' @ report_text e) s2)
              | (Panic m, s2) \<Rightarrow> (Panic m, s2))
      | _ \<Rightarrow> (Ok (), s))"

section \<open>An example\<close>

definition sample_sys :: "((unit, string) rpc_client net_state, u16 \<times> u16, (u32 \<times> u32) list) client_sys" where
  "sample_sys = \<lparr>cs_db = db_empty, cs_state = state_default, cs_net = sample_net_state, cs_metrics = [], cs_sent = [],
     cs_shutdown = controller_new\<rparr>"

section \<open>Lemmas\<close>

text \<open>What a client did that assigns a confidence: \<open>fetched\<close> are verified cells at all of the requested positions.\<close>

definition sampled ::
    "('dim, 'lk) kate \<Rightarrow> header \<Rightarrow> ('dim \<Rightarrow> u32 \<Rightarrow> position list) \<Rightarrow> u32 \<Rightarrow> 'dim \<Rightarrow> cell list \<Rightarrow> bool" where
  "sampled K hdr positions_of cnt dims fetched \<longleftrightarrow>
     (\<exists>rows cols data_root commitment commitments.
        extract_kate (h_extension hdr) = Some (rows, cols, data_root, commitment) \<and>
        dimensions_new K rows cols = Some dims \<and> commitments_from_slice K commitment = Ok commitments \<and>
        list_all (cell_verified K dims commitments) fetched \<and> distinct (map cell_position fetched) \<and>
        set (map cell_position fetched) = set (positions_of dims cnt) \<and> length fetched = length (positions_of dims cnt))"

lemma client_frame [simp]:
  "cs_db (cs_metric ms s) = cs_db s" "cs_state (cs_metric ms s) = cs_state s" "cs_net (cs_metric ms s) = cs_net s"
  "cs_db (on_state f s) = cs_db s" "cs_state (on_state f s) = f (cs_state s)" "cs_sent (cs_metric ms s) = cs_sent s"
  "cs_sent (on_state f s) = cs_sent s"
  by (simp_all add: cs_metric_def on_state_def)

lemma db_put_eq_Ok:
  "db_put d k v = Ok d' \<longleftrightarrow> db_put_fault d k = None \<and> d' = d\<lparr>db_entries := (db_entries d)(k \<mapsto> v)\<rparr>"
  by (auto simp: db_put_def split: option.splits)

lemma light_store_confidence_Ok:
  assumes "light_store_confidence hdr n s = (Ok r, s')"
  shows "r = Some (calculate_confidence (word_of_nat n)) \<and>
    db_entries (cs_db s') (VerifiedCellCount (h_number hdr)) = Some (CountValue (word_of_nat n)) \<and>
    db_entries (cs_db s') (BlockHeader (h_number hdr)) = Some (HeaderValue hdr) \<and>
    range_last (st_confidence_achieved (cs_state s')) = Some (h_number hdr)"
  using assms
  by (auto simp: light_store_confidence_def res_simps Let_def db_put_eq_Ok confidence_achieved_def range_set_last)

context network_client
begin

lemma light_confidence:
  assumes run: "light_process_block K fetch positions_of cfg hdr s = (Ok (Some conf), s')"
    and dist: "\<And>rows cols rt cms d. extract_kate (h_extension hdr) = Some (rows, cols, rt, cms) \<Longrightarrow>
      dimensions_new K rows cols = Some d \<Longrightarrow> distinct (positions_of d (cell_count_for_confidence (lc_confidence cfg)))"
  shows "\<exists>dims fetched. sampled K hdr positions_of (cell_count_for_confidence (lc_confidence cfg)) dims fetched \<and>
    2 < dim_cols K dims \<and> conf = calculate_confidence (word_of_nat (length fetched)) \<and>
    db_entries (cs_db s') (VerifiedCellCount (h_number hdr)) = Some (CountValue (word_of_nat (length fetched))) \<and>
    db_entries (cs_db s') (BlockHeader (h_number hdr)) = Some (HeaderValue hdr) \<and>
    range_last (st_confidence_achieved (cs_state s')) = Some (h_number hdr)"
proof -
  let ?cnt = "cell_count_for_confidence (lc_confidence cfg)"
  obtain rows cols rt commitment dims commitments fetched unfetched stats t t' u where
    k: "extract_kate (h_extension hdr) = Some (rows, cols, rt, commitment)" "dimensions_new K rows cols = Some dims"
      "commitments_from_slice K commitment = Ok commitments" "2 < dim_cols K dims"
    and f: "fetch (h_number hdr) (hash_of K hdr) dims commitments (positions_of dims ?cnt) t = (Ok (fetched, unfetched, stats), t')"
    and le: "length (positions_of dims ?cnt) \<le> length fetched"
    and st: "light_store_confidence hdr (length fetched) u = (Ok (Some conf), s')"
    using run
    by (auto simp: light_process_block_def Let_def res_simps not_le not_less split: option.splits if_splits prod.splits)
  from fetch_all [OF f dist [OF k(1,2)] le] k have "sampled K hdr positions_of ?cnt dims fetched"
    by (auto simp: sampled_def)
  with light_store_confidence_Ok [OF st] k(4) show ?thesis by auto
qed

end

text \<open>A block without a confidence leaves no count of verified cells behind.\<close>

lemma light_no_confidence:
  assumes "light_process_block K fetch positions_of cfg hdr s = (Ok None, s')"
  shows "db_entries (cs_db s') (VerifiedCellCount n) = db_entries (cs_db s) (VerifiedCellCount n)"
  using assms light_store_confidence_Ok [of hdr _ _ None s']
  by (auto simp: light_process_block_def Let_def res_simps db_put_eq_Ok split: option.splits if_splits prod.splits)

section \<open>Properties\<close>

text \<open>When the light client reports a confidence for a block, it has requested the random cells of the block, a
  proof of every one of them was verified against the commitments in the header, the confidence is computed from their
  number, and the number, the header and the state are stored. The fetch is the one of the network client, whatever the DHT and
  the nodes answer.\<close>

theorem light_client_confidence_sound:
  assumes "light_process_block (ne_kate E) (fetch_verified (E\<lparr>ne_request := request_kate_proof X A R\<rparr>)) positions_of cfg hdr s =
      (Ok (Some conf), s')"
    and "\<And>d n. distinct (positions_of d n)"
  shows "\<exists>dims fetched. sampled (ne_kate E) hdr positions_of (cell_count_for_confidence (lc_confidence cfg)) dims fetched \<and>
    2 < dim_cols (ne_kate E) dims \<and> conf = calculate_confidence (word_of_nat (length fetched)) \<and>
    db_entries (cs_db s') (VerifiedCellCount (h_number hdr)) = Some (CountValue (word_of_nat (length fetched))) \<and>
    db_entries (cs_db s') (BlockHeader (h_number hdr)) = Some (HeaderValue hdr) \<and>
    range_last (st_confidence_achieved (cs_state s')) = Some (h_number hdr)"
  by (rule net.light_confidence [OF assms(1)]) (rule assms(2))

lemma length_sample_requested: "length sample_requested = 2"
  by (simp add: sample_requested_def)

lemma sample_light_block:
  "\<exists>s'. light_process_block sample_kate (fetch_verified (sample_net\<lparr>ne_request := request_kate_proof sample_subxt sample_node_api one_attempt\<rparr>))
     (\<lambda>_ _. sample_requested) cfg (sample_header 3) sample_sys = (Ok (Some (Fin 75)), s')"
  by (simp add: light_process_block_def Let_def sample_sys_def op_bind_def on_net_def sample_fetch light_store_confidence_def
      op_wrap_err_def on_db_def db_put_op_def db_put_def db_empty_def cs_metric_def on_state_def op_return_def op_lift_def
      calculate_confidence_def length_sample_requested word_le_nat_alt)

theorem light_client_confidence_sound_witness:
  "\<exists>s' dims fetched. light_process_block sample_kate
      (fetch_verified (sample_net\<lparr>ne_request := request_kate_proof sample_subxt sample_node_api one_attempt\<rparr>))
      (\<lambda>_ _. sample_requested) \<lparr>lc_confidence = Fin 50, lc_block_processing_delay = None\<rparr> (sample_header 3) sample_sys =
        (Ok (Some (Fin 75)), s') \<and>
     sampled sample_kate (sample_header 3) (\<lambda>_ _. sample_requested) (cell_count_for_confidence (Fin 50)) dims fetched \<and>
     Fin 75 = calculate_confidence (word_of_nat (length fetched))"
proof -
  let ?cfg = "\<lparr>lc_confidence = Fin 50, lc_block_processing_delay = None\<rparr>"
  obtain s' where run: "light_process_block (ne_kate sample_net)
      (fetch_verified (sample_net\<lparr>ne_request := request_kate_proof sample_subxt sample_node_api one_attempt\<rparr>))
      (\<lambda>_ _. sample_requested) ?cfg (sample_header 3) sample_sys = (Ok (Some (Fin 75)), s')"
    using sample_light_block [of ?cfg] by (auto simp: sample_net_def)
  from light_client_confidence_sound [OF run sample_net_ok] run show ?thesis by (auto simp: sample_net_def)
qed

end
