(* ===== verification/Sync_Client.thy ===== *)
theory Sync_Client
  imports Light_Client
begin

text \<open>
  The sync client (\<open>src/sync_client.rs\<close>): sampling of the blocks before the first finalized one that the node has seen.

  \<open>rpc_header\<close> is \<open>rpc::Client::get_header_by_block_number\<close>, \<open>fetch\<close> is \<open>network::Client::fetch_verified\<close>, both on the same network
  state. The random cells and whether the channel of verified blocks has a receiver may differ from block to block.

  The lemmas show that a count of verified cells is stored only for a block whose cells were all verified, that a block
  whose count is stored is not processed again, and that the state calls a block achieved whose sampling failed.
\<close>

section \<open>Storage and headers\<close>

definition sc_get_header_by_block_number ::
    "('dim, 'lk) kate \<Rightarrow> (u32 \<Rightarrow> ('n, header \<times> h256) op) \<Rightarrow> u32 \<Rightarrow> (('n, 'dim, 'lk) client_sys, header \<times> h256) op" where
  "sc_get_header_by_block_number K rpc_header n s =
     (case wrap_err ''Sync Client failed to get Block Header from the storage'' (db_get_header (cs_db s) n) of
        Ok (Some hdr) \<Rightarrow> (Ok (hdr, hash_of K hdr), s)
      | Ok None \<Rightarrow>
          op_bind (op_wrap_err ''Sync Client failed to get Block by Block Number from storage'' (on_net (rpc_header n)))
            (\<lambda>(hdr, hash).
              op_bind (op_wrap_err ''Sync Client failed to store Block Header''
                         (on_db (db_put_op (BlockHeader n) (HeaderValue hdr)))) (\<lambda>_. op_return (hdr, hash))) s
      | Err e \<Rightarrow> (Err e, s)
      | Panic m \<Rightarrow> (Panic m, s))"

definition sc_is_confidence_stored :: "u32 \<Rightarrow> database \<Rightarrow> bool result" where
  "sc_is_confidence_stored n d =
     map_res (\<lambda>c. c \<noteq> None) (wrap_err ''Sync Client failed to check if Confidence Factor is stored'' (db_get_count d n))"

definition sc_store_confidence :: "u32 \<Rightarrow> u32 \<Rightarrow> (database, unit) op" where
  "sc_store_confidence cnt n =
     op_wrap_err ''Sync Client failed to store Confidence Factor'' (db_put_op (VerifiedCellCount n) (CountValue cnt))"

section \<open>One block\<close>

text \<open>\<open>TryInto<u32>\<close> for \<open>usize\<close>.\<close>

definition try_into_u32 :: "nat \<Rightarrow> u32 result" where
  "try_into_u32 n = (if n < 2 ^ 32 then Ok (word_of_nat n) else Err [''out of range integral type conversion attempted''])"

definition sync_process_block ::
    "('dim, 'lk) kate \<Rightarrow>
     (u32 \<Rightarrow> h256 \<Rightarrow> 'dim \<Rightarrow> commitment list \<Rightarrow> position list \<Rightarrow> ('n, cell list \<times> position list \<times> fetch_stats) op) \<Rightarrow>
     ('dim \<Rightarrow> u32 \<Rightarrow> position list) \<Rightarrow> bool \<Rightarrow> sync_client_config \<Rightarrow> header \<Rightarrow> h256 \<Rightarrow>
     (('n, 'dim, 'lk) client_sys, unit) op" where
  "sync_process_block K fetch positions_of alive cfg hdr header_hash =
     (let block_number = h_number hdr
      in case extract_kate (h_extension hdr) of
           None \<Rightarrow> op_return ()
         | Some (rows, cols, _, commitment) \<Rightarrow>
             op_bind (op_lift (ok_or [''Invalid dimensions''] (dimensions_new K rows cols))) (\<lambda>dims.
             op_bind (op_lift (commitments_from_slice K commitment)) (\<lambda>commitments.
               (let positions = positions_of dims (cell_count_for_confidence (scc_confidence cfg))
                in op_bind (on_net (fetch block_number header_hash dims commitments positions))
                     (\<lambda>(fetched, unfetched, stats).
                       if length positions > length fetched then op_return ()
                       else
                         op_bind (op_lift (try_into_u32 (length fetched))) (\<lambda>cnt.
                         op_bind (on_db (sc_store_confidence cnt block_number)) (\<lambda>_.
                         op_bind (op_lift (wrap_err ''converting to message failed''
                                    (block_verified_try_from K hdr (Some (calculate_confidence (word_of_nat (length fetched)))))))
                           (\<lambda>msg s. (Ok (), send_verified alive msg s)))))))))"

section \<open>The loop\<close>

record ('n, 'dim, 'lk) sync_env =
  sy_kate :: "('dim, 'lk) kate"
  sy_rpc_header :: "u32 \<Rightarrow> ('n, header \<times> h256) op"
  sy_fetch :: "u32 \<Rightarrow> h256 \<Rightarrow> 'dim \<Rightarrow> commitment list \<Rightarrow> position list \<Rightarrow> ('n, cell list \<times> position list \<times> fetch_stats) op"
  sy_positions :: "u32 \<Rightarrow> 'dim \<Rightarrow> u32 \<Rightarrow> position list"
  sy_receiver_alive :: "u32 \<Rightarrow> bool"
  sy_config :: sync_client_config

definition sync_header_seen :: "u32 \<Rightarrow> state \<Rightarrow> state" where
  "sync_header_seen n st = st\<lparr>st_sync_latest := Some n, st_sync_header_verified := range_set (st_sync_header_verified st) n\<rparr>"

definition sync_confidence_achieved :: "u32 \<Rightarrow> state \<Rightarrow> state" where
  "sync_confidence_achieved n st = st\<lparr>st_sync_confidence_achieved := range_set (st_sync_confidence_achieved st) n\<rparr>"

text \<open>One iteration; an error of a block is logged and the loop goes on.\<close>

definition sync_one :: "('n, 'dim, 'lk) sync_env \<Rightarrow> u32 \<Rightarrow> (('n, 'dim, 'lk) client_sys, unit) op" where
  "sync_one E n s =
     (case sc_is_confidence_stored n (cs_db s) of
        Ok True \<Rightarrow> (Ok (), s)
      | Err _ \<Rightarrow> (Ok (), s)
      | Panic m \<Rightarrow> (Panic m, s)
      | Ok False \<Rightarrow>
          (case sc_get_header_by_block_number (sy_kate E) (sy_rpc_header E) n s of
             (Err _, s1) \<Rightarrow> (Ok (), s1)
           | (Panic m, s1) \<Rightarrow> (Panic m, s1)
           | (Ok (hdr, hash), s1) \<Rightarrow>
               (case sync_process_block (sy_kate E) (sy_fetch E) (sy_positions E n) (sy_receiver_alive E n) (sy_config E) hdr hash
                       (on_state (sync_header_seen n) s1) of
                  (Ok _, s2) \<Rightarrow> (Ok (), on_state (sync_confidence_achieved n) s2)
                | (Err _, s2) \<Rightarrow> (Ok (), s2)
                | (Panic m, s2) \<Rightarrow> (Panic m, s2))))"

fun sync_blocks :: "('n, 'dim, 'lk) sync_env \<Rightarrow> u32 list \<Rightarrow> (('n, 'dim, 'lk) client_sys, unit) op" where
  "sync_blocks E [] s = (Ok (), s)"
| "sync_blocks E (n # ns) s = op_bind (sync_one E n) (\<lambda>_. sync_blocks E ns) s"

definition sync_client_run :: "('n, 'dim, 'lk) sync_env \<Rightarrow> u32 \<times> u32 \<Rightarrow> (('n, 'dim, 'lk) client_sys, unit) op" where
  "sync_client_run E rng =
     (if fst rng \<ge> snd rng then op_return ()
      else op_bind (sync_blocks E (range_u32 (fst rng) (snd rng))) (\<lambda>_ s.
        (Ok (), if scc_is_last_step (sy_config E) then on_state (\<lambda>st. st\<lparr>st_synced := Some True\<rparr>) s else s)))"

section \<open>An example\<close>

text \<open>The node has the header of every block; \<open>fetch\<close> is given.\<close>

definition sample_sync_env ::
    "(u32 \<Rightarrow> h256 \<Rightarrow> u16 \<times> u16 \<Rightarrow> commitment list \<Rightarrow> position list \<Rightarrow> ('n, cell list \<times> position list \<times> fetch_stats) op) \<Rightarrow>
     ('n, u16 \<times> u16, (u32 \<times> u32) list) sync_env" where
  "sample_sync_env fetch = \<lparr>sy_kate = sample_kate, sy_rpc_header = (\<lambda>n t. (Ok (sample_header n, ucast n), t)), sy_fetch = fetch,
     sy_positions = (\<lambda>_ _ _. sample_requested), sy_receiver_alive = (\<lambda>_. True),
     sy_config = \<lparr>scc_confidence = Fin 50, scc_disable_rpc = False, scc_dht_parallelization_limit = 1, scc_is_last_step = True\<rparr>\<rparr>"

definition sample_stored :: "(unit, u16 \<times> u16, (u32 \<times> u32) list) client_sys" where
  "sample_stored = \<lparr>cs_db = db_empty\<lparr>db_entries := [VerifiedCellCount 0 \<mapsto> CountValue 2]\<rparr>, cs_state = state_default, cs_net = (),
     cs_metrics = [], cs_sent = [], cs_shutdown = controller_new\<rparr>"

section \<open>Lemmas\<close>

text \<open>The counts of verified cells in a database, and where a new count may come from: a sampled block.\<close>

definition counts :: "('n, 'dim, 'lk) client_sys \<Rightarrow> u32 \<Rightarrow> db_value option" where
  "counts s n = db_entries (cs_db s) (VerifiedCellCount n)"

definition counts_from_samples ::
    "('dim, 'lk) kate \<Rightarrow> (u32 \<Rightarrow> 'dim \<Rightarrow> u32 \<Rightarrow> position list) \<Rightarrow> u32 \<Rightarrow>
     ('n, 'dim, 'lk) client_sys \<Rightarrow> ('n, 'dim, 'lk) client_sys \<Rightarrow> bool" where
  "counts_from_samples K positions cnt s s' \<longleftrightarrow>
     (\<forall>m. counts s' m = counts s m \<or>
        (\<exists>n hdr dims fetched. h_number hdr = m \<and> sampled K hdr (positions n) cnt dims fetched \<and>
           counts s' m = Some (CountValue (word_of_nat (length fetched)))))"

lemma counts_from_samples_refl: "counts s' = counts s \<Longrightarrow> counts_from_samples K positions cnt s s'"
  by (simp add: counts_from_samples_def)

lemma counts_from_samples_trans:
  assumes "counts_from_samples K positions cnt a b" "counts_from_samples K positions cnt b c"
  shows "counts_from_samples K positions cnt a c"
  unfolding counts_from_samples_def using assms unfolding counts_from_samples_def by metis

lemma cs_net_on_state [simp]: "cs_net (on_state f s) = cs_net s"
  by (simp add: on_state_def)

lemma counts_frame [simp]:
  "counts (on_state f s) = counts s" "counts (s\<lparr>cs_net := t\<rparr>) = counts s" "counts (send_verified alive msg s) = counts s"
  "counts (snd (on_net m s)) = counts s"
  by (auto simp: counts_def fun_eq_iff send_verified_def on_net_def split: prod.splits)

lemma counts_header_stored [simp]:
  "counts (snd (on_db (db_put_op (BlockHeader n) v) s)) = counts s"
  by (auto simp: counts_def fun_eq_iff on_db_def db_put_op_def db_put_def split: option.splits)

lemma snd_op_wrap_err [simp]: "snd (op_wrap_err msg m s) = snd (m s)"
  by (simp add: op_wrap_err_def split: prod.splits)

lemma snd_op_bind:
  "snd (op_bind m f s) = (case fst (m s) of Ok x \<Rightarrow> snd (f x (snd (m s))) | _ \<Rightarrow> snd (m s))"
  by (auto simp: op_bind_def split: prod.splits res.splits)

lemma counts_get_header:
  "sc_get_header_by_block_number K rpc_header n s = (r, s') \<Longrightarrow> counts s' = counts s"
  by (drule arg_cong [of _ _ snd])
    (auto simp: sc_get_header_by_block_number_def snd_op_bind split: res.splits option.splits prod.splits)

lemma counts_stored:
  "snd (on_db (sc_store_confidence c n) s) = s \<or>
   counts (snd (on_db (sc_store_confidence c n) s)) = (counts s)(n := Some (CountValue c))"
  by (auto simp: counts_def fun_eq_iff on_db_def sc_store_confidence_def op_wrap_err_def db_put_op_def db_put_def
      split: option.splits)

context network_client
begin

lemma sync_process_block_counts:
  assumes dist: "\<And>d c. distinct (positions n d c)"
  shows "counts_from_samples K positions (cell_count_for_confidence (scc_confidence cfg)) s
    (snd (sync_process_block K fetch (positions n) alive cfg hdr hash s))"
proof -
  let ?cnt = "cell_count_for_confidence (scc_confidence cfg)"
  let ?s' = "snd (sync_process_block K fetch (positions n) alive cfg hdr hash s)"
  have "counts ?s' = counts s \<or>
    (\<exists>dims fetched. sampled K hdr (positions n) ?cnt dims fetched \<and>
       counts ?s' = (counts s)(h_number hdr := Some (CountValue (word_of_nat (length fetched)))))"
  proof (cases "extract_kate (h_extension hdr)")
    case None
    then show ?thesis by (simp add: sync_process_block_def)
  next
    case (Some x)
    obtain rows cols rt commitment where x: "x = (rows, cols, rt, commitment)" by (cases x)
    show ?thesis
    proof (cases "\<exists>dims commitments. dimensions_new K rows cols = Some dims \<and> commitments_from_slice K commitment = Ok commitments")
      case False
      then show ?thesis using Some x
        by (cases "dimensions_new K rows cols"; cases "commitments_from_slice K commitment") (auto simp: sync_process_block_def Let_def)
    next
      case True
      then obtain dims commitments where k: "dimensions_new K rows cols = Some dims" "commitments_from_slice K commitment = Ok commitments"
        by blast
      let ?ps = "positions n dims ?cnt"
      obtain r t where f: "fetch (h_number hdr) hash dims commitments ?ps (cs_net s) = (r, t)" by fastforce
      show ?thesis
      proof (cases "\<exists>fetched unfetched stats. r = Ok (fetched, unfetched, stats) \<and> length ?ps \<le> length fetched")
        case False
        then show ?thesis using Some x k f
          by (cases r) (auto simp: sync_process_block_def Let_def snd_op_bind on_net_def not_le)
      next
        case True
        then obtain fetched unfetched stats where r: "r = Ok (fetched, unfetched, stats)" "length ?ps \<le> length fetched" by blast
        have "sampled K hdr (positions n) ?cnt dims fetched"
          using fetch_all [OF f [unfolded r(1)] dist r(2)] Some x k by (auto simp: sampled_def)
        moreover have "counts ?s' = counts s \<or>
            counts ?s' = (counts s)(h_number hdr := Some (CountValue (word_of_nat (length fetched))))"
          using Some x k f r counts_stored [of "word_of_nat (length fetched)" "h_number hdr" "s\<lparr>cs_net := t\<rparr>"]
          by (auto simp: sync_process_block_def Let_def snd_op_bind on_net_def not_le [symmetric] try_into_u32_def op_lift_def
              split: res.splits)
        ultimately show ?thesis by blast
      qed
    qed
  qed
  then show ?thesis unfolding counts_from_samples_def by (metis fun_upd_apply)
qed

lemma sync_one_counts:
  assumes "sy_kate E = K" "sy_fetch E = fetch" and dist: "\<And>d c. distinct (sy_positions E n d c)"
  shows "counts_from_samples K (sy_positions E) (cell_count_for_confidence (scc_confidence (sy_config E))) s (snd (sync_one E n s))"
proof -
  let ?R = "counts_from_samples K (sy_positions E) (cell_count_for_confidence (scc_confidence (sy_config E)))"
  have hdr: "counts s1 = counts s" if "sc_get_header_by_block_number (sy_kate E) (sy_rpc_header E) n s = (r, s1)" for r s1
    by (rule counts_get_header [OF that])
  have blk: "?R s s2" if "sc_get_header_by_block_number (sy_kate E) (sy_rpc_header E) n s = (Ok (h, hash), s1)"
    "sync_process_block (sy_kate E) (sy_fetch E) (sy_positions E n) (sy_receiver_alive E n) (sy_config E) h hash
       (on_state (sync_header_seen n) s1) = (r, s2)" for h hash s1 r s2
  proof -
    have "?R (on_state (sync_header_seen n) s1) s2"
      using sync_process_block_counts [of "sy_positions E" n "sy_config E" "on_state (sync_header_seen n) s1" "sy_receiver_alive E n" h hash,
          OF dist] that(2) assms(1,2) by simp
    then show ?thesis using hdr [OF that(1)] by (simp add: counts_from_samples_def)
  qed
  have on: "?R s (on_state f s2) \<longleftrightarrow> ?R s s2" for f s2 by (simp add: counts_from_samples_def)
  show ?thesis
    by (auto simp: sync_one_def on counts_from_samples_refl dest: hdr blk split: res.splits prod.splits bool.splits)
qed

lemma sync_blocks_counts:
  assumes "sy_kate E = K" "sy_fetch E = fetch" "\<And>n d c. distinct (sy_positions E n d c)"
  shows "counts_from_samples K (sy_positions E) (cell_count_for_confidence (scc_confidence (sy_config E))) s (snd (sync_blocks E ns s))"
proof (induction ns arbitrary: s)
  case Nil
  show ?case by (simp add: counts_from_samples_refl)
next
  case (Cons n ns)
  show ?case unfolding sync_blocks.simps
    by (rule op_bind_preserves [OF sync_one_counts [OF assms] Cons.IH counts_from_samples_trans])
qed

lemma sync_run_counts:
  assumes "sy_kate E = K" "sy_fetch E = fetch" "\<And>n d c. distinct (sy_positions E n d c)"
  shows "counts_from_samples K (sy_positions E) (cell_count_for_confidence (scc_confidence (sy_config E))) s
    (snd (sync_client_run E rng s))"
  using sync_blocks_counts [OF assms, of s "range_u32 (fst rng) (snd rng)"]
  by (auto simp: sync_client_run_def snd_op_bind counts_from_samples_def op_return_def split: res.splits)

end

lemma sync_blocks_stored:
  "(\<And>n. n \<in> set ns \<Longrightarrow> \<exists>c. db_get_count (cs_db s) n = Ok (Some c)) \<Longrightarrow> sync_blocks E ns s = (Ok (), s)"
proof (induction ns)
  case (Cons n ns)
  then obtain c where "db_get_count (cs_db s) n = Ok (Some c)" by auto
  then have "sync_one E n s = (Ok (), s)" by (simp add: sync_one_def sc_is_confidence_stored_def)
  with Cons show ?case by simp
qed simp

section \<open>Properties\<close>

text \<open>A run of the sync client changes the stored number of verified cells of a block only to the number of cells of a
  sample all of which was fetched and verified against the commitments of a header with this block number; the fetch is
  the one of the network client.\<close>

theorem sync_client_counts_sound:
  assumes "sy_kate S = ne_kate N" "sy_fetch S = fetch_verified (N\<lparr>ne_request := request_kate_proof X A R\<rparr>)"
    and "\<And>n d c. distinct (sy_positions S n d c)"
  shows "counts_from_samples (ne_kate N) (sy_positions S) (cell_count_for_confidence (scc_confidence (sy_config S))) s
    (snd (sync_client_run S rng s))"
  by (rule net.sync_run_counts [OF assms])

theorem sync_client_counts_sound_witness:
  "counts_from_samples sample_kate (\<lambda>_ _ _. sample_requested) (cell_count_for_confidence (Fin 50)) sample_sys
     (snd (sync_client_run
       (sample_sync_env (fetch_verified (sample_net\<lparr>ne_request := request_kate_proof sample_subxt sample_node_api one_attempt\<rparr>)))
       (3, 5) sample_sys))"
  using sync_client_counts_sound [of
      "sample_sync_env (fetch_verified (sample_net\<lparr>ne_request := request_kate_proof sample_subxt sample_node_api one_attempt\<rparr>))"
      sample_net sample_subxt sample_node_api one_attempt sample_sys "(3, 5)"] sample_net_ok
  by (simp add: sample_sync_env_def sample_net_def)

text \<open>A range of blocks whose counts are all stored is not processed again: nothing is fetched, stored or sent, and only
  the flag that says that the sync is done may change.\<close>

theorem sync_client_resumes:
  assumes "\<And>n. n \<in> set (range_u32 a b) \<Longrightarrow> \<exists>c. db_get_count (cs_db s) n = Ok (Some c)"
  shows "sync_client_run S (a, b) s =
    (Ok (), if a < b \<and> scc_is_last_step (sy_config S) then on_state (\<lambda>st. st\<lparr>st_synced := Some True\<rparr>) s else s)"
  using sync_blocks_stored [OF assms]
  by (simp add: sync_client_run_def op_return_def op_bind_def not_le [symmetric])

theorem sync_client_resumes_witness:
  "sync_client_run (sample_sync_env (\<lambda>_ _ _ _ _ t. (Ok ([], [], fetch_stats_new 2 0 0 None), t :: unit))) (0, 1)
     sample_stored =
   (Ok (), on_state (\<lambda>st. st\<lparr>st_synced := Some True\<rparr>)
     sample_stored)"
  by (subst sync_client_resumes)
    (simp_all add: range_u32_def db_get_count_def db_get_def sample_stored_def db_empty_def sample_sync_env_def)

text \<open>A block for which fewer cells were verified than were sampled is still marked as achieved in the state of the sync,
  although no count is stored for it: \<open>process_block\<close> returns \<open>Ok\<close> there, and the caller does not distinguish.\<close>

theorem sync_marks_unsampled_block:
  assumes "sc_is_confidence_stored n (cs_db s) = Ok False"
    and "sc_get_header_by_block_number (sy_kate S) (sy_rpc_header S) n s = (Ok (hdr, hash), s1)"
    and "extract_kate (h_extension hdr) = Some (rows, cols, rt, cms)"
    and "dimensions_new (sy_kate S) rows cols = Some dims" "commitments_from_slice (sy_kate S) cms = Ok commitments"
    and "sy_fetch S (h_number hdr) hash dims commitments
           (sy_positions S n dims (cell_count_for_confidence (scc_confidence (sy_config S)))) (cs_net s1) = (Ok (fetched, unfetched, stats), t)"
    and "length fetched < length (sy_positions S n dims (cell_count_for_confidence (scc_confidence (sy_config S))))"
  shows "\<exists>s'. sync_one S n s = (Ok (), s') \<and> range_last (st_sync_confidence_achieved (cs_state s')) = Some n \<and> counts s' = counts s"
  using assms counts_get_header [OF assms(2)]
  by (simp add: sync_one_def sync_process_block_def Let_def op_bind_def op_lift_def on_net_def op_return_def
      sync_confidence_achieved_def range_set_last)

theorem sync_marks_unsampled_block_witness:
  "\<exists>s'. sync_one (sample_sync_env (\<lambda>_ _ _ _ _ t. (Ok ([], [], fetch_stats_new 2 0 0 None), t))) 3 sample_stored = (Ok (), s') \<and>
     range_last (st_sync_confidence_achieved (cs_state s')) = Some 3 \<and> counts s' = counts sample_stored"
  by (rule sync_marks_unsampled_block [where rows = 1 and cols = 4 and rt = 0 and cms = "[1, 2]" and dims = "(1, 4)" and commitments = "[[1], [2]]" and hdr = "sample_header 3" and fetched = "[]" and unfetched = "[]" and t = "()" and
        stats = "fetch_stats_new 2 0 0 None"])
    (simp_all add: sc_is_confidence_stored_def db_get_count_def db_get_def sample_stored_def db_empty_def
      sc_get_header_by_block_number_def db_get_header_def op_bind_def op_wrap_err_def on_net_def on_db_def db_put_op_def db_put_def
      op_return_def sample_sync_env_def length_sample_requested)

end
