(* ===== verification/Fat_Client.thy ===== *)
theory Fat_Client
  imports Light_Client
begin

text \<open>
  The fat client (\<open>src/fat_client.rs\<close>): fetching the cells of the assigned partition of a block from the nodes, and inserting the
  cells and the rows into the DHT.

  The three operations of the trait \<open>Client\<close> are the record \<open>fat_ops\<close>; \<open>fat_client_new\<close> is its implementation. The requests of one
  parallel batch are carried out one after the other, in the order in which \<open>join_all\<close> first polls them; all of them are
  carried out before the first result is looked at.

  The lemmas show which cells are requested, in which batches, and which records are put into the DHT.
\<close>

section \<open>The trait and its implementation\<close>

record 'n fat_ops =
  fo_insert_cells :: "u32 \<Rightarrow> cell list \<Rightarrow> ('n, unit) op"
  fo_insert_rows :: "u32 \<Rightarrow> (u32 \<times> bytes) list \<Rightarrow> ('n, unit) op"
  fo_get_kate_proof :: "h256 \<Rightarrow> position list \<Rightarrow> ('n, cell list) op"

definition fat_client_new ::
    "('dim, 'lk) kate \<Rightarrow> bool \<Rightarrow> nat \<Rightarrow> u64 \<Rightarrow> (h256 \<Rightarrow> position list \<Rightarrow> ('r, cell list) op) \<Rightarrow> 'r net_state fat_ops" where
  "fat_client_new K alive now ttl_secs request =
     \<lparr>fo_insert_cells = (\<lambda>block cells. queue_op (insert_cells_into_dht K alive now ttl_secs block cells)),
      fo_insert_rows = (\<lambda>block rows. queue_op (insert_rows_into_dht K alive now ttl_secs block rows)),
      fo_get_kate_proof = (\<lambda>hash positions. rpc_op (request hash positions))\<rparr>"

section \<open>One block\<close>

fun join_all :: "('s, 'a) op list \<Rightarrow> ('s, 'a result list) op" where
  "join_all [] s = (Ok [], s)"
| "join_all (m # ms) s =
     (case m s of
        (Panic p, s') \<Rightarrow> (Panic p, s')
      | (r, s') \<Rightarrow> op_bind (join_all ms) (\<lambda>rs. op_return (r # rs)) s')"

fun insert_results ::
    "'n fat_ops \<Rightarrow> u32 \<Rightarrow> nat \<Rightarrow> cell list result list \<Rightarrow> cell list \<Rightarrow> ('n, cell list) op" where
  "insert_results F block_number i [] rpc_fetched s = (Ok rpc_fetched, s)"
| "insert_results F block_number i (result # results) rpc_fetched s =
     op_bind (op_lift (wrap_err (''Failed to fetch cells from node RPC at batch '' @ show_nat i) result)) (\<lambda>batch_rpc_fetched.
     op_bind (ignore_err (fo_insert_cells F block_number batch_rpc_fetched)) (\<lambda>_.
       insert_results F block_number (i + 1) results (rpc_fetched @ batch_rpc_fetched))) s"

fun fetch_batches ::
    "'n fat_ops \<Rightarrow> u32 \<Rightarrow> h256 \<Rightarrow> position list list list \<Rightarrow> cell list \<Rightarrow> ('n, cell list) op" where
  "fetch_batches F block_number header_hash [] rpc_fetched s = (Ok rpc_fetched, s)"
| "fetch_batches F block_number header_hash (batch # batches) rpc_fetched s =
     op_bind (join_all (map (fo_get_kate_proof F header_hash) batch)) (\<lambda>results.
     op_bind (insert_results F block_number 0 results rpc_fetched) (\<lambda>rpc_fetched.
       fetch_batches F block_number header_hash batches rpc_fetched)) s"

definition fetch_partition ::
    "'n fat_ops \<Rightarrow> fat_client_config \<Rightarrow> u32 \<Rightarrow> h256 \<Rightarrow> position list \<Rightarrow> ('n, cell list) op" where
  "fetch_partition F cfg block_number header_hash positions =
     (if fcc_max_cells_per_rpc cfg = 0 \<or> fcc_query_proof_rpc_parallel_tasks cfg = 0
      then op_lift (Panic ''chunk size must be non-zero'')
      else fetch_batches F block_number header_hash
             (chunks (fcc_query_proof_rpc_parallel_tasks cfg) (chunks (fcc_max_cells_per_rpc cfg) positions)) [])"

definition fat_process_block ::
    "('dim, 'lk) kate \<Rightarrow> 'n fat_ops \<Rightarrow> fat_client_config \<Rightarrow> header \<Rightarrow> partition \<Rightarrow> real \<Rightarrow>
     (('n, 'dim, 'lk) client_sys, unit) op" where
  "fat_process_block K F cfg hdr prt duration s0 =
     (let block_number = h_number hdr;
          header_hash = hash_of K hdr;
          s = cs_metric [CountCall SessionBlocks, RecordCall (BlockHeight block_number)] s0
      in case extract_kate (h_extension hdr) of
           None \<Rightarrow> (Ok (), s)
         | Some (rows, cols, _, _) \<Rightarrow>
             (case dimensions_new K rows cols of
                None \<Rightarrow> (Ok (), s)
              | Some dims \<Rightarrow>
                  if dim_cols K dims \<le> 2 then (Ok (), s)
                  else
                    op_bind (op_wrap_err ''Fat Client failed to store Block Header''
                               (on_db (db_put_op (BlockHeader block_number) (HeaderValue hdr)))) (\<lambda>_.
                    op_bind (on_net (fetch_partition F cfg block_number header_hash (partition_positions K dims prt)))
                      (\<lambda>rpc_fetched s1.
                        (let s2 = cs_metric [RecordCall (RPCCallDuration (Fin duration))] s1
                         in if length rpc_fetched \<ge> unat (dim_cols K dims)
                            then
                              (let data_cells = filter (\<lambda>c. \<not> is_extended K (cell_position c)) rpc_fetched
                               in on_net (ignore_err (fo_insert_rows F block_number (data_rows K dims data_cells))) s2)
                            else (Ok (), s2)))) s))"

section \<open>The loop\<close>

fun fat_client_run ::
    "('dim, 'lk) kate \<Rightarrow> 'n fat_ops \<Rightarrow> fat_client_config \<Rightarrow> partition \<Rightarrow> real \<Rightarrow> 'dim block_input list \<Rightarrow>
     (('n, 'dim, 'lk) client_sys, unit) op" where
  "fat_client_run K F cfg prt duration [] s = (Ok (), s)"
| "fat_client_run K F cfg prt duration (i # is) s =
     (case bi_event i of
        Ok (HeaderUpdate hdr received_at) \<Rightarrow>
          (let s1 = processing_delay (fcc_block_processing_delay cfg) (bi_elapsed i) s
           in case fat_process_block K F cfg hdr prt duration s1 of
                (Ok _, s2) \<Rightarrow>
                  (case block_verified_try_from K hdr None of
                     Ok msg \<Rightarrow> fat_client_run K F cfg prt duration is (send_verified (bi_receiver_alive i) msg s2)
                   | Err _ \<Rightarrow> fat_client_run K F cfg prt duration is s2
                   | Panic m \<Rightarrow> (Panic m, s2))
              | (Err e, s2) \<Rightarrow> (Ok (), cs_trigger_shutdown (''Cannot process block: '' @ report_text e) s2)
              | (Panic m, s2) \<Rightarrow> (Panic m, s2))
      | _ \<Rightarrow> (Ok (), s))"

section \<open>An example\<close>

definition sample_fat_config :: fat_client_config where
  "sample_fat_config = \<lparr>fcc_full_nodes_ws = [], fcc_confidence = Fin 50, fcc_disable_rpc = False, fcc_dht_parallelization_limit = 1,
     fcc_query_proof_rpc_parallel_tasks = 8, fcc_block_processing_delay = None, fcc_block_matrix_partition = None,
     fcc_max_cells_per_rpc = 30\<rparr>"

section \<open>Lemmas\<close>

text \<open>The commands that a batch of cells and a list of rows lead to. Nothing is sent for an empty list.\<close>

definition put_cells :: "('dim, 'lk) kate \<Rightarrow> nat \<Rightarrow> u64 \<Rightarrow> u32 \<Rightarrow> cell list \<Rightarrow> command list" where
  "put_cells K now ttl_secs block cells =
     (if cells = [] then [] else [PutKadRecord (map (cell_dht_record K now ttl_secs block) cells) block])"

definition put_rows :: "('dim, 'lk) kate \<Rightarrow> nat \<Rightarrow> u64 \<Rightarrow> u32 \<Rightarrow> (u32 \<times> bytes) list \<Rightarrow> command list" where
  "put_rows K now ttl_secs block rows =
     (if rows = [] then [] else [PutKadRecord (map (row_dht_record K now ttl_secs block) rows) block])"

text \<open>The cells of a batch that the node gave a proof for.\<close>

definition answers :: "cell list \<Rightarrow> position list \<Rightarrow> bool" where
  "answers cs ps \<longleftrightarrow> map cell_position cs = take (length cs) ps"

lemma ignore_insert_cells:
  "ignore_err (fo_insert_cells (fat_client_new K True now ttl_secs request) b cs) s =
     (Ok (), s\<lparr>ns_queue := ns_queue s @ put_cells K now ttl_secs b cs\<rparr>)"
  by (simp add: ignore_err_def fat_client_new_def queue_op_def insert_cells_into_dht_def insert_into_dht_def send_command_def
      op_lift_def put_cells_def comp_def)

lemma ignore_insert_rows:
  "ignore_err (fo_insert_rows (fat_client_new K True now ttl_secs request) b rows) s =
     (Ok (), s\<lparr>ns_queue := ns_queue s @ put_rows K now ttl_secs b rows\<rparr>)"
  by (simp add: ignore_err_def fat_client_new_def queue_op_def insert_rows_into_dht_def insert_into_dht_def send_command_def
      op_lift_def put_rows_def comp_def)

lemma get_kate_proof_new:
  "fo_get_kate_proof (fat_client_new K alive now ttl_secs request) h ps s =
     (case request h ps (ns_rpc s) of (r, t) \<Rightarrow> (r, s\<lparr>ns_rpc := t\<rparr>))"
  by (simp add: fat_client_new_def rpc_op_def)

lemma insert_results_Ok:
  "insert_results (fat_client_new K True now ttl_secs request) b i rs acc s = (Ok out, s') \<Longrightarrow>
     \<exists>css. rs = map Ok css \<and> out = acc @ concat css \<and> ns_queue s' = ns_queue s @ concat (map (put_cells K now ttl_secs b) css)"
proof (induction rs arbitrary: i acc s)
  case Nil
  then show ?case by simp
next
  case (Cons r rs)
  then obtain cs where r: "r = Ok cs" by (cases r) auto
  with Cons.prems have "insert_results (fat_client_new K True now ttl_secs request) b (i + 1) rs (acc @ cs)
      (s\<lparr>ns_queue := ns_queue s @ put_cells K now ttl_secs b cs\<rparr>) = (Ok out, s')"
    by (simp add: op_bind_Ok [OF ignore_insert_cells])
  from Cons.IH [OF this] obtain css where "rs = map Ok css" "out = (acc @ cs) @ concat css"
    "ns_queue s' = ns_queue s @ put_cells K now ttl_secs b cs @ concat (map (put_cells K now ttl_secs b) css)" by auto
  then show ?case using r by (intro exI [of _ "cs # css"]) simp
qed

context cell_source
begin

lemma join_requests:
  assumes "join_all (map (fo_get_kate_proof (fat_client_new K True now ttl_secs request) h) batch) s = (Ok (map Ok css), s')"
  shows "ns_queue s' = ns_queue s \<and> list_all2 answers css batch"
  using assms
proof (induction batch arbitrary: s css)
  case Nil
  then show ?case by simp
next
  case (Cons ps batch)
  obtain r t where m: "request h ps (ns_rpc s) = (r, t)" by fastforce
  then have step: "fo_get_kate_proof (fat_client_new K True now ttl_secs request) h ps s = (r, s\<lparr>ns_rpc := t\<rparr>)"
    by (simp add: get_kate_proof_new)
  from Cons.prems obtain cs css' where c: "css = cs # css'" "r = Ok cs"
    and rest: "join_all (map (fo_get_kate_proof (fat_client_new K True now ttl_secs request) h) batch) (s\<lparr>ns_rpc := t\<rparr>) =
      (Ok (map Ok css'), s')"
    by (cases r) (auto simp: step res_simps)
  from Cons.IH [OF rest] request_positions [of h ps "ns_rpc s" cs t] m c show ?case by (simp add: answers_def)
qed

lemma fetch_batches_Ok:
  "fetch_batches (fat_client_new K True now ttl_secs request) b h batches acc s = (Ok out, s') \<Longrightarrow>
     \<exists>css. list_all2 answers css (concat batches) \<and> out = acc @ concat css \<and>
       ns_queue s' = ns_queue s @ concat (map (put_cells K now ttl_secs b) css)"
proof (induction batches arbitrary: acc s)
  case Nil
  then show ?case by simp
next
  case (Cons batch batches)
  let ?F = "fat_client_new K True now ttl_secs request"
  obtain rs s1 acc' s2 where j: "join_all (map (fo_get_kate_proof ?F h) batch) s = (Ok rs, s1)"
    and i: "insert_results ?F b 0 rs acc s1 = (Ok acc', s2)"
    and rest: "fetch_batches ?F b h batches acc' s2 = (Ok out, s')"
    using Cons.prems by (auto simp: res_simps)
  from insert_results_Ok [OF i] obtain css where
    css: "rs = map Ok css" "acc' = acc @ concat css" "ns_queue s2 = ns_queue s1 @ concat (map (put_cells K now ttl_secs b) css)" by blast
  from Cons.IH [OF rest] obtain css' where
    "list_all2 answers css' (concat batches)" "out = acc' @ concat css'"
    "ns_queue s' = ns_queue s2 @ concat (map (put_cells K now ttl_secs b) css')" by blast
  with css join_requests [OF j [unfolded css(1)]] show ?case
    by (intro exI [of _ "css @ css'"]) (auto intro: list_all2_appendI)
qed

lemma fetch_partition_Ok:
  assumes "fetch_partition (fat_client_new K True now ttl_secs request) cfg b h ps s = (Ok out, s')"
  shows "0 < fcc_max_cells_per_rpc cfg \<and>
    (\<exists>css. list_all2 answers css (chunks (fcc_max_cells_per_rpc cfg) ps) \<and> out = concat css \<and>
       ns_queue s' = ns_queue s @ concat (map (put_cells K now ttl_secs b) css))"
  using assms
    fetch_batches_Ok [of K now ttl_secs b h
      "chunks (fcc_query_proof_rpc_parallel_tasks cfg) (chunks (fcc_max_cells_per_rpc cfg) ps)" "[]" s out s']
  by (auto simp: fetch_partition_def op_lift_def concat_chunks split: if_splits)

lemma fat_process_block_Ok:
  assumes "fat_process_block K (fat_client_new K True now ttl_secs request) cfg hdr prt d s = (Ok (), s')"
    and "extract_kate (h_extension hdr) = Some (rows, cols, rt, cms)" "dimensions_new K rows cols = Some dims" "2 < dim_cols K dims"
  shows "\<exists>css. list_all2 answers css (chunks (fcc_max_cells_per_rpc cfg) (partition_positions K dims prt)) \<and>
    ns_queue (cs_net s') = ns_queue (cs_net s) @ concat (map (put_cells K now ttl_secs (h_number hdr)) css) @
      (if unat (dim_cols K dims) \<le> length (concat css)
       then put_rows K now ttl_secs (h_number hdr) (data_rows K dims (filter (\<lambda>c. \<not> is_extended K (cell_position c)) (concat css)))
       else []) \<and>
    db_entries (cs_db s') (BlockHeader (h_number hdr)) = Some (HeaderValue hdr)"
proof -
  let ?F = "fat_client_new K True now ttl_secs request"
  have cols: "\<not> dim_cols K dims \<le> 2" using assms(4) by simp
  let ?part = "fetch_partition ?F cfg (h_number hdr) (hash_of K hdr) (partition_positions K dims prt) (cs_net s)"
  obtain d' where dp: "db_put (cs_db s) (BlockHeader (h_number hdr)) (HeaderValue hdr) = Ok d'"
    using assms cols
    by (auto simp: fat_process_block_def Let_def res_simps db_put_op_def split: res.splits)
  obtain out t where f: "?part = (Ok out, t)"
    using assms cols by (auto simp: fat_process_block_def Let_def res_simps db_put_op_def dp)
  define s1 where "s1 = cs_metric [RecordCall (RPCCallDuration (Fin d))]
    (cs_metric [CountCall SessionBlocks, RecordCall (BlockHeight (h_number hdr))] s\<lparr>cs_db := d', cs_net := t\<rparr>)"
  then have s1: "cs_net s1 = t" "cs_db s1 = d'" by simp_all
  have fin: "(if unat (dim_cols K dims) \<le> length out
       then on_net (ignore_err (fo_insert_rows ?F (h_number hdr) (data_rows K dims (filter (\<lambda>c. \<not> is_extended K (cell_position c)) out)))) s1
       else (Ok (), s1)) = (Ok (), s')"
    using assms cols f dp by (simp add: fat_process_block_def Let_def op_bind_def op_wrap_err_def on_db_def db_put_op_def on_net_def s1_def
        split: if_splits)
  have "cs_db s' = d'" "ns_queue (cs_net s') = ns_queue t @
      (if unat (dim_cols K dims) \<le> length out
       then put_rows K now ttl_secs (h_number hdr) (data_rows K dims (filter (\<lambda>c. \<not> is_extended K (cell_position c)) out)) else [])"
    using fin s1 by (auto simp: on_net_def ignore_insert_rows split: if_splits)
  with fetch_partition_Ok [OF f] dp show ?thesis by (auto simp: db_put_eq_Ok)
qed

end

lemma sample_fat_block:
  "\<exists>s'. fat_process_block sample_kate (fat_client_new sample_kate True 0 1 (request_kate_proof sample_subxt sample_node_api one_attempt))
     sample_fat_config (sample_header 3) \<lparr>part_number = 1, part_fraction = 1\<rparr> 0 sample_sys = (Ok (), s')"
  by (simp add: fat_process_block_def Let_def sample_sys_def op_bind_def op_wrap_err_def on_net_def on_db_def db_put_op_def db_put_def
      db_empty_def cs_metric_def fetch_partition_def sample_fat_config_def chunks.simps sample_positions_def get_kate_proof_new
      request_kate_proof_def with_retries_def one_attempt_def sample_node_api_def op_lift_def op_return_def cell_of_proof_def
      concat_content_def sample_net_state_def sample_rpc_client_def ignore_insert_cells ignore_insert_rows upt_rec)

section \<open>Properties\<close>



end
