(* ===== verification/App_Client.thy ===== *)
theory App_Client
  imports Client_State "HOL-Library.Product_Lexorder"
begin

text \<open>
  The application client (\<open>src/app_client.rs\<close>): fetching the rows of an application from the DHT and from the nodes, reconstruction
  of the rows that are missing, decoding and storing of the data.

  The record \<open>app_env\<close> holds what a block is processed with: the crates, what the DHT returns (for the rows, the
  cells of the missing rows and the cells of the columns in this order) and in which order the
  verification tasks of the two fetches of cells complete, the limit of parallel requests, and \<open>request_kate_rows\<close> of the RPC
  client.

  The lemmas show that the cells of rows carry exactly the bytes of the rows, that the reconstruction returns rows
  of full width for exactly the missing rows, that decoded data are stored, and which row is used when
  the DHT and a node disagree.
\<close>

section \<open>Cells of rows\<close>

definition CHUNK_SIZE :: nat where "CHUNK_SIZE = 32"
definition EXTENSION_FACTOR :: nat where "EXTENSION_FACTOR = 2"

definition new_data_cell :: "nat \<Rightarrow> nat \<Rightarrow> bytes \<Rightarrow> data_cell result" where
  "new_data_cell row col dat =
     (if \<not> row < 2 ^ 32 \<or> \<not> col < 2 ^ 16 then Err [''out of range integral type conversion attempted'']
      else if length dat \<noteq> CHUNK_SIZE then Err [''could not convert slice to array'']
      else Ok \<lparr>dc_position = \<lparr>pos_row = word_of_nat row, pos_col = word_of_nat col\<rparr>, dc_data = dat\<rparr>)"

definition data_cells_from_row :: "nat \<Rightarrow> bytes \<Rightarrow> data_cell list result" where
  "data_cells_from_row row row_data =
     (let cs = chunks_exact CHUNK_SIZE row_data
      in collect_res (map (\<lambda>(col, dat). new_data_cell row col dat) (enumerate 0 cs)))"

definition data_cells_from_rows :: "bytes option list \<Rightarrow> data_cell list result" where
  "data_cells_from_rows rows =
     map_res concat (collect_res
       (map (\<lambda>(row, dat). data_cells_from_row row dat)
         (flatten_options (map (\<lambda>(row, row_data). map_option (Pair row) row_data) (enumerate 0 rows)))))"

definition data_cell_of :: "position \<Rightarrow> (u16 \<rightharpoonup> bytes list) \<Rightarrow> data_cell result" where
  "data_cell_of position reconstructed =
     (let row = unat (pos_row position) div EXTENSION_FACTOR
      in case reconstructed (pos_col position) of
           None \<Rightarrow> Err [''Data cell not found'']
         | Some column \<Rightarrow>
             if row < length column then Ok \<lparr>dc_position = position, dc_data = column ! row\<rparr>
             else Err [''Data cell not found''])"

section \<open>The client of the network\<close>

record ('n, 'dim, 'lk) app_env =
  ap_kate :: "('dim, 'lk) kate"
  ap_dht :: "nat \<Rightarrow> dht"
  ap_completed :: "nat \<Rightarrow> nat list"
  ap_parallelization_limit :: nat
  ap_request_rows :: "u32 list \<Rightarrow> h256 \<Rightarrow> ('n, bytes list) op"

definition app_fetch_verified ::
    "('n, 'dim, 'lk) app_env \<Rightarrow> nat \<Rightarrow> u32 \<Rightarrow> 'dim \<Rightarrow> commitment list \<Rightarrow> position list \<Rightarrow> (cell list \<times> position list) result" where
  "app_fetch_verified E i block_number dims commitments positions =
     and_then (fetch_cells_from_dht (ap_kate E) (ap_parallelization_limit E) (ap_dht E i) block_number positions) (\<lambda>(fetched, unfetched).
     and_then (wrap_err ''Failed to verify fetched cells''
                 (verify (ap_kate E) (completion_order (ap_completed E i)) dims fetched commitments)) (\<lambda>(verified, unverified).
       Ok (filter (\<lambda>c. cell_position c \<in> set verified) fetched, unfetched @ unverified)))"

definition reconstructed_row :: "('dim, 'lk) kate \<Rightarrow> 'dim \<Rightarrow> data_cell list \<Rightarrow> u32 \<Rightarrow> (u32 \<times> bytes) result" where
  "reconstructed_row K dims data_cells row =
     (let dat = concat (map dc_data (filter (\<lambda>c. pos_row (dc_position c) = row) data_cells))
      in if length dat \<noteq> dim_width K dims * CHUNK_SIZE then Err [''Row size is not valid after reconstruction'']
         else Ok (row, dat))"

definition reconstruct_rows_from_dht ::
    "('n, 'dim, 'lk) app_env \<Rightarrow> u32 \<Rightarrow> 'dim \<Rightarrow> commitment list \<Rightarrow> u32 list \<Rightarrow> (u32 \<times> bytes) list result" where
  "reconstruct_rows_from_dht E block_number dims commitments missing_rows =
     (let K = ap_kate E; missing_cells = extended_rows_positions K dims missing_rows
      in if missing_cells = [] then Ok []
         else
           and_then (app_fetch_verified E 1 block_number dims commitments missing_cells) (\<lambda>(fetched, unfetched).
           and_then (app_fetch_verified E 2 block_number dims commitments (columns_positions K dims unfetched)) (\<lambda>(missing_fetched, _).
           and_then (reconstruct_columns K dims missing_fetched) (\<lambda>reconstructed.
           and_then (collect_res (map (\<lambda>p. data_cell_of p reconstructed) unfetched)) (\<lambda>reconstructed_cells.
             (let data_cells = sort_key (\<lambda>c. (pos_row (dc_position c), pos_col (dc_position c)))
                    (map (\<lambda>c. \<lparr>dc_position = cell_position c, dc_data = cell_data K c\<rparr>) fetched @ reconstructed_cells)
              in collect_res (map (reconstructed_row K dims data_cells) missing_rows)))))))"

definition app_fetch_rows_from_dht ::
    "('n, 'dim, 'lk) app_env \<Rightarrow> u32 \<Rightarrow> 'dim \<Rightarrow> u32 list \<Rightarrow> bytes option list result" where
  "app_fetch_rows_from_dht E block_number dims row_indexes =
     fetch_rows_from_dht (ap_kate E) (ap_parallelization_limit E) (ap_dht E 0) block_number dims row_indexes"

definition get_kate_rows ::
    "('n, 'dim, 'lk) app_env \<Rightarrow> u32 list \<Rightarrow> 'dim \<Rightarrow> h256 \<Rightarrow> ('n, bytes option list) op" where
  "get_kate_rows E rows dims block_hash =
     op_bind (ap_request_rows E rows block_hash) (\<lambda>rs.
       op_lift (store_rows (zip rows rs) (replicate (unat (extended_rows (ap_kate E) dims)) None)))"

section \<open>One block\<close>

text \<open>The rows that are used: that of the DHT if there is one, else that of the node, if the row was verified at all.\<close>

definition combine_rows ::
    "bytes option list \<Rightarrow> bytes option list \<Rightarrow> u32 \<Rightarrow> u32 list \<Rightarrow> bytes option list" where
  "combine_rows dht_rows rpc_rows n verified_rows =
     map (\<lambda>((dht_row, rpc_row), row_index).
            case (case dht_row of Some r \<Rightarrow> Some r | None \<Rightarrow> rpc_row) of
              None \<Rightarrow> None
            | Some row \<Rightarrow> if row_index \<in> set verified_rows then Some row else None)
       (zip (zip dht_rows rpc_rows) (range_u32 0 n))"

definition app_process_block ::
    "('n, 'dim, 'lk) app_env \<Rightarrow> app_client_config \<Rightarrow> u32 \<Rightarrow> ('dim, 'lk) block_verified \<Rightarrow>
     (('n, 'dim, 'lk) client_sys, app_data) op" where
  "app_process_block E cfg appid block =
     (let K = ap_kate E
      in case bv_extension block of
        None \<Rightarrow> op_lift (Err [''Missing header extension''])
      | Some ext \<Rightarrow>
          (let lookup = ext_lookup ext; block_number = bv_block_num block; dims = ext_dimensions ext;
               commitments = ext_commitments ext; app_rows = app_specific_rows K lookup dims appid
           in
             op_bind (op_lift (app_fetch_rows_from_dht E block_number dims app_rows)) (\<lambda>dht_rows.
             op_bind (op_lift (verify_equality K commitments dht_rows lookup dims appid)) (\<lambda>(dht_verified_rows, dht_missing_rows).
             op_bind (if acc_disable_rpc cfg then op_return (replicate (length dht_rows) None)
                      else on_net (get_kate_rows E dht_missing_rows dims (bv_header_hash block))) (\<lambda>rpc_rows.
             op_bind (op_lift (verify_equality K commitments rpc_rows lookup dims appid)) (\<lambda>(rpc_verified_rows, missing).
               (let missing_rows = filter (\<lambda>row. row \<notin> set dht_verified_rows) missing;
                    verified_rows = dht_verified_rows @ rpc_verified_rows;
                    rows = combine_rows dht_rows rpc_rows (extended_rows K dims) verified_rows
                in if length missing_rows * dim_width K dims > acc_threshold cfg
                   then op_lift (Err [''Too many cells are missing''])
                   else
                     op_bind (op_lift (reconstruct_rows_from_dht E block_number dims commitments missing_rows)) (\<lambda>reconstructed.
                     op_bind (op_lift (store_rows reconstructed rows)) (\<lambda>rows.
                     op_bind (op_lift (wrap_err ''Failed to create data cells from rows got from RPC'' (data_cells_from_rows rows)))
                       (\<lambda>data_cells.
                     op_bind (op_lift (wrap_err ''Failed to decode app extrinsics''
                                (decode_app_extrinsics K lookup dims data_cells appid))) (\<lambda>dat.
                     op_bind (op_wrap_err ''App Client failed to store App Data into database''
                                (on_db (db_put_op (AppData appid block_number) (AppDataValue dat)))) (\<lambda>_.
                       op_return dat))))))))))))"

section \<open>The loop\<close>

definition set_data_verified_state :: "u32 \<times> u32 \<Rightarrow> u32 \<Rightarrow> state \<Rightarrow> state" where
  "set_data_verified_state srange block_number st =
     (let st1 = (if fst srange \<le> block_number \<and> block_number < snd srange
                 then st\<lparr>st_sync_data_verified := range_set (st_sync_data_verified st) block_number\<rparr>
                 else st\<lparr>st_data_verified := range_set (st_data_verified st) block_number\<rparr>)
      in if st_synced st1 = Some False \<and> fst srange < snd srange \<and> snd srange - 1 = block_number
         then st1\<lparr>st_synced := Some True\<rparr> else st1)"

text \<open>One iteration: what is received, and whether a receiver of the verified data exists. The second part of the state
  is the list of the verified data that were sent.\<close>

record ('n, 'dim, 'lk) app_input =
  ai_block :: "(string, ('dim, 'lk) block_verified) res"
  ai_env :: "('n, 'dim, 'lk) app_env"
  ai_receiver_alive :: bool

fun app_client_run ::
    "app_client_config \<Rightarrow> u32 \<Rightarrow> u32 \<times> u32 \<Rightarrow> ('n, 'dim, 'lk) app_input list \<Rightarrow>
     (('n, 'dim, 'lk) client_sys \<times> (u32 \<times> app_data) list, unit) op" where
  "app_client_run cfg appid srange [] s = (Ok (), s)"
| "app_client_run cfg appid srange (i # is) (s, sent) =
     (case ai_block i of
        Panic m \<Rightarrow> (Panic m, (s, sent))
      | Err e \<Rightarrow> (Ok (), (cs_trigger_shutdown (''Cannot receive message: '' @ e) s, sent))
      | Ok block \<Rightarrow>
          (let block_number = bv_block_num block; marked = on_state (set_data_verified_state srange block_number)
           in case bv_extension block of
                None \<Rightarrow> app_client_run cfg appid srange is (marked s, sent)
              | Some ext \<Rightarrow>
                  if lookup_range_of (ap_kate (ai_env i)) (ext_lookup ext) appid = None
                  then app_client_run cfg appid srange is (marked s, sent)
                  else
                    (case app_process_block (ai_env i) cfg appid block s of
                       (Err e, s1) \<Rightarrow> (Ok (), (cs_trigger_shutdown (''Cannot process block: '' @ report_text e) s1, sent))
                     | (Panic m, s1) \<Rightarrow> (Panic m, (s1, sent))
                     | (Ok dat, s1) \<Rightarrow>
                         if ai_receiver_alive i
                         then app_client_run cfg appid srange is (marked s1, sent @ [(block_number, dat)])
                         else (Ok (), (cs_trigger_shutdown ''Cannot send data verified message: channel closed'' (marked s1), sent)))))"

section \<open>An example\<close>

text \<open>The DHT has a row that differs from the one that the commitments admit, and the node has the right one.\<close>

definition sample_row :: "u8 \<Rightarrow> bytes" where
  "sample_row b = replicate 32 b"

definition checking_kate :: "(u16 \<times> u16, (u32 \<times> u32) list) kate" where
  "checking_kate = sample_kate\<lparr>verify_equality := (\<lambda>cs rows l d a. Ok (if rows ! 0 = Some (sample_row 7) then ([0], []) else ([], [0])))\<rparr>"

definition sample_app_env :: "(unit, u16 \<times> u16, (u32 \<times> u32) list) app_env" where
  "sample_app_env = \<lparr>ap_kate = checking_kate, ap_dht = (\<lambda>_ _. Ok (sample_row 9)), ap_completed = (\<lambda>_. []), ap_parallelization_limit = 1,
     ap_request_rows = (\<lambda>rows _ t. (Ok (map (\<lambda>_. sample_row 7) rows), t))\<rparr>"

definition sample_app_block :: "(u16 \<times> u16, (u32 \<times> u32) list) block_verified" where
  "sample_app_block = \<lparr>bv_header_hash = 3, bv_block_num = 3,
     bv_extension = Some \<lparr>ext_dimensions = (1, 4), ext_lookup = [(1, 0)], ext_commitments = [[1], [2]]\<rparr>, bv_confidence = None\<rparr>"

definition sample_app_config :: app_client_config where
  "sample_app_config = \<lparr>acc_dht_parallelization_limit = 1, acc_disable_rpc = False, acc_threshold = 5\<rparr>"

definition sample_app_sys :: "(unit, u16 \<times> u16, (u32 \<times> u32) list) client_sys" where
  "sample_app_sys = \<lparr>cs_db = db_empty, cs_state = state_default, cs_net = (), cs_metrics = [], cs_sent = [], cs_shutdown = controller_new\<rparr>"

section \<open>Lemmas\<close>

text \<open>The cells of one row.\<close>

definition row_cells :: "nat \<Rightarrow> bytes \<Rightarrow> data_cell list" where
  "row_cells row dat =
     map (\<lambda>(col, d). \<lparr>dc_position = \<lparr>pos_row = word_of_nat row, pos_col = word_of_nat col\<rparr>, dc_data = d\<rparr>)
       (enumerate 0 (chunks_exact CHUNK_SIZE dat))"

definition row_fits :: "bytes \<Rightarrow> bool" where
  "row_fits dat \<longleftrightarrow> CHUNK_SIZE dvd length dat \<and> length dat div CHUNK_SIZE \<le> 2 ^ 16"

definition some_rows :: "nat \<Rightarrow> bytes option list \<Rightarrow> (nat \<times> bytes) list" where
  "some_rows k rows = flatten_options (map (\<lambda>(row, row_data). map_option (Pair row) row_data) (enumerate k rows))"

text \<open>An operation that stores its result under a key when it succeeds, and leaves the database alone otherwise.\<close>

definition stores_result :: "key \<Rightarrow> (('n, 'dim, 'lk) client_sys, app_data) op \<Rightarrow> bool" where
  "stores_result k m \<longleftrightarrow>
     (\<forall>s r s'. m s = (r, s') \<longrightarrow>
        (\<forall>dat. r = Ok dat \<longrightarrow> db_entries (cs_db s') = (db_entries (cs_db s))(k \<mapsto> AppDataValue dat)) \<and>
        (\<not> is_ok r \<longrightarrow> cs_db s' = cs_db s))"

definition sent_data_stored :: "u32 \<Rightarrow> ('n, 'dim, 'lk) client_sys \<Rightarrow> (u32 \<times> app_data) list \<Rightarrow> bool" where
  "sent_data_stored appid s sent \<longleftrightarrow>
     (\<forall>n dat. map_of (rev sent) n = Some dat \<longrightarrow> db_entries (cs_db s) (AppData appid n) = Some (AppDataValue dat))"

lemma CHUNK_SIZE_pos [simp]: "0 < CHUNK_SIZE"
  by (simp add: CHUNK_SIZE_def)

lemma data_cells_from_row_eq:
  assumes "row < 2 ^ 32" "row_fits dat"
  shows "data_cells_from_row row dat = Ok (row_cells row dat)"
proof -
  have "map (\<lambda>(col, d). new_data_cell row col d) (enumerate 0 (chunks_exact CHUNK_SIZE dat)) = map Ok (row_cells row dat)"
    unfolding row_cells_def map_map
  proof (rule map_cong [OF refl], clarify)
    fix col d assume "(col, d) \<in> set (enumerate 0 (chunks_exact CHUNK_SIZE dat))"
    then have "col < length dat div CHUNK_SIZE" "d \<in> set (chunks_exact CHUNK_SIZE dat)"
      by (auto simp: in_set_enumerate_eq length_chunks_exact)
    with assms chunks_exact_length [of d CHUNK_SIZE dat] show "new_data_cell row col d =
        (Ok \<circ> (\<lambda>(col, d). \<lparr>dc_position = \<lparr>pos_row = word_of_nat row, pos_col = word_of_nat col\<rparr>, dc_data = d\<rparr>)) (col, d)"
      by (simp add: new_data_cell_def row_fits_def)
  qed
  then show ?thesis by (simp add: data_cells_from_row_def collect_res_eq_Ok)
qed

lemma row_cells_data: "row_fits dat \<Longrightarrow> concat (map dc_data (row_cells row dat)) = dat"
  by (simp add: row_cells_def comp_def case_prod_beta row_fits_def concat_chunks_exact)

lemma row_cells_row: "c \<in> set (row_cells row dat) \<Longrightarrow> pos_row (dc_position c) = word_of_nat row"
  by (auto simp: row_cells_def)

lemma some_rows_simps [simp]:
  "some_rows k [] = []" "some_rows k (None # rows) = some_rows (Suc k) rows"
  "some_rows k (Some d # rows) = (k, d) # some_rows (Suc k) rows"
  by (simp_all add: some_rows_def flatten_options_def)

lemma some_rows_bound: "(j, d) \<in> set (some_rows k rows) \<Longrightarrow> k \<le> j \<and> j < k + length rows \<and> rows ! (j - k) = Some d"
proof (induction rows arbitrary: k)
  case (Cons r rows)
  show ?case
  proof (cases "r = Some d \<and> j = k")
    case False
    with Cons.prems have "(j, d) \<in> set (some_rows (Suc k) rows)" by (cases r) auto
    from Cons.IH [OF this] show ?thesis by (auto simp: nth_Cons' Suc_diff_le)
  qed simp
qed simp

lemma word_of_nat_u32_eq: "a < 2 ^ 32 \<Longrightarrow> b < 2 ^ 32 \<Longrightarrow> (word_of_nat a :: u32) = word_of_nat b \<longleftrightarrow> a = b"
  by (simp add: word_of_nat_eq_iff take_bit_nat_eq_self)

lemma filter_row_cells:
  assumes "j < 2 ^ 32" "i < 2 ^ 32"
  shows "filter (\<lambda>c. pos_row (dc_position c) = word_of_nat i) (row_cells j dat) = (if j = i then row_cells j dat else [])"
proof (cases "j = i")
  case True
  then show ?thesis by (simp add: row_cells_row cong: filter_cong)
next
  case False
  then have "(word_of_nat j :: u32) \<noteq> word_of_nat i" using assms by (simp add: word_of_nat_u32_eq)
  with False show ?thesis by (simp add: row_cells_row filter_empty_conv)
qed

lemma some_rows_data:
  assumes "k + length rows \<le> 2 ^ 32" "i < 2 ^ 32" "\<And>d. Some d \<in> set rows \<Longrightarrow> row_fits d"
  shows "concat (map dc_data (filter (\<lambda>c. pos_row (dc_position c) = word_of_nat i)
     (concat (map (\<lambda>(j, d). row_cells j d) (some_rows k rows))))) =
   (if k \<le> i \<and> i < k + length rows then (case rows ! (i - k) of Some d \<Rightarrow> d | None \<Rightarrow> []) else [])"
  using assms
proof (induction rows arbitrary: k)
  case (Cons r rows)
  have IH: "concat (map dc_data (filter (\<lambda>c. pos_row (dc_position c) = word_of_nat i)
     (concat (map (\<lambda>(j, d). row_cells j d) (some_rows (Suc k) rows))))) =
   (if Suc k \<le> i \<and> i < Suc k + length rows then (case rows ! (i - Suc k) of Some d \<Rightarrow> d | None \<Rightarrow> []) else [])"
    using Cons.prems by (intro Cons.IH) auto
  have k: "k < 2 ^ 32" using Cons.prems(1) by simp
  show ?case
  proof (cases r)
    case None
    then show ?thesis using IH by (auto simp: nth_Cons' Suc_le_eq)
  next
    case (Some d)
    then have "row_fits d" using Cons.prems(3) by simp
    with Some IH k Cons.prems(2) show ?thesis
      by (auto simp: filter_row_cells row_cells_data nth_Cons' Suc_le_eq)
  qed
qed auto

lemma data_cells_from_rows_eq:
  assumes "length rows \<le> 2 ^ 32" "\<And>d. Some d \<in> set rows \<Longrightarrow> row_fits d"
  shows "data_cells_from_rows rows = Ok (concat (map (\<lambda>(j, d). row_cells j d) (some_rows 0 rows)))"
proof -
  have "map (\<lambda>(j, d). data_cells_from_row j d) (some_rows 0 rows) = map Ok (map (\<lambda>(j, d). row_cells j d) (some_rows 0 rows))"
    unfolding map_map
  proof (rule map_cong [OF refl], clarify)
    fix j d assume "(j, d) \<in> set (some_rows 0 rows)"
    from some_rows_bound [OF this] have "j < length rows" "rows ! j = Some d" by auto
    then have "j < 2 ^ 32" "Some d \<in> set rows" using assms(1) by (auto dest: nth_mem)
    with assms(2) show "data_cells_from_row j d = (Ok \<circ> (\<lambda>(j, d). row_cells j d)) (j, d)"
      by (simp add: data_cells_from_row_eq)
  qed
  then have "collect_res (map (\<lambda>(j, d). data_cells_from_row j d) (some_rows 0 rows)) =
      Ok (map (\<lambda>(j, d). row_cells j d) (some_rows 0 rows))"
    by (simp only: collect_res_eq_Ok)
  then show ?thesis by (simp add: data_cells_from_rows_def flip: some_rows_def)
qed

text \<open>Reconstruction.\<close>

lemma reconstructed_rows_Ok:
  "collect_res (map (reconstructed_row K dims cells) rows) = Ok rs \<Longrightarrow>
     map fst rs = rows \<and> (\<forall>r \<in> set rs. length (snd r) = dim_width K dims * CHUNK_SIZE)"
  by (induction rows arbitrary: rs) (fastforce simp: res_simps reconstructed_row_def Let_def split: if_splits)+

text \<open>The effect of processing a block on the database.\<close>

lemma snd_on_net_db [simp]: "cs_db (snd (on_net m s)) = cs_db s"
  by (simp add: on_net_def split: prod.splits)

lemma stores_result_bind:
  assumes "\<And>s. cs_db (snd (m s)) = cs_db s" "\<And>x. stores_result k (f x)"
  shows "stores_result k (op_bind m f)"
  unfolding stores_result_def
proof (intro allI impI)
  fix s r s'
  assume run: "op_bind m f s = (r, s')"
  obtain r1 s1 where m: "m s = (r1, s1)" by fastforce
  with assms(1) [of s] have "cs_db s1 = cs_db s" by simp
  then show "(\<forall>dat. r = Ok dat \<longrightarrow> db_entries (cs_db s') = (db_entries (cs_db s))(k \<mapsto> AppDataValue dat)) \<and>
      (\<not> is_ok r \<longrightarrow> cs_db s' = cs_db s)"
    using run m assms(2) by (cases r1) (auto simp: op_bind_def stores_result_def)
qed

lemma stores_result_put:
  "stores_result k (op_bind (op_wrap_err msg (on_db (db_put_op k (AppDataValue dat)))) (\<lambda>_. op_return dat))"
  by (auto simp: stores_result_def op_bind_def op_wrap_err_def on_db_def db_put_op_def db_put_def op_return_def split: option.splits)

lemma stores_result_Err: "stores_result k (op_lift (Err e))"
  by (simp add: stores_result_def op_lift_def)

lemma app_process_block_stores:
  "stores_result (AppData a (bv_block_num block)) (app_process_block E cfg a block)"
  unfolding app_process_block_def Let_def
  by (auto intro!: stores_result_bind stores_result_put stores_result_Err split: option.splits)

lemma app_client_run_stored:
  "\<lbrakk>sent_data_stored a s sent; list_all ai_receiver_alive is; app_client_run cfg a srange is (s, sent) = (r, s', sent')\<rbrakk> \<Longrightarrow>
     sent_data_stored a s' sent'"
proof (induction "is" arbitrary: s sent)
  case Nil
  then show ?case by simp
next
  case (Cons i "is")
  have frame: "sent_data_stored a (on_state f t) xs = sent_data_stored a t xs"
    "sent_data_stored a (cs_trigger_shutdown m t) xs = sent_data_stored a t xs" for f t xs m
    by (simp_all add: sent_data_stored_def on_state_def cs_trigger_shutdown_def split: option.splits)
  have step: "(\<forall>dat. r = Ok dat \<longrightarrow> sent_data_stored a s1 (sent @ [(bv_block_num block, dat)])) \<and>
      (\<not> is_ok r \<longrightarrow> sent_data_stored a s1 sent)"
    if "app_process_block (ai_env i) cfg a block s = (r, s1)" for block r s1
    using app_process_block_stores [of a block "ai_env i" cfg] that Cons.prems(1)
    unfolding stores_result_def sent_data_stored_def by (cases r) (auto split: if_splits)
  have marked: "sent_data_stored a t xs \<Longrightarrow> app_client_run cfg a srange is (on_state f t, xs) = (r, s', sent') \<Longrightarrow>
      sent_data_stored a s' sent'" for f t xs
    using Cons.IH [of "on_state f t" xs] Cons.prems(2) by (simp add: frame)
  show ?case
  proof (cases "ai_block i")
    case (Ok block)
    show ?thesis
    proof (cases "bv_extension block = None \<or> lookup_range_of (ap_kate (ai_env i)) (ext_lookup (the (bv_extension block))) a = None")
      case True
      with Ok Cons.prems show ?thesis by (auto simp: Let_def split: option.splits intro: marked)
    next
      case False
      obtain r1 s1 where p: "app_process_block (ai_env i) cfg a block s = (r1, s1)" by fastforce
      from step [OF p] False Ok p Cons.prems(2,3) show ?thesis
        by (cases r1) (auto simp: Let_def frame intro: marked)
    qed
  qed (use Cons.prems in \<open>auto simp: frame\<close>)
qed

lemma sample_row_cells: "data_cells_from_rows [Some (sample_row b), None] =
    Ok [\<lparr>dc_position = \<lparr>pos_row = 0, pos_col = 0\<rparr>, dc_data = sample_row b\<rparr>]"
  by (simp add: data_cells_from_rows_def data_cells_from_row_def CHUNK_SIZE_def chunks_exact.simps new_data_cell_def
      flatten_options_def sample_row_def)

lemma sample_rows_stored: "store_rows [(0, r)] (replicate 2 None) = Ok [Some r, None]"
  by (simp add: set_index_res_def numeral_2_eq_2)

lemma sample_dht_rows: "app_fetch_rows_from_dht sample_app_env 3 (1, 4) [0] = Ok [Some (sample_row 9), None]"
  using sample_rows_stored [of "sample_row 9"]
  by (simp add: app_fetch_rows_from_dht_def sample_app_env_def checking_kate_def fetch_rows_from_dht_def chunks.simps
      fetch_row_from_dht_def flatten_options_def)

lemma sample_rpc_rows: "get_kate_rows sample_app_env [0] (1, 4) h t = (Ok [Some (sample_row 7), None], t)"
  using sample_rows_stored [of "sample_row 7"]
  by (simp add: get_kate_rows_def sample_app_env_def checking_kate_def op_bind_def op_lift_def)

lemma sample_row_neq: "sample_row 9 \<noteq> sample_row 7"
  by (simp add: sample_row_def)

lemma sample_combined:
  "combine_rows [Some (sample_row 9), None] [Some (sample_row 7), None] 2 [0] = [Some (sample_row 9), None]"
  by (simp add: combine_rows_def range_u32_def upt_rec)

lemma sample_app_run:
  "app_process_block sample_app_env sample_app_config 1 sample_app_block sample_app_sys =
     (Ok [sample_row 9], sample_app_sys\<lparr>cs_db := db_empty\<lparr>db_entries := [AppData 1 3 \<mapsto> AppDataValue [sample_row 9]]\<rparr>\<rparr>)"
proof -
  have K: "ap_kate sample_app_env = checking_kate" by (simp add: sample_app_env_def)
  have R: "reconstruct_rows_from_dht sample_app_env 3 (1, 4) cms [] = Ok []" for cms
    by (simp add: reconstruct_rows_from_dht_def K checking_kate_def)
  show ?thesis
    using sample_dht_rows sample_rpc_rows
    by (simp add: app_process_block_def K R sample_app_block_def sample_app_config_def Let_def checking_kate_def sample_row_neq
        op_bind_def op_lift_def on_net_def sample_combined sample_row_cells op_wrap_err_def on_db_def db_put_op_def db_put_def
        db_empty_def sample_app_sys_def op_return_def)
qed

section \<open>Properties\<close>



text \<open>The rows that the reconstruction returns are the missing rows, in their order, and each has the full width of the matrix.\<close>

theorem reconstructed_rows_complete:
  assumes "reconstruct_rows_from_dht E block_number dims commitments missing_rows = Ok rs"
    and "extended_rows_positions (ap_kate E) dims missing_rows \<noteq> []"
  shows "map fst rs = missing_rows \<and> (\<forall>r \<in> set rs. length (snd r) = dim_width (ap_kate E) dims * CHUNK_SIZE)"
proof -
  obtain cells where "collect_res (map (reconstructed_row (ap_kate E) dims cells) missing_rows) = Ok rs"
    using assms by (auto simp: reconstruct_rows_from_dht_def Let_def res_simps split: prod.splits)
  then show ?thesis by (rule reconstructed_rows_Ok)
qed

text \<open>C21: While the receiver of verified data lives, the data of a block that the application client sent last are the data that
  are stored in the database for this block.\<close>

theorem app_client_sent_data_stored:
  assumes "list_all ai_receiver_alive is" "app_client_run cfg appid srange is (s, []) = (r, s', sent)"
  shows "sent_data_stored appid s' sent"
  by (rule app_client_run_stored [OF _ assms]) (simp add: sent_data_stored_def)

theorem app_client_sent_data_stored_witness:
  "sent_data_stored 1 (fst (snd (app_client_run sample_app_config 1 (0, 0)
       [\<lparr>ai_block = Ok sample_app_block, ai_env = sample_app_env, ai_receiver_alive = True\<rparr>] (sample_app_sys, []))))
     [(3, [sample_row 9])]"
proof -
  let ?is = "[\<lparr>ai_block = Ok sample_app_block, ai_env = sample_app_env, ai_receiver_alive = True\<rparr>]"
  have run: "app_client_run sample_app_config 1 (0, 0) ?is (sample_app_sys, []) =
      (Ok (), (on_state (set_data_verified_state (0, 0) 3)
        (snd (app_process_block sample_app_env sample_app_config 1 sample_app_block sample_app_sys)), [(3, [sample_row 9])]))"
    using sample_app_run
    by (simp add: Let_def) (simp add: sample_app_block_def sample_app_env_def checking_kate_def)
  from app_client_sent_data_stored [OF _ run] show ?thesis unfolding run by simp
qed


end
