(* ===== verification/Db_Contract.thy ===== *)
theory Db_Contract
  imports Sync_Client Fat_Client App_Client Sync_Finality
begin

text \<open>
  What the writers of the database promise. The light, sync, fat and application clients, the subscription loop and the finality sync write to one
  database (\<open>src/data.rs\<close>). A contract says which values are admitted under which keys; the locale \<open>db_writers\<close> asks that it admits a
  header under its own number, application data and checkpoints, and \<open>db_contract\<close> asks that it admits the counts of verified cells as well. The
  two clients that put a header under the number that they asked for rely on the node to answer with an admitted one.

  In the locales it is proved once that every task keeps a database within the contract, also when it fails or panics midway. The contracts of
  the development are interpretations.
\<close>

section \<open>Databases within a contract\<close>

definition entries_admitted :: "(key \<Rightarrow> db_value \<Rightarrow> bool) \<Rightarrow> database \<Rightarrow> bool" where
  "entries_admitted admits d \<longleftrightarrow> (\<forall>k v. db_entries d k = Some v \<longrightarrow> admits k v)"

definition keeps :: "(key \<Rightarrow> db_value \<Rightarrow> bool) \<Rightarrow> (('n, 'dim, 'lk) client_sys, 'a) op \<Rightarrow> bool" where
  "keeps admits m \<longleftrightarrow> (\<forall>s. entries_admitted admits (cs_db s) \<longrightarrow> entries_admitted admits (cs_db (snd (m s))))"

text \<open>The node answers a request for the header of a block with one that is admitted under the number of the block.\<close>

definition headers_admitted :: "(key \<Rightarrow> db_value \<Rightarrow> bool) \<Rightarrow> (u32 \<Rightarrow> ('n, header \<times> h256) op) \<Rightarrow> bool" where
  "headers_admitted admits rpc_header \<longleftrightarrow>
     (\<forall>n t hdr hash t'. rpc_header n t = (Ok (hdr, hash), t') \<longrightarrow> admits (BlockHeader n) (HeaderValue hdr))"

definition node_headers_admitted :: "(key \<Rightarrow> db_value \<Rightarrow> bool) \<Rightarrow> rpc_api \<Rightarrow> bool" where
  "node_headers_admitted admits R \<longleftrightarrow>
     (\<forall>n g hdr. rpc_get_block_hash R n = Ok g \<longrightarrow> rpc_get_header_by_hash R g = Ok hdr \<longrightarrow> admits (BlockHeader n) (HeaderValue hdr))"

section \<open>Operations that keep a contract\<close>

lemma entries_admitted_put: "entries_admitted admits d \<Longrightarrow> admits k v \<Longrightarrow> entries_admitted admits (snd (db_put_op k v d))"
  using db_put_op_entries [of k v d] by (auto simp: entries_admitted_def split: if_splits)

lemma keeps_bind [intro]: "keeps admits m \<Longrightarrow> (\<And>x. keeps admits (f x)) \<Longrightarrow> keeps admits (op_bind m f)"
  by (auto simp: keeps_def snd_op_bind split: res.splits)

lemma keeps_frame [intro, simp]:
  "keeps admits (op_return x)" "keeps admits (op_lift r)" "keeps admits (on_net nm)"
  "keeps admits m \<Longrightarrow> keeps admits (op_wrap_err msg m)"
  by (simp_all add: keeps_def op_return_def op_lift_def on_net_def split: prod.splits)

lemma keeps_put [intro]: "admits k v \<Longrightarrow> keeps admits (on_db (db_put_op k v))"
  using entries_admitted_put by (fastforce simp: keeps_def on_db_def split: prod.splits)

lemma cs_db_send_verified [simp]: "cs_db (send_verified alive msg s) = cs_db s"
  by (simp add: send_verified_def)

lemma cs_db_trigger [simp]: "cs_db (cs_trigger_shutdown r s) = cs_db s"
  by (simp add: cs_trigger_shutdown_def)

lemma cs_db_processing_delay [simp]: "cs_db (processing_delay d e s) = cs_db s"
  by (simp add: processing_delay_def split: option.splits)

lemma keepsD: "keeps admits m \<Longrightarrow> entries_admitted admits (cs_db s) \<Longrightarrow> entries_admitted admits (cs_db (snd (m s)))"
  by (simp add: keeps_def)

lemma keepsI: "(\<And>s. entries_admitted admits (cs_db s) \<Longrightarrow> entries_admitted admits (cs_db (snd (m s)))) \<Longrightarrow> keeps admits m"
  by (simp add: keeps_def)

lemma keeps_case: "keeps admits m \<Longrightarrow> entries_admitted admits (cs_db s) \<Longrightarrow> m s = (r, s') \<Longrightarrow> entries_admitted admits (cs_db s')"
  by (metis keeps_def snd_conv)

lemma keeps_pre: "keeps admits m \<Longrightarrow> (\<And>s. cs_db (g s) = cs_db s) \<Longrightarrow> keeps admits (\<lambda>s. m (g s))"
  by (simp add: keeps_def)

lemma keeps_done: "(\<And>s. cs_db (g s) = cs_db s) \<Longrightarrow> keeps admits (\<lambda>s. (r, g s))"
  by (simp add: keeps_def)

lemmas keeps_rules = keeps_bind keeps_frame keeps_put keeps_pre keeps_done

section \<open>The contract of the writers\<close>

locale db_writers =
  fixes admits :: "key \<Rightarrow> db_value \<Rightarrow> bool"
  assumes header_admitted: "admits (BlockHeader (h_number h)) (HeaderValue h)"
    and app_data_admitted: "admits (AppData a n) (AppDataValue x)"
    and checkpoint_admitted: "admits FinalitySyncCheckpointKey (CheckpointValue ch)"
begin

lemmas admitted = header_admitted app_data_admitted checkpoint_admitted

lemma sync_get_header_keeps:
  assumes "headers_admitted admits rpc_header"
  shows "keeps admits (sc_get_header_by_block_number K rpc_header n)"
proof (rule keepsI)
  fix s :: "('a, 'b, 'c) client_sys"
  have "entries_admitted admits (cs_db (snd (op_bind (op_wrap_err m1 (on_net (rpc_header n))) (\<lambda>(hdr, hash).
      op_bind (op_wrap_err m2 (on_db (db_put_op (BlockHeader n) (HeaderValue hdr)))) (\<lambda>_. op_return (hdr, hash))) s)))"
    if ok: "entries_admitted admits (cs_db s)" for m1 m2
  proof (cases "rpc_header n (cs_net s)")
    case (Pair r t)
    let ?store = "\<lambda>hdr hash. op_bind (op_wrap_err m2 (on_db (db_put_op (BlockHeader n) (HeaderValue hdr)))) (\<lambda>_. op_return (hdr, hash :: h256))"
    have "keeps admits (?store hdr hash :: (('a, 'b, 'c) client_sys, _) op)"
      if "r = Ok (hdr, hash)" for hdr hash
      using assms that Pair unfolding headers_admitted_def by (intro keeps_bind keeps_frame(4) keeps_put) (blast, simp)
    then have "entries_admitted admits (cs_db (snd (?store hdr hash (s\<lparr>cs_net := t\<rparr>))))" if "r = Ok (hdr, hash)" for hdr hash
      using ok that by (simp add: keeps_def)
    moreover have "op_wrap_err m1 (on_net (rpc_header n)) s = (wrap_err m1 r, s\<lparr>cs_net := t\<rparr>)"
      using Pair by (simp add: op_wrap_err_def on_net_def)
    ultimately show ?thesis using ok
      by (cases r) (auto simp: op_bind_def [of "op_wrap_err m1 (on_net (rpc_header n))"] wrap_err_def)
  qed
  then show "entries_admitted admits (cs_db s) \<Longrightarrow> entries_admitted admits (cs_db (snd (sc_get_header_by_block_number K rpc_header n s)))"
    by (auto simp: sc_get_header_by_block_number_def split: res.splits option.splits)
qed

lemma fat_process_block_keeps: "keeps admits (fat_process_block K F cfg hdr prt duration)"
proof (rule keepsI)
  fix s :: "('a, 'b, 'c) client_sys"
  have fin: "keeps admits (\<lambda>s1. let s2 = cs_metric ms s1 in if b then on_net nm s2 else (Ok (), s2))" for ms b and nm :: "('a, unit) op"
    by (rule keepsI) (auto simp: Let_def intro: keepsD)
  have up: "keeps admits (op_bind (op_wrap_err msg (on_db (db_put_op (BlockHeader (h_number hdr)) (HeaderValue hdr)))) (\<lambda>_.
      op_bind (on_net nm) (\<lambda>r s1. let s2 = cs_metric ms s1 in if b r then on_net (rows r) s2 else (Ok (), s2))))"
    for msg ms b and nm :: "('a, 'd) op" and rows :: "'d \<Rightarrow> ('a, unit) op"
    by (auto intro!: keeps_bind keeps_put fin admitted)
  assume "entries_admitted admits (cs_db s)"
  then show "entries_admitted admits (cs_db (snd (fat_process_block K F cfg hdr prt duration s)))"
    unfolding fat_process_block_def Let_def
    by (auto split: option.splits intro!: keepsD [OF up [unfolded Let_def]])
qed

lemma fat_client_run_keeps: "keeps admits (fat_client_run K F cfg prt duration is)"
proof (rule keepsI)
  fix s :: "('a, 'b, 'c) client_sys"
  show "entries_admitted admits (cs_db s) \<Longrightarrow> entries_admitted admits (cs_db (snd (fat_client_run K F cfg prt duration is s)))"
  proof (induction "is" arbitrary: s)
    case (Cons i "is")
    then show ?case
      by (auto simp: Let_def split: res.splits event.splits prod.splits
          dest: keeps_case [OF fat_process_block_keeps, rotated])
  qed simp
qed

lemma app_process_block_keeps: "keeps admits (app_process_block E cfg a block)"
proof (rule keepsI)
  fix s :: "('a, 'b, 'c) client_sys"
  obtain r s' where run: "app_process_block E cfg a block s = (r, s')" by fastforce
  assume "entries_admitted admits (cs_db s)"
  then show "entries_admitted admits (cs_db (snd (app_process_block E cfg a block s)))"
    using app_process_block_stores [of a block E cfg] run
    by (cases r) (auto simp: stores_result_def entries_admitted_def admitted)
qed

lemma app_client_run_keeps:
  "entries_admitted admits (cs_db s) \<Longrightarrow> entries_admitted admits (cs_db (fst (snd (app_client_run cfg a rng is (s, sent)))))"
proof (induction "is" arbitrary: s sent)
  case (Cons i "is")
  then show ?case
    by (auto simp: Let_def split: res.splits option.splits prod.splits
        dest: keeps_case [OF app_process_block_keeps, rotated])
qed simp

lemma sync_block_admitted:
  assumes R: "node_headers_admitted admits R" and d: "entries_admitted admits d"
  shows "entries_admitted admits (snd (sync_block K V R n h vs d))"
proof -
  have "admits (BlockHeader n) (HeaderValue hdr)"
    if "sf_get_block_hash R n = Ok g" "sf_get_header_by_hash R g = Ok hdr" for g hdr
    using that R by (auto simp: sf_calls res_simps node_headers_admitted_def)
  then show ?thesis using d
    unfolding sync_block_def Let_def
    by (auto simp: snd_op_bind op_lift_def sf_store_block_header_def sf_store_checkpoint_def res_simps
      entries_admitted_put checkpoint_admitted split: res.splits list.splits)
qed

lemma sync_loop_admitted:
  "node_headers_admitted admits R \<Longrightarrow> entries_admitted admits d \<Longrightarrow> entries_admitted admits (snd (sync_loop K V R l n h vs d))"
proof (induction K V R l n h vs d rule: sync_loop.induct)
  case (1 K V R l n h vs d)
  show ?case using "1.prems" sync_block_admitted [OF "1.prems", of K V n h vs] "1.IH"
    by (subst sync_loop.simps) (auto split: prod.splits res.splits)
qed

lemma sync_admitted: "node_headers_admitted admits R \<Longrightarrow> entries_admitted admits d \<Longrightarrow> entries_admitted admits (snd (snd (sync K V tw R hdr st d)))"
  using sync_loop_admitted [of R d K V]
  by (auto simp: sync_def split: res.splits prod.splits) (metis snd_conv)+

lemma store_finality_checkpoint_admitted:
  "store_finality_checkpoint hdr s = Ok s' \<Longrightarrow> entries_admitted admits (sl_db s) \<Longrightarrow> entries_admitted admits (sl_db s')"
  by (auto simp: store_finality_checkpoint_def db_put_eq_Ok entries_admitted_def checkpoint_admitted split: res.splits if_splits)

lemma finalize_header_admitted:
  assumes fin: "finalize_header E j pos synced s = Ok (synced', s')" and d: "entries_admitted admits (sl_db s)"
  shows "entries_admitted admits (sl_db s')"
proof -
  obtain hdr t vs where at: "sl_unverified_headers s ! pos = (hdr, t, vs)" by (metis prod_cases3)
  let ?s1 = "s\<lparr>sl_unverified_headers := swap_remove pos (sl_unverified_headers s)\<rparr>"
  let ?sy = "if synced then True else st_finality_synced (sl_state s)"
  from fin at obtain s2 s3 where s2: "(if ?sy then store_finality_checkpoint hdr ?s1 else Ok ?s1) = Ok s2"
    and s3: "(case sl_last_finalized_block_header s2 of None \<Rightarrow> Ok s2
      | Some l \<Rightarrow> send_skipped_all E (range_u32 (h_number l + 1) (h_number hdr)) s2) = Ok s3"
    and s': "sl_db s' = sl_db s3"
    by (auto simp: finalize_header_def Let_def res_simps split: res.splits if_splits)
  have "entries_admitted admits (sl_db s2)"
    using s2 d store_finality_checkpoint_admitted [of hdr ?s1 s2] by (auto split: if_splits)
  moreover have "sl_db s3 = sl_db s2"
    using s3 by (auto dest!: send_skipped_all_frame same_but_headers_fields split: option.splits)
  ultimately show ?thesis using s' by simp
qed

lemma verify_loop_admitted:
  "verify_loop E synced js s = Ok s' \<Longrightarrow> entries_admitted admits (sl_db s) \<Longrightarrow> entries_admitted admits (sl_db s')"
proof (induction js arbitrary: synced s)
  case (Cons j js)
  then show ?case
    by (auto simp: res_simps split: option.splits dest: finalize_header_admitted)
qed auto

lemma handle_new_subscription_admitted:
  assumes "handle_new_subscription E now sub s = Ok s'" "entries_admitted admits (sl_db s)"
  shows "entries_admitted admits (sl_db s')"
proof -
  have push: "sl_db s1 = sl_db s" if "note_valset_change K hdr (push_header hdr now s) = Ok s1" for K hdr s1
    using that by (auto simp: note_valset_change_def push_header_def Let_def split: list.splits option.splits)
  have "\<exists>s1. sl_db s1 = sl_db s \<and> verify_and_output_block_headers E s1 = Ok s'"
    using assms(1) push
    by (cases sub) (auto simp: handle_new_subscription_def res_simps intro: exI [of _ "s\<lparr>sl_justifications := js\<rparr>" for js])
  then obtain s1 where "sl_db s1 = sl_db s" "verify_and_output_block_headers E s1 = Ok s'" by blast
  then show ?thesis
    using assms(2) verify_loop_admitted [of E False "rev (sl_justifications s1)" s1 s'] by (simp add: verify_and_output_block_headers_def)
qed

lemma sub_loop_run_admitted:
  "sub_loop_run E subs s = Ok s' \<Longrightarrow> entries_admitted admits (sl_db s) \<Longrightarrow> entries_admitted admits (sl_db s')"
  by (induction E subs s rule: sub_loop_run.induct) (auto simp: res_simps dest: handle_new_subscription_admitted)

end

text \<open>The light client and the sync client put counts too.\<close>

locale db_contract = db_writers +
  assumes count_admitted: "admits (VerifiedCellCount n) (CountValue c)"
begin

lemma light_store_keeps: "keeps admits (light_store_confidence hdr n)"
  unfolding light_store_confidence_def Let_def
  by (rule keeps_bind, simp add: keeps_put count_admitted,
      rule keeps_pre [where g = "\<lambda>s. cs_metric ms (on_state f s)" for ms f])
    (simp_all add: keeps_bind keeps_put admitted)

lemma light_process_block_keeps: "keeps admits (light_process_block K fetch positions_of cfg hdr)"
proof (rule keepsI)
  fix s :: "('a, 'b, 'c) client_sys"
  have put: "keeps admits (op_bind (op_wrap_err msg (on_db (db_put_op (BlockHeader (h_number hdr)) (HeaderValue hdr)))) (\<lambda>_. op_return x))"
    for msg and x :: "f64 option"
    by (simp add: keeps_bind keeps_put admitted)
  have fin: "keeps admits (\<lambda>s1. let s2 = cs_metric ms s1 in if b then (Ok None, s2) else light_store_confidence hdr k s2)" for ms b k
    by (rule keepsI) (auto simp: Let_def intro: keepsD [OF light_store_keeps])
  have sample: "keeps admits (op_bind (op_lift r) (\<lambda>commitments. op_bind (on_net (nm commitments)) (\<lambda>(fetched, unfetched, stats) s1.
      let s2 = cs_metric (ms stats) s1
      in if l > length fetched then (Ok None, s2) else light_store_confidence hdr (length fetched) s2)))" for r :: "'d result" and nm ms l
    by (rule keeps_bind, simp, rule keeps_bind, simp) (auto intro: fin split: prod.splits)
  assume "entries_admitted admits (cs_db s)"
  then show "entries_admitted admits (cs_db (snd (light_process_block K fetch positions_of cfg hdr s)))"
    unfolding light_process_block_def Let_def
    by (auto split: option.splits intro!: keepsD [OF put] keepsD [OF sample [unfolded Let_def]])
qed

lemma light_client_run_keeps: "keeps admits (light_client_run K fetch cfg is)"
proof (rule keepsI)
  fix s :: "('a, 'b, 'c) client_sys"
  show "entries_admitted admits (cs_db s) \<Longrightarrow> entries_admitted admits (cs_db (snd (light_client_run K fetch cfg is s)))"
  proof (induction "is" arbitrary: s)
    case (Cons i "is")
    then show ?case
      by (auto simp: Let_def split: res.splits event.splits prod.splits
          dest: keeps_case [OF light_process_block_keeps, rotated])
  qed simp
qed

lemma keeps_store_count: "keeps admits (on_db (sc_store_confidence c n))"
proof (rule keepsI)
  fix s :: "('a, 'b, 'c) client_sys"
  assume "entries_admitted admits (cs_db s)"
  then have "entries_admitted admits (snd (db_put_op (VerifiedCellCount n) (CountValue c) (cs_db s)))" by (simp add: entries_admitted_put count_admitted)
  then show "entries_admitted admits (cs_db (snd (on_db (sc_store_confidence c n) s)))"
    by (auto simp: on_db_def sc_store_confidence_def op_wrap_err_def split: prod.splits)
qed

lemma sync_process_block_keeps: "keeps admits (sync_process_block K fetch positions_of alive cfg hdr hash)"
  unfolding sync_process_block_def Let_def
  by (auto intro!: keeps_bind keeps_store_count keeps_done split: option.splits prod.splits)

lemma sync_one_keeps:
  assumes "headers_admitted admits (sy_rpc_header E)"
  shows "keeps admits (sync_one E n)"
  by (rule keepsI)
    (auto simp: sync_one_def split: res.splits prod.splits bool.splits
      dest!: keeps_case [OF sync_get_header_keeps [OF assms], rotated] keeps_case [OF sync_process_block_keeps, rotated])

lemma sync_blocks_keeps:
  assumes "headers_admitted admits (sy_rpc_header E)"
  shows "keeps admits (sync_blocks E ns)"
proof (rule keepsI)
  fix s :: "('a, 'b, 'c) client_sys"
  show "entries_admitted admits (cs_db s) \<Longrightarrow> entries_admitted admits (cs_db (snd (sync_blocks E ns s)))"
  proof (induction ns arbitrary: s)
    case (Cons n ns)
    then show ?case using keepsD [OF sync_one_keeps [OF assms, of n] Cons.prems]
      by (auto simp: snd_op_bind split: res.splits)
  qed simp
qed

lemma sync_client_run_keeps:
  assumes "headers_admitted admits (sy_rpc_header E)"
  shows "keeps admits (sync_client_run E rng)"
  unfolding sync_client_run_def by (auto intro!: keeps_bind sync_blocks_keeps [OF assms] keeps_done)

end

end
