(* ===== verification/Program.thy ===== *)
theory Program
  imports Startup Db_Contract
begin

text \<open>
  The whole program as interleaved tasks. The start (\<open>run\<close> in \<open>src/bin/avail-light.rs\<close>) spawns the subscription loop, the light or the fat client, the
  sync client, the application client, the finality sync and the maintenance; they share the database, the state behind the
  mutex and the channels. Here every task takes its steps, one message or one block at a time, in any order relative to the others: the relation
  \<open>program_step\<close> has one rule for each kind of step, built from the definitions of the components. A task may go on after an
  error that triggers the shutdown; the relation has all runs of the program and more. What the DHT and the nodes answer may differ from step to
  step.

  The lemmas show how each step changes the shared state, and an invariant on the numbers of the blocks in the events, in the channel of
  verified blocks, in the ranges of the state and in the stored headers. It follows that the state only progresses.
\<close>

section \<open>State\<close>

text \<open>
  The subscription loop keeps its own copy of the shared state and the database in its record; \<open>sub_view\<close> fills them in before a step and \<open>sub_done\<close> writes them
  back. \<open>pg_head\<close> is the first finalized header, once the clients have started; \<open>pg_blocks\<close> and \<open>pg_app\<close> count the messages that the block client and the
  application client have received, \<open>pg_sync\<close> are the blocks that the sync client has not come to yet, and \<open>pg_finality\<close> is where the finality sync is.
  \<open>pg_newest\<close> is the number of the newest header that was pushed.
\<close>

datatype finality_task = FinalityNotStarted | FinalityAt u32 h256 validator_set | FinalityEnded

record ('r, 'dim, 'lk) program =
  pg_shared :: "('r net_state, 'dim, 'lk) client_sys"
  pg_sub :: sub_loop
  pg_newest :: u32
  pg_head :: "header option"
  pg_blocks :: nat
  pg_sync :: "u32 list"
  pg_app :: nat
  pg_data :: "(u32 \<times> app_data) list"
  pg_finality :: finality_task

record ('dim, 'lk) program_env =
  pe_sub :: "('dim, 'lk) sub_env"
  pe_start :: startup_env
  pe_cfg :: runtime_config

definition sub_view :: "('r, 'dim, 'lk) program \<Rightarrow> sub_loop" where
  "sub_view p = (pg_sub p)\<lparr>sl_state := cs_state (pg_shared p), sl_db := cs_db (pg_shared p)\<rparr>"

definition sub_done :: "sub_loop \<Rightarrow> ('r, 'dim, 'lk) program \<Rightarrow> ('r, 'dim, 'lk) program" where
  "sub_done s p = p\<lparr>pg_sub := s, pg_shared := (pg_shared p)\<lparr>cs_state := sl_state s, cs_db := sl_db s\<rparr>\<rparr>"

definition sync_blocks_of :: "runtime_config \<Rightarrow> header \<Rightarrow> u32 list" where
  "sync_blocks_of cfg hdr =
     (if sync_start_block cfg = None then []
      else range_u32 (fst (sync_range cfg (h_number hdr))) (snd (sync_range cfg (h_number hdr))))"

text \<open>Before the first subscription has arrived.\<close>

definition program_init :: "rpc_api \<Rightarrow> state \<Rightarrow> ('r net_state, 'dim, 'lk) client_sys \<Rightarrow> ('r, 'dim, 'lk) program result" where
  "program_init R st shared =
     and_then (sub_loop_new R st (cs_db shared)) (\<lambda>s.
       Ok \<lparr>pg_shared = shared\<lparr>cs_state := st, cs_sent := []\<rparr>, pg_sub = s,
           pg_newest = (case sl_last_finalized_block_header s of Some h \<Rightarrow> h_number h | None \<Rightarrow> 0),
           pg_head = None, pg_blocks = 0, pg_sync = [], pg_app = 0, pg_data = [], pg_finality = FinalityNotStarted\<rparr>)"

section \<open>Contract of the stored headers\<close>

text \<open>A header is stored under its own number.\<close>

fun key_numbered :: "key \<Rightarrow> db_value \<Rightarrow> bool" where
  "key_numbered (BlockHeader n) (HeaderValue h) = (h_number h = n)"
| "key_numbered _ _ = True"

section \<open>Steps\<close>

text \<open>The nodes push headers with increasing numbers and answer a request for the header of a block with a header of that number. The light client and
  the sync client fetch through a network client that keeps its contract, as \<open>fetch_verified\<close> does, at random positions that are
  distinct, as \<open>generate_random_cells\<close> draws them.\<close>

inductive program_step :: "('dim, 'lk) program_env \<Rightarrow> ('r, 'dim, 'lk) program \<Rightarrow> ('r, 'dim, 'lk) program \<Rightarrow> bool"
  for E :: "('dim, 'lk) program_env" where
  header_arrives:
    "rpc_numbers_ok R \<Longrightarrow> pg_newest p < h_number hdr \<Longrightarrow>
     handle_new_subscription ((pe_sub E)\<lparr>se_rpc := R, se_fetched_at := fetched_at\<rparr>) now (HeaderSub hdr) (sub_view p) = Ok s \<Longrightarrow>
     program_step E p (sub_done s (p\<lparr>pg_newest := h_number hdr\<rparr>))"
| justification_arrives:
    "rpc_numbers_ok R \<Longrightarrow>
     handle_new_subscription ((pe_sub E)\<lparr>se_rpc := R, se_fetched_at := fetched_at\<rparr>) now (JustificationSub j) (sub_view p) = Ok s \<Longrightarrow>
     program_step E p (sub_done s p)"
| clients_start:
    "pg_head p = None \<Longrightarrow> sl_events (pg_sub p) = HeaderUpdate hdr received_at # evs \<Longrightarrow>
     startup_clients (pe_start E) (pe_cfg E) hdr \<lparr>su_state = cs_state (pg_shared p), su_tasks = ts, su_counted = cs\<rparr> = (Ok (), s) \<Longrightarrow>
     program_step E p (p\<lparr>pg_shared := (pg_shared p)\<lparr>cs_state := su_state s\<rparr>, pg_head := Some hdr,
       pg_sync := sync_blocks_of (pe_cfg E) hdr\<rparr>)"
| light_client_block:
    "pg_head p \<noteq> None \<Longrightarrow> block_matrix_partition (pe_cfg E) = None \<Longrightarrow> pg_blocks p < length (sl_events (pg_sub p)) \<Longrightarrow>
     bi_event i = Ok (sl_events (pg_sub p) ! pg_blocks p) \<Longrightarrow>
     light_client_run (se_kate (pe_sub E)) fetch (light_client_config_of (pe_cfg E)) [i] (pg_shared p) = (r, s) \<Longrightarrow>
     network_client (se_kate (pe_sub E)) fetch \<Longrightarrow> \<forall>d c. distinct (bi_positions i d c) \<Longrightarrow>
     program_step E p (p\<lparr>pg_shared := s, pg_blocks := Suc (pg_blocks p)\<rparr>)"
| fat_client_block:
    "pg_head p \<noteq> None \<Longrightarrow> block_matrix_partition (pe_cfg E) = Some prt \<Longrightarrow> pg_blocks p < length (sl_events (pg_sub p)) \<Longrightarrow>
     bi_event i = Ok (sl_events (pg_sub p) ! pg_blocks p) \<Longrightarrow>
     fat_client_run (se_kate (pe_sub E)) F (fat_client_config_of (pe_cfg E)) prt duration [i] (pg_shared p) = (r, s) \<Longrightarrow>
     program_step E p (p\<lparr>pg_shared := s, pg_blocks := Suc (pg_blocks p)\<rparr>)"
| sync_client_block:
    "pg_sync p = n # ns \<Longrightarrow> headers_admitted key_numbered (sy_rpc_header S) \<Longrightarrow> sy_config S = sync_client_config_of (pe_cfg E) \<Longrightarrow>
     sync_one S n (pg_shared p) = (r, s) \<Longrightarrow>
     sy_kate S = se_kate (pe_sub E) \<Longrightarrow> network_client (se_kate (pe_sub E)) (sy_fetch S) \<Longrightarrow> \<forall>m d c. distinct (sy_positions S m d c) \<Longrightarrow>
     program_step E p (p\<lparr>pg_shared := s, pg_sync := ns\<rparr>)"
| sync_client_done:
    "pg_head p = Some hdr \<Longrightarrow> pg_sync p = [] \<Longrightarrow> sync_blocks_of (pe_cfg E) hdr \<noteq> [] \<Longrightarrow>
     scc_is_last_step (sync_client_config_of (pe_cfg E)) \<Longrightarrow>
     program_step E p (p\<lparr>pg_shared := on_state (\<lambda>st. st\<lparr>st_synced := Some True\<rparr>) (pg_shared p)\<rparr>)"
| app_client_block:
    "pg_head p = Some hdr \<Longrightarrow> app_id (pe_cfg E) = Some a \<Longrightarrow> pg_app p < length (cs_sent (pg_shared p)) \<Longrightarrow>
     ai_block i = Ok (cs_sent (pg_shared p) ! pg_app p) \<Longrightarrow>
     app_client_run (app_client_config_of (pe_cfg E)) a (sync_range (pe_cfg E) (h_number hdr)) [i] (pg_shared p, pg_data p) = (r, s, dat) \<Longrightarrow>
     program_step E p (p\<lparr>pg_shared := s, pg_app := Suc (pg_app p), pg_data := dat\<rparr>)"
| finality_start:
    "pg_head p \<noteq> None \<Longrightarrow> sync_finality_enable (pe_cfg E) \<Longrightarrow> pg_finality p = FinalityNotStarted \<Longrightarrow>
     sf_get_genesis_hash R = Ok gen_hash \<Longrightarrow> sf_get_checkpoint (cs_db (pg_shared p)) = Ok checkpoint \<Longrightarrow>
     sync_start twox_128 R gen_hash checkpoint = Ok (n, vs) \<Longrightarrow> sf_get_block_hash R (n - 1) = Ok prev_hash \<Longrightarrow>
     program_step E p (p\<lparr>pg_finality := FinalityAt n prev_hash vs\<rparr>)"
| finality_block:
    "pg_head p = Some hdr \<Longrightarrow> pg_finality p = FinalityAt n prev_hash vs \<Longrightarrow> n \<noteq> h_number hdr + 1 \<Longrightarrow> node_headers_admitted key_numbered R \<Longrightarrow>
     sync_block (se_kate (pe_sub E)) (se_verify (pe_sub E)) R n prev_hash vs (cs_db (pg_shared p)) = (r, d) \<Longrightarrow>
     program_step E p (p\<lparr>pg_shared := (pg_shared p)\<lparr>cs_db := d\<rparr>,
       pg_finality := (case r of Ok (prev_hash', vs') \<Rightarrow> FinalityAt (n + 1) prev_hash' vs' | _ \<Rightarrow> FinalityEnded)\<rparr>)"
| finality_done:
    "pg_head p = Some hdr \<Longrightarrow> pg_finality p = FinalityAt n prev_hash vs \<Longrightarrow> n = h_number hdr + 1 \<Longrightarrow>
     program_step E p (p\<lparr>pg_shared := on_state (\<lambda>st. st\<lparr>st_finality_synced := True\<rparr>) (pg_shared p), pg_finality := FinalityEnded\<rparr>)"
| maintenance_block:
    "pg_head p \<noteq> None \<Longrightarrow> block \<in> set (cs_sent (pg_shared p)) \<Longrightarrow>
     maint_process_block feature_rocksdb M (startup_params (pe_cfg E)) (bv_block_num block) (pg_shared p) = (r, s) \<Longrightarrow>
     program_step E p (p\<lparr>pg_shared := s\<rparr>)"

section \<open>What a step of a client changes\<close>

text \<open>An operation that leaves the state and the channel of verified blocks alone.\<close>

definition state_frame :: "(('n, 'dim, 'lk) client_sys, 'a) op \<Rightarrow> bool" where
  "state_frame m \<longleftrightarrow> (\<forall>s. cs_state (snd (m s)) = cs_state s \<and> cs_sent (snd (m s)) = cs_sent s)"

definition sent_nums :: "('n, 'dim, 'lk) client_sys \<Rightarrow> u32 list" where
  "sent_nums s = map bv_block_num (cs_sent s)"

text \<open>At most one message is sent, for block \<open>n\<close>, and the state changes to one of the given states.\<close>

definition step_effect :: "u32 \<Rightarrow> state set \<Rightarrow> ('n, 'dim, 'lk) client_sys \<Rightarrow> ('n, 'dim, 'lk) client_sys \<Rightarrow> bool" where
  "step_effect n sts s s' \<longleftrightarrow> cs_state s' \<in> sts \<and> (sent_nums s' = sent_nums s \<or> sent_nums s' = sent_nums s @ [n])"

section \<open>The invariant\<close>

text \<open>The last verified header is not after the last finalized one.\<close>

definition verified_ok :: "sub_loop \<Rightarrow> bool" where
  "verified_ok s \<longleftrightarrow>
     (\<forall>l. range_last (st_header_verified (sl_state s)) = Some l \<longrightarrow>
        (\<exists>h. sl_last_finalized_block_header s = Some h \<and> l \<le> h_number h))"

definition verified_grows :: "sub_loop \<Rightarrow> sub_loop \<Rightarrow> bool" where
  "verified_grows s s' \<longleftrightarrow>
     sl_state s' = (sl_state s)\<lparr>st_header_verified := st_header_verified (sl_state s')\<rparr> \<and>
     range_grows (st_header_verified (sl_state s)) (st_header_verified (sl_state s'))"

text \<open>The blocks before the first finalized one, which the sync client works on, and the messages for the others.\<close>

definition in_range :: "u32 \<times> u32 \<Rightarrow> u32 \<Rightarrow> bool" where
  "in_range rng n \<longleftrightarrow> fst rng \<le> n \<and> n < snd rng"

definition old_blocks :: "('dim, 'lk) program_env \<Rightarrow> ('r, 'dim, 'lk) program \<Rightarrow> u32 \<Rightarrow> bool" where
  "old_blocks E p n \<longleftrightarrow> (case pg_head p of Some hdr \<Rightarrow> in_range (sync_range (pe_cfg E) (h_number hdr)) n | None \<Rightarrow> False)"

text \<open>The end of a range is before all blocks that are still to come.\<close>

definition range_before :: "block_range option \<Rightarrow> u32 set \<Rightarrow> bool" where
  "range_before r ns \<longleftrightarrow> (\<forall>l n. range_last r = Some l \<longrightarrow> n \<in> ns \<longrightarrow> l < n)"

definition range_upto :: "block_range option \<Rightarrow> nat \<Rightarrow> bool" where
  "range_upto r k \<longleftrightarrow> (\<forall>l. range_last r = Some l \<longrightarrow> unat l \<le> k)"

text \<open>The channel of verified blocks: the blocks of the block client and those of the sync client are each in order.\<close>

definition channel_inv :: "('dim, 'lk) program_env \<Rightarrow> u32 \<Rightarrow> ('r, 'dim, 'lk) program \<Rightarrow> bool" where
  "channel_inv E l0 p \<longleftrightarrow>
     sorted_wrt (<) (filter (\<lambda>n. \<not> old_blocks E p n) (sent_nums (pg_shared p))) \<and>
     (\<forall>n \<in> set (sent_nums (pg_shared p)). \<not> old_blocks E p n \<longrightarrow> unat n \<le> unat l0 + pg_blocks p) \<and>
     sorted_wrt (<) (filter (old_blocks E p) (sent_nums (pg_shared p)) @ pg_sync p) \<and>
     (\<forall>n \<in> set (pg_sync p). old_blocks E p n)"

definition ranges_inv :: "('dim, 'lk) program_env \<Rightarrow> u32 \<Rightarrow> ('r, 'dim, 'lk) program \<Rightarrow> bool" where
  "ranges_inv E l0 p \<longleftrightarrow>
     (let st = cs_state (pg_shared p); pending = drop (pg_app p) (sent_nums (pg_shared p))
      in range_upto (st_confidence_achieved st) (unat l0 + pg_blocks p) \<and>
         range_upto (st_data_verified st) (unat l0 + pg_blocks p) \<and>
         range_before (st_data_verified st) {n \<in> set pending. \<not> old_blocks E p n} \<and>
         range_before (st_sync_data_verified st) ({n \<in> set pending. old_blocks E p n} \<union> set (pg_sync p)) \<and>
         range_before (st_sync_header_verified st) (set (pg_sync p)) \<and>
         range_before (st_sync_confidence_achieved st) (set (pg_sync p)))"

text \<open>Before the clients start nothing has been sampled or sent.\<close>

definition idle :: "('r, 'dim, 'lk) program \<Rightarrow> bool" where
  "idle p \<longleftrightarrow> cs_sent (pg_shared p) = [] \<and> pg_sync p = [] \<and>
     (let st = cs_state (pg_shared p)
      in st_confidence_achieved st = None \<and> st_data_verified st = None \<and> st_sync_data_verified st = None \<and>
         st_sync_header_verified st = None \<and> st_sync_confidence_achieved st = None)"

definition program_inv :: "('dim, 'lk) program_env \<Rightarrow> u32 \<Rightarrow> ('r, 'dim, 'lk) program \<Rightarrow> bool" where
  "program_inv E l0 p \<longleftrightarrow>
     number_inv l0 (pg_newest p) (pg_sub p) \<and> verified_ok (sub_view p) \<and> st_latest (cs_state (pg_shared p)) \<le> pg_newest p \<and>
     entries_admitted key_numbered (cs_db (pg_shared p)) \<and>
     (pg_head p = None \<longrightarrow> idle p) \<and>
     (\<forall>n. old_blocks E p n \<longrightarrow> n \<le> l0) \<and>
     channel_inv E l0 p \<and> ranges_inv E l0 p"

text \<open>What every step after the start does to the state.\<close>

definition state_mono :: "state \<Rightarrow> state \<Rightarrow> bool" where
  "state_mono st st' \<longleftrightarrow>
     st_latest st \<le> st_latest st' \<and>
     range_grows (st_header_verified st) (st_header_verified st') \<and>
     range_grows (st_confidence_achieved st) (st_confidence_achieved st') \<and>
     range_grows (st_data_verified st) (st_data_verified st') \<and>
     range_grows (st_sync_header_verified st) (st_sync_header_verified st') \<and>
     range_grows (st_sync_confidence_achieved st) (st_sync_confidence_achieved st') \<and>
     range_grows (st_sync_data_verified st) (st_sync_data_verified st')"

text \<open>An example: the node pushes headers and justifies block 5.\<close>

definition sample_program_env :: "(u16 \<times> u16, (u32 \<times> u32) list) program_env" where
  "sample_program_env = \<lparr>pe_sub = sample_sub_env, pe_start = sample_startup_env, pe_cfg = runtime_config_default\<rparr>"

section \<open>Frames\<close>

lemma state_frame_bind: "state_frame m \<Longrightarrow> (\<And>x. state_frame (f x)) \<Longrightarrow> state_frame (op_bind m f)"
  by (auto simp: state_frame_def snd_op_bind split: res.splits)

lemma state_frame_ops [simp]:
  "state_frame (op_return x)" "state_frame (op_lift r)" "state_frame (on_net nm)" "state_frame (on_db dm)"
  "state_frame m \<Longrightarrow> state_frame (op_wrap_err msg m)"
  by (auto simp: state_frame_def op_return_def op_lift_def on_net_def on_db_def op_wrap_err_def split: prod.splits) (metis snd_conv)+

lemma state_frameD: "state_frame m \<Longrightarrow> m s = (r, s') \<Longrightarrow> cs_state s' = cs_state s \<and> cs_sent s' = cs_sent s"
  by (metis state_frame_def snd_conv)

lemma client_frames [simp]:
  "cs_state (processing_delay d e s) = cs_state s" "cs_sent (processing_delay d e s) = cs_sent s"
  "cs_state (cs_trigger_shutdown r s) = cs_state s" "cs_sent (cs_trigger_shutdown r s) = cs_sent s"
  "cs_state (send_verified alive msg s) = cs_state s"
  by (simp_all add: processing_delay_def cs_trigger_shutdown_def send_verified_def split: option.splits)

lemma sent_nums_send: "sent_nums (send_verified alive msg s) = sent_nums s \<or> sent_nums (send_verified alive msg s) = sent_nums s @ [bv_block_num msg]"
  by (simp add: send_verified_def sent_nums_def)

lemma block_verified_number:
  assumes "block_verified_try_from K hdr conf = Ok msg"
  shows "bv_block_num msg = h_number hdr"
proof (cases "extract_kate (h_extension hdr)")
  case None
  then show ?thesis using assms by (auto simp: block_verified_try_from_def)
next
  case (Some q)
  then obtain l where "extract_app_lookup K (h_extension hdr) = Ok l"
    using assms by (auto simp: block_verified_try_from_def Let_def and_then_eq_Ok split: prod.splits)
  with Some assms show ?thesis
    by (cases l) (auto simp: block_verified_try_from_def Let_def and_then_eq_Ok split: prod.splits if_splits)
qed

lemma light_store_effect:
  assumes "light_store_confidence hdr n s = (r, s')"
  shows "cs_state s' \<in> {cs_state s, confidence_achieved (h_number hdr) (cs_state s)} \<and> cs_sent s' = cs_sent s"
  using assms by (auto simp: light_store_confidence_def op_bind_def Let_def op_wrap_err_def on_db_def op_return_def split: prod.splits res.splits)

lemma light_process_block_effect:
  assumes "light_process_block K fetch positions_of cfg hdr s = (r, s')"
  shows "cs_state s' \<in> {cs_state s, confidence_achieved (h_number hdr) (cs_state s)} \<and> cs_sent s' = cs_sent s"
proof -
  have put: "cs_state t = st \<and> cs_sent t = cs_sent s1"
    if "op_bind (op_wrap_err m (on_db dm)) (\<lambda>_. op_return x) s1 = (r, t)" "cs_state s1 = st" for m dm x s1 t st
    using that state_frameD [OF state_frame_bind [of "op_wrap_err m (on_db dm)" "\<lambda>_. op_return x"]] by fastforce
  show ?thesis
    using assms
    by (auto simp: light_process_block_def Let_def op_bind_def [of "op_lift x" for x] op_bind_def [of "on_net x" for x] op_lift_def on_net_def
        dest!: put light_store_effect split: option.splits prod.splits res.splits if_splits)
qed

lemma send_effect:
  assumes "block_verified_try_from K hdr conf = Ok msg" "cs_state s1 \<in> sts" "cs_sent s1 = cs_sent s"
  shows "step_effect (h_number hdr) sts s (send_verified alive msg s1)"
  using assms sent_nums_send [of alive msg s1] block_verified_number [OF assms(1)] by (simp add: step_effect_def sent_nums_def)

lemma no_send_effect: "cs_state s' \<in> sts \<Longrightarrow> cs_sent s' = cs_sent s \<Longrightarrow> step_effect n sts s s'"
  by (simp add: step_effect_def sent_nums_def)

lemma light_client_effect:
  assumes "light_client_run K fetch cfg [i] s = (r, s')" "bi_event i = Ok (HeaderUpdate hdr t)"
  shows "step_effect (h_number hdr) {cs_state s, confidence_achieved (h_number hdr) (cs_state s)} s s'"
proof -
  obtain x s2 where p: "light_process_block K fetch (bi_positions i) cfg hdr (processing_delay (lc_block_processing_delay cfg) (bi_elapsed i) s) = (x, s2)"
    by fastforce
  note e = light_process_block_effect [OF p, simplified client_frames]
  show ?thesis
  proof (cases x)
    case (Ok conf)
    show ?thesis
      using assms p e Ok
      by (cases "block_verified_try_from K hdr conf") (auto simp: Let_def intro: send_effect no_send_effect)
  qed (use assms p e in \<open>auto simp: Let_def intro!: no_send_effect\<close>)
qed

lemma state_frame_snd:
  "state_frame m \<Longrightarrow> cs_state (snd (m s)) = cs_state s" "state_frame m \<Longrightarrow> cs_sent (snd (m s)) = cs_sent s"
  by (simp_all add: state_frame_def)

lemma state_frame_after:
  "state_frame m \<Longrightarrow> cs_state (snd (m (cs_metric ms s))) = cs_state s" "state_frame m \<Longrightarrow> cs_sent (snd (m (cs_metric ms s))) = cs_sent s"
  by (simp_all add: state_frame_def)

lemma fat_process_block_frame: "state_frame (fat_process_block K F cfg hdr prt duration)"
proof -
  have up: "state_frame (op_bind (op_wrap_err m (on_db dm)) (\<lambda>_. op_bind (on_net nm) (\<lambda>x s1.
      if b x then on_net (g x) (cs_metric ms s1) else (Ok (), cs_metric ms s1))))" for m dm nm b g ms
  proof (intro state_frame_bind)
    show "state_frame (\<lambda>s1. if b x then on_net (g x) (cs_metric ms s1) else (Ok (), cs_metric ms s1))" for x
      by (auto simp: state_frame_def on_net_def split: prod.splits)
  qed simp_all
  show ?thesis
    unfolding state_frame_def fat_process_block_def Let_def
    by (auto split: option.splits intro!: state_frame_after up)
qed

lemma fat_client_effect:
  assumes "fat_client_run K F cfg prt duration [i] s = (r, s')" "bi_event i = Ok (HeaderUpdate hdr t)"
  shows "step_effect (h_number hdr) {cs_state s} s s'"
proof -
  obtain x s2 where p: "fat_process_block K F cfg hdr prt duration (processing_delay (fcc_block_processing_delay cfg) (bi_elapsed i) s) = (x, s2)"
    by fastforce
  note e = state_frameD [OF fat_process_block_frame p, simplified client_frames]
  show ?thesis
  proof (cases x)
    case (Ok u)
    show ?thesis
      using assms p e Ok
      by (cases "block_verified_try_from K hdr None") (auto simp: Let_def intro: send_effect no_send_effect)
  qed (use assms p e in \<open>auto simp: Let_def intro!: no_send_effect\<close>)
qed

lemma sync_process_block_effect:
  assumes "sync_process_block K fetch positions_of alive cfg hdr hash s = (r, s')"
  shows "step_effect (h_number hdr) {cs_state s} s s'"
proof -
  have store: "step_effect (h_number hdr) {cs_state s1} s1 t"
    if "op_bind (on_db dm) (\<lambda>_. op_bind (op_lift (wrap_err m (block_verified_try_from K hdr conf))) (\<lambda>msg s. (Ok (), send_verified alive msg s))) s1 = (r, t)"
    for dm m conf s1 t
    using that by (auto simp: op_bind_def op_lift_def on_db_def res_simps split: prod.splits res.splits intro: send_effect no_send_effect)
  show ?thesis
    using assms
    by (auto simp: sync_process_block_def Let_def op_return_def op_bind_def [of "op_lift x" for x] op_bind_def [of "on_net x" for x] op_lift_def on_net_def
        dest!: store intro: no_send_effect split: option.splits prod.splits res.splits if_splits)
      (auto simp: step_effect_def sent_nums_def)
qed

lemma get_header_frame: "state_frame (sc_get_header_by_block_number K rpc_header n)"
proof -
  have fetch: "state_frame (op_bind (op_wrap_err m1 (on_net nm)) (\<lambda>(hdr, hash).
      op_bind (op_wrap_err m2 (on_db (dm hdr))) (\<lambda>_. op_return (hdr, hash))))" for m1 nm m2 dm
    by (auto intro!: state_frame_bind split: prod.splits)
  show ?thesis
    unfolding state_frame_def sc_get_header_by_block_number_def
    by (auto split: res.splits option.splits intro!: state_frame_snd fetch)
qed

lemma get_header_number:
  assumes "headers_admitted key_numbered rpc_header" "entries_admitted key_numbered (cs_db s)"
    and "sc_get_header_by_block_number K rpc_header n s = (Ok (hdr, hash), s')"
  shows "h_number hdr = n"
proof (cases "db_get_header (cs_db s) n")
  case (Ok x)
  show ?thesis
  proof (cases x)
    case (Some h)
    then have "db_entries (cs_db s) (BlockHeader n) = Some (HeaderValue h)"
      using Ok by (auto simp: db_get_header_def db_get_def res_simps split: option.splits db_value.splits)
    then show ?thesis using assms Ok Some
      by (auto simp: sc_get_header_by_block_number_def entries_admitted_def res_simps wrap_err_def dest!: spec [of _ "BlockHeader n"])
  next
    case None
    then show ?thesis using assms Ok
      by (fastforce simp: sc_get_header_by_block_number_def headers_admitted_def res_simps wrap_err_def)
  qed
qed (use assms in \<open>auto simp: sc_get_header_by_block_number_def wrap_err_def\<close>)

lemma sync_one_effect:
  assumes "headers_admitted key_numbered (sy_rpc_header S)" "entries_admitted key_numbered (cs_db s)" "sync_one S n s = (r, s')"
  shows "step_effect n {cs_state s, sync_header_seen n (cs_state s), sync_confidence_achieved n (sync_header_seen n (cs_state s))} s s'"
proof (cases "sc_is_confidence_stored n (cs_db s) = Ok False")
  case True
  obtain x s1 where h: "sc_get_header_by_block_number (sy_kate S) (sy_rpc_header S) n s = (x, s1)" by fastforce
  note f = state_frameD [OF get_header_frame h]
  show ?thesis
  proof (cases x)
    case (Ok y)
    obtain hdr hash where y: "y = (hdr, hash)" by fastforce
    then have n: "h_number hdr = n" using get_header_number assms(1,2) h Ok by blast
    obtain z s2 where p: "sync_process_block (sy_kate S) (sy_fetch S) (sy_positions S n) (sy_receiver_alive S n) (sy_config S) hdr hash
        (on_state (sync_header_seen n) s1) = (z, s2)" by fastforce
    have e: "step_effect n {sync_header_seen n (cs_state s)} s s2"
      using sync_process_block_effect [OF p] f n by (simp add: step_effect_def sent_nums_def)
    have "s' = s2 \<or> s' = on_state (sync_confidence_achieved n) s2"
      using assms(3) True h Ok y p by (cases z) (auto simp: sync_one_def)
    with e show ?thesis by (auto simp: step_effect_def sent_nums_def)
  qed (use assms(3) True h f in \<open>auto simp: sync_one_def intro: no_send_effect\<close>)
qed (use assms(3) in \<open>auto simp: sync_one_def intro: no_send_effect split: res.splits bool.splits\<close>)

lemma app_process_block_frame: "state_frame (app_process_block E cfg a block)"
  unfolding app_process_block_def Let_def
  by (auto intro!: state_frame_bind split: option.splits prod.splits)

lemma app_client_effect:
  assumes "app_client_run cfg a srange [i] (s, dat) = (r, s', dat')" "ai_block i = Ok block"
  shows "cs_state s' \<in> {cs_state s, set_data_verified_state srange (bv_block_num block) (cs_state s)} \<and> cs_sent s' = cs_sent s"
  using assms
  by (auto simp: Let_def dest!: state_frameD [OF app_process_block_frame] split: option.splits if_splits prod.splits res.splits)

lemma maint_process_block_frame: "state_frame (maint_process_block feature_rocksdb M cfg n)"
proof -
  have flush: "state_frame (maint_flush M cfg n)"
    unfolding maint_flush_def
    by (intro state_frame_bind) (auto simp: state_frame_def log_err_def op_lift_def op_return_def split: res.splits)
  have prune: "state_frame (maint_prune feature_rocksdb M cfg n)"
    unfolding maint_prune_def by (auto intro!: state_frame_bind)
  have report: "state_frame (\<lambda>s. (Ok (), cs_metric (ms x) s))" for ms x
    by (simp add: state_frame_def)
  show ?thesis
    unfolding maint_process_block_def Let_def
    by (auto intro!: state_frame_bind flush prune report)
qed

section \<open>The subscription loop\<close>

interpretation numbered: db_contract key_numbered
  by unfold_locales simp_all

lemma range_grows_refl [simp]: "range_grows r r"
  by (cases r) (auto simp: range_grows_def range_first_def range_last_def)

lemma range_grows_trans: "range_grows a b \<Longrightarrow> range_grows b c \<Longrightarrow> range_grows a c"
  by (auto simp: range_grows_def split: option.splits)

lemma finalize_verified:
  assumes "number_inv l0 m s" "verified_ok s" "pos < length (sl_unverified_headers s)"
    and "finalize_header E j pos synced s = Ok (synced', s')"
  shows "verified_ok s' \<and> verified_grows s s'"
  using assms(4)
proof (rule finalize_headerE)
  fix hdr :: header and t vs d s3
  assume at: "sl_unverified_headers s ! pos = (hdr, t, vs)"
    and s3: "(case sl_last_finalized_block_header s of
        None \<Rightarrow> Ok (s\<lparr>sl_unverified_headers := swap_remove pos (sl_unverified_headers s), sl_db := d\<rparr>)
      | Some l \<Rightarrow> send_skipped_all E (range_u32 (h_number l + 1) (h_number hdr))
          (s\<lparr>sl_unverified_headers := swap_remove pos (sl_unverified_headers s), sl_db := d\<rparr>)) = Ok s3"
    and s': "s' = s3\<lparr>sl_last_finalized_block_header := Some hdr,
         sl_state := (sl_state s3)\<lparr>st_header_verified :=
           range_set (st_header_verified (sl_state s3)) (h_number hdr)\<rparr>,
         sl_events := sl_events s3 @ [HeaderUpdate hdr t]\<rparr>"
  obtain l where l: "sl_last_finalized_block_header s = Some l" "h_number l < h_number hdr"
    using assms(1,3) at nth_mem [OF assms(3)] by (force simp: number_inv_def unverified_numbers_def)
  have st: "sl_state s3 = sl_state s"
    using s3 l(1) by (auto dest!: send_skipped_all_frame same_but_headers_fields)
  have "range_last (st_header_verified (sl_state s)) \<noteq> None \<longrightarrow>
      the (range_last (st_header_verified (sl_state s))) \<le> h_number hdr"
    using assms(2) l by (auto simp: verified_ok_def)
  then show ?thesis
    using range_grows_set by (auto simp: verified_ok_def verified_grows_def s' st)
qed

lemma verified_grows_trans: "verified_grows s1 s2 \<Longrightarrow> verified_grows s2 s3 \<Longrightarrow> verified_grows s1 s3"
  unfolding verified_grows_def using range_grows_trans by (cases "sl_state s1") (metis (no_types, lifting) state.update_convs(3))

lemma verify_loop_verified:
  "rpc_numbers_ok (se_rpc E) \<Longrightarrow> number_inv l0 m s \<Longrightarrow> verified_ok s \<Longrightarrow> verify_loop E synced js s = Ok s' \<Longrightarrow>
     verified_ok s' \<and> verified_grows s s'"
proof (induction js arbitrary: synced s)
  case Nil
  then show ?case by (auto simp: verified_ok_def verified_grows_def)
next
  case (Cons j js)
  show ?case
  proof (cases "find_position (\<lambda>(h, _, _). cm_target_hash (gj_commit j) = hash_of (se_kate E) h) (sl_unverified_headers s)")
    case None
    with Cons.prems show ?thesis by (auto simp: verified_ok_def verified_grows_def)
  next
    case (Some pos)
    with Cons.prems obtain f s1 where s1: "finalize_header E j pos synced s = Ok (f, s1)" "verify_loop E f js s1 = Ok s'"
      by (auto simp: res_simps)
    have pos: "pos < length (sl_unverified_headers s)" using find_hash [OF Some] by simp
    from finalize_verified [OF Cons.prems(2,3) pos s1(1)]
      Cons.IH [OF Cons.prems(1) finalize_number_inv [OF Cons.prems(1,2) pos s1(1)] _ s1(2)]
    show ?thesis using verified_grows_trans by blast
  qed
qed

lemma handle_verified:
  assumes R: "rpc_numbers_ok (se_rpc E)" and inv: "number_inv l0 m s" "verified_ok s"
    and sub: "handle_new_subscription E now sub s = Ok s'" "\<And>h. sub = HeaderSub h \<Longrightarrow> m < h_number h"
  shows "verified_ok s' \<and> range_grows (st_header_verified (sl_state s)) (st_header_verified (sl_state s')) \<and>
    sl_state s' = (sl_state s)\<lparr>st_latest := (case sub of HeaderSub h \<Rightarrow> h_number h | JustificationSub _ \<Rightarrow> st_latest (sl_state s)),
      st_header_verified := st_header_verified (sl_state s')\<rparr>"
proof (cases sub)
  case (HeaderSub h)
  obtain s1 where s1: "note_valset_change (se_kate E) h (push_header h now s) = Ok s1" "verify_loop E False (rev (sl_justifications s1)) s1 = Ok s'"
    using sub(1) HeaderSub by (auto simp: handle_new_subscription_def verify_and_output_block_headers_def res_simps)
  have st: "sl_state s1 = (sl_state s)\<lparr>st_latest := h_number h\<rparr>" "sl_last_finalized_block_header s1 = sl_last_finalized_block_header s"
    using s1(1) by (auto simp: note_valset_change_def push_header_def Let_def split: list.splits option.splits)
  have "verified_ok s1" using inv(2) st by (simp add: verified_ok_def)
  from verify_loop_verified [OF R push_header_number_inv [OF inv(1) sub(2) [OF HeaderSub] s1(1)] this s1(2)] st(1)
  show ?thesis by (simp add: HeaderSub verified_grows_def)
next
  case (JustificationSub j)
  let ?s1 = "s\<lparr>sl_justifications := sl_justifications s @ [j]\<rparr>"
  have "verify_loop E False (rev (sl_justifications ?s1)) ?s1 = Ok s'" "verified_ok ?s1"
    using sub(1) inv(2) JustificationSub
    by (simp_all add: handle_new_subscription_def verify_and_output_block_headers_def verified_ok_def del: verify_loop.simps)
  from verify_loop_verified [OF R push_justification_number_inv [OF inv(1)] this(2,1)]
  show ?thesis by (simp add: JustificationSub verified_grows_def)
qed

section \<open>Every step keeps the invariant\<close>

lemma event_number:
  assumes "number_inv l0 m s" "k < length (sl_events s)"
  shows "unat (h_number (ev_header (sl_events s ! k))) = unat l0 + Suc k"
proof -
  obtain h :: header where h: "map (\<lambda>e. h_number (ev_header e)) (sl_events s) = blocks_after l0 (h_number h)"
    using assms(1) unfolding number_inv_def sent_numbers_def by blast
  have len: "k < unat (h_number h) - unat l0" using assms(2) arg_cong [OF h, of length] by (simp add: blocks_after_def del: upt_Suc)
  have "h_number (ev_header (sl_events s ! k)) = blocks_after l0 (h_number h) ! k" using assms(2) h by (metis nth_map)
  also have "\<dots> = word_of_nat (unat l0 + Suc k)" using len by (simp add: blocks_after_def del: upt_Suc)
  finally have n: "h_number (ev_header (sl_events s ! k)) = word_of_nat (unat l0 + Suc k)" .
  have "unat l0 + Suc k < 4294967296" using len unat_u32_less [of "h_number h"] by linarith
  then show ?thesis unfolding n by (rule unat_u32_of_nat)
qed

lemma old_blocks_cong: "pg_head p' = pg_head p \<Longrightarrow> old_blocks E p' = old_blocks E p"
  by (simp add: old_blocks_def fun_eq_iff)

lemma sub_view_cong:
  "pg_sub p' = pg_sub p \<Longrightarrow> st_header_verified (cs_state (pg_shared p')) = st_header_verified (cs_state (pg_shared p)) \<Longrightarrow>
     verified_ok (sub_view p') = verified_ok (sub_view p)"
  by (simp add: verified_ok_def sub_view_def)

lemma pending_effect: "step_effect n sts s s' \<Longrightarrow> set (drop k (sent_nums s')) \<subseteq> set (drop k (sent_nums s)) \<union> {n}"
  by (auto simp: step_effect_def dest!: in_set_dropD [of _ _ "[n]"])

lemma sorted_filter_nth:
  assumes "sorted_wrt (<) (filter P xs @ ys)" "k < length xs" "P (xs ! k)" "m \<in> {m \<in> set (drop (Suc k) xs). P m} \<union> set ys"
  shows "xs ! k < m"
proof -
  have "filter P xs = filter P (take k xs) @ xs ! k # filter P (drop (Suc k) xs)"
    using assms(2,3) by (subst id_take_nth_drop [OF assms(2)]) simp
  then show ?thesis using assms(1,4) by (auto simp: sorted_wrt_append)
qed

lemma block_client_step:
  assumes inv: "program_inv E l0 p" and head: "pg_head p \<noteq> None" and k: "pg_blocks p < length (sl_events (pg_sub p))"
    and n: "n = h_number (ev_header (sl_events (pg_sub p) ! pg_blocks p))"
    and eff: "step_effect n {cs_state (pg_shared p), confidence_achieved n (cs_state (pg_shared p))} (pg_shared p) s"
    and db: "entries_admitted key_numbered (cs_db s)"
  shows "program_inv E l0 (p\<lparr>pg_shared := s, pg_blocks := Suc (pg_blocks p)\<rparr>) \<and> state_mono (cs_state (pg_shared p)) (cs_state s)"
proof -
  let ?p = "p\<lparr>pg_shared := s, pg_blocks := Suc (pg_blocks p)\<rparr>"
  have un: "unat n = unat l0 + Suc (pg_blocks p)" using event_number inv k n by (auto simp: program_inv_def)
  have old: "old_blocks E ?p = old_blocks E p" by (rule old_blocks_cong) simp
  have new: "\<not> old_blocks E p n" using inv un by (auto simp: program_inv_def word_le_nat_alt)
  have ch: "channel_inv E l0 p" and rg: "ranges_inv E l0 p" using inv by (simp_all add: program_inv_def)
  have le: "m < n" if "unat m \<le> unat l0 + pg_blocks p" for m using that un by (simp add: word_less_nat_alt)
  have ch': "channel_inv E l0 ?p"
    using eff ch new le un unfolding channel_inv_def old step_effect_def
    by (auto simp: sorted_wrt_append)
  have st: "cs_state s = cs_state (pg_shared p) \<or> cs_state s = confidence_achieved n (cs_state (pg_shared p))" using eff by (auto simp: step_effect_def)
  note pend = pending_effect [OF eff, of "pg_app p"]
  have rg': "ranges_inv E l0 ?p"
    using st rg new le un pend unfolding ranges_inv_def old Let_def
    by (auto simp: confidence_achieved_def range_upto_def range_before_def subset_iff)
  have "range_grows (st_confidence_achieved (cs_state (pg_shared p))) (range_set (st_confidence_achieved (cs_state (pg_shared p))) n)"
    using rg le by (intro range_grows_set) (auto simp: ranges_inv_def range_upto_def Let_def intro: less_imp_le)
  then have "state_mono (cs_state (pg_shared p)) (cs_state s)" using st by (auto simp: state_mono_def confidence_achieved_def)
  moreover have "program_inv E l0 ?p"
    using inv head db ch' rg' st old sub_view_cong [of ?p p] by (auto simp: program_inv_def confidence_achieved_def)
  ultimately show ?thesis by simp
qed

lemma range_before_mono: "range_before r ns \<Longrightarrow> ns' \<subseteq> ns \<Longrightarrow> range_before r ns'"
  by (auto simp: range_before_def)

lemma range_before_set: "(\<And>m. m \<in> ns \<Longrightarrow> n < m) \<Longrightarrow> range_before (range_set r n) ns"
  by (auto simp: range_before_def)

lemma range_before_grows: "range_before r ns \<Longrightarrow> n \<in> ns \<Longrightarrow> range_grows r (range_set r n)"
  by (intro range_grows_set) (auto simp: range_before_def intro: less_imp_le)

lemma sync_client_step:
  assumes inv: "program_inv E l0 p" and sync: "pg_sync p = n # ns"
    and eff: "step_effect n {cs_state (pg_shared p), sync_header_seen n (cs_state (pg_shared p)),
      sync_confidence_achieved n (sync_header_seen n (cs_state (pg_shared p)))} (pg_shared p) s"
    and db: "entries_admitted key_numbered (cs_db s)"
  shows "program_inv E l0 (p\<lparr>pg_shared := s, pg_sync := ns\<rparr>) \<and> state_mono (cs_state (pg_shared p)) (cs_state s)"
proof -
  let ?p = "p\<lparr>pg_shared := s, pg_sync := ns\<rparr>" and ?st = "cs_state (pg_shared p)"
  have head: "pg_head p \<noteq> None" using inv sync by (auto simp: program_inv_def idle_def)
  have old: "old_blocks E ?p = old_blocks E p" by (rule old_blocks_cong) simp
  have ch: "channel_inv E l0 p" and rg: "ranges_inv E l0 p" using inv by (simp_all add: program_inv_def)
  have n: "old_blocks E p n" "\<And>m. m \<in> set ns \<Longrightarrow> n < m" using ch sync by (auto simp: channel_inv_def sorted_wrt_append)
  have ch': "channel_inv E l0 ?p"
    using eff ch n sync unfolding channel_inv_def old step_effect_def by (auto simp: sorted_wrt_append)
  have st: "cs_state s \<in> {?st, sync_header_seen n ?st, sync_confidence_achieved n (sync_header_seen n ?st)}" using eff by (simp add: step_effect_def)
  note pend = pending_effect [OF eff, of "pg_app p"]
  have rg1: "range_before (st_sync_header_verified ?st) (set (n # ns))" "range_before (st_sync_confidence_achieved ?st) (set (n # ns))"
    using rg sync by (auto simp: ranges_inv_def Let_def)
  have rg': "ranges_inv E l0 ?p"
    unfolding ranges_inv_def old Let_def
  proof (intro conjI)
    show "range_before (st_sync_header_verified (cs_state (pg_shared ?p))) (set (pg_sync ?p))"
      using st rg1(1) n(2) by (auto simp: sync_header_seen_def sync_confidence_achieved_def intro!: range_before_set elim: range_before_mono)
    show "range_before (st_sync_confidence_achieved (cs_state (pg_shared ?p))) (set (pg_sync ?p))"
      using st rg1(2) n(2) by (auto simp: sync_header_seen_def sync_confidence_achieved_def intro!: range_before_set elim: range_before_mono)
    show "range_before (st_sync_data_verified (cs_state (pg_shared ?p)))
        ({m \<in> set (drop (pg_app ?p) (sent_nums (pg_shared ?p))). old_blocks E p m} \<union> set (pg_sync ?p))"
      using st rg sync pend
      by (auto simp: sync_header_seen_def sync_confidence_achieved_def ranges_inv_def Let_def elim!: range_before_mono)
    show "range_before (st_data_verified (cs_state (pg_shared ?p)))
        {m \<in> set (drop (pg_app ?p) (sent_nums (pg_shared ?p))). \<not> old_blocks E p m}"
      using st rg n(1) pend
      by (auto simp: sync_header_seen_def sync_confidence_achieved_def ranges_inv_def Let_def elim!: range_before_mono)
  qed (use st rg in \<open>auto simp: sync_header_seen_def sync_confidence_achieved_def ranges_inv_def Let_def\<close>)
  have "state_mono ?st (cs_state s)"
    using st range_before_grows [OF rg1(1), of n] range_before_grows [OF rg1(2), of n]
    by (auto simp: state_mono_def sync_header_seen_def sync_confidence_achieved_def)
  moreover have "program_inv E l0 ?p"
    using inv head db ch' rg' st old sub_view_cong [of ?p p]
    by (auto simp: program_inv_def sync_header_seen_def sync_confidence_achieved_def)
  ultimately show ?thesis by simp
qed

lemma set_data_verified_fields:
  "st_sync_data_verified (set_data_verified_state rng n st) = (if in_range rng n then range_set (st_sync_data_verified st) n else st_sync_data_verified st)"
  "st_data_verified (set_data_verified_state rng n st) = (if in_range rng n then st_data_verified st else range_set (st_data_verified st) n)"
  "st_latest (set_data_verified_state rng n st) = st_latest st" "st_header_verified (set_data_verified_state rng n st) = st_header_verified st"
  "st_confidence_achieved (set_data_verified_state rng n st) = st_confidence_achieved st"
  "st_sync_header_verified (set_data_verified_state rng n st) = st_sync_header_verified st"
  "st_sync_confidence_achieved (set_data_verified_state rng n st) = st_sync_confidence_achieved st"
  by (auto simp: set_data_verified_state_def Let_def in_range_def)

lemma app_client_step:
  assumes inv: "program_inv E l0 p" and head: "pg_head p = Some hdr" and k: "pg_app p < length (cs_sent (pg_shared p))"
    and n: "n = bv_block_num (cs_sent (pg_shared p) ! pg_app p)"
    and st: "cs_state s \<in> {cs_state (pg_shared p), set_data_verified_state (sync_range (pe_cfg E) (h_number hdr)) n (cs_state (pg_shared p))}"
    and sent: "cs_sent s = cs_sent (pg_shared p)" and db: "entries_admitted key_numbered (cs_db s)"
  shows "program_inv E l0 (p\<lparr>pg_shared := s, pg_app := Suc (pg_app p), pg_data := dat\<rparr>) \<and> state_mono (cs_state (pg_shared p)) (cs_state s)"
proof -
  let ?p = "p\<lparr>pg_shared := s, pg_app := Suc (pg_app p), pg_data := dat\<rparr>" and ?st = "cs_state (pg_shared p)"
  let ?nums = "sent_nums (pg_shared p)" and ?old = "old_blocks E p"
  have nums: "sent_nums s = ?nums" using sent by (simp add: sent_nums_def)
  have old: "old_blocks E ?p = ?old" by (rule old_blocks_cong) simp
  have ch: "channel_inv E l0 p" and rg: "ranges_inv E l0 p" using inv by (simp_all add: program_inv_def)
  have kn: "pg_app p < length ?nums" "?nums ! pg_app p = n" using k n by (simp_all add: sent_nums_def)
  have nin: "n \<in> set (drop (pg_app p) ?nums)" "n \<in> set ?nums" using kn by (auto simp: in_set_conv_nth intro: exI [of _ 0])
  have srt: "sorted_wrt (<) (filter ?old ?nums @ pg_sync p)" "sorted_wrt (<) (filter (\<lambda>m. \<not> ?old m) ?nums @ [])"
    using ch by (simp_all add: channel_inv_def)
  have nxt: "m \<in> {m \<in> set (drop (Suc (pg_app p)) ?nums). ?old m} \<union> set (pg_sync p) \<Longrightarrow> n < m" if "?old n" for m
    using sorted_filter_nth [OF srt(1) kn(1)] kn(2) that by simp
  have nxt': "m \<in> {m \<in> set (drop (Suc (pg_app p)) ?nums). \<not> ?old m} \<Longrightarrow> n < m" if "\<not> ?old n" for m
    using sorted_filter_nth [OF srt(2) kn(1)] kn(2) that by simp
  have rest: "set (drop (Suc (pg_app p)) ?nums) \<subseteq> set (drop (pg_app p) ?nums)" by (rule set_drop_subset_set_drop) simp
  have old_n: "?old n \<longleftrightarrow> in_range (sync_range (pe_cfg E) (h_number hdr)) n"
    using head by (simp add: old_blocks_def)
  let ?sdv = "st_sync_data_verified" and ?dv = "st_data_verified"
  have new: "?sdv (cs_state s) = (if ?old n then range_set (?sdv ?st) n else ?sdv ?st) \<and> ?dv (cs_state s) = (if ?old n then ?dv ?st else range_set (?dv ?st) n)
      \<or> ?sdv (cs_state s) = ?sdv ?st \<and> ?dv (cs_state s) = ?dv ?st"
    using st old_n by (auto simp: set_data_verified_fields)
  have same: "st_latest (cs_state s) = st_latest ?st" "st_header_verified (cs_state s) = st_header_verified ?st"
    "st_confidence_achieved (cs_state s) = st_confidence_achieved ?st" "st_sync_header_verified (cs_state s) = st_sync_header_verified ?st"
    "st_sync_confidence_achieved (cs_state s) = st_sync_confidence_achieved ?st"
    using st by (auto simp: set_data_verified_fields)
  have before: "range_before (?sdv ?st) ({m \<in> set (drop (pg_app p) ?nums). ?old m} \<union> set (pg_sync p))"
    "range_before (?dv ?st) {m \<in> set (drop (pg_app p) ?nums). \<not> ?old m}" "range_upto (?dv ?st) (unat l0 + pg_blocks p)"
    using rg by (simp_all add: ranges_inv_def Let_def)
  have upto: "\<not> ?old n \<longrightarrow> unat n \<le> unat l0 + pg_blocks p" using ch nin(2) by (auto simp: channel_inv_def)
  have fewer: "range_before (?sdv ?st) ({m \<in> set (drop (Suc (pg_app p)) ?nums). ?old m} \<union> set (pg_sync p))"
    "range_before (?dv ?st) {m \<in> set (drop (Suc (pg_app p)) ?nums). \<not> ?old m}"
    using rest by (auto intro: range_before_mono [OF before(1)] range_before_mono [OF before(2)])
  have ahead: "range_before (range_set r n) ({m \<in> set (drop (Suc (pg_app p)) ?nums). ?old m} \<union> set (pg_sync p))" if "?old n" for r
    by (rule range_before_set) (rule nxt [OF that])
  have ahead': "range_before (range_set r n) {m \<in> set (drop (Suc (pg_app p)) ?nums). \<not> ?old m}" if "\<not> ?old n" for r
    by (rule range_before_set) (rule nxt' [OF that])
  have "range_before (?sdv (cs_state s)) ({m \<in> set (drop (Suc (pg_app p)) ?nums). ?old m} \<union> set (pg_sync p))"
    using new fewer(1) ahead by (auto split: if_splits)
  moreover have "range_before (?dv (cs_state s)) {m \<in> set (drop (Suc (pg_app p)) ?nums). \<not> ?old m}"
    using new fewer(2) ahead' by (auto split: if_splits)
  moreover have "range_upto (?dv (cs_state s)) (unat l0 + pg_blocks p)"
    using new before(3) upto by (auto simp: range_upto_def split: if_splits)
  ultimately have rg': "ranges_inv E l0 ?p"
    using rg same unfolding ranges_inv_def old Let_def by (simp add: nums)
  have "state_mono ?st (cs_state s)"
    using new same range_before_grows [OF before(1), of n] range_before_grows [OF before(2), of n] nin
    by (auto simp: state_mono_def split: if_splits)
  moreover have "program_inv E l0 ?p"
    using inv head db rg' same ch nums old sub_view_cong [of ?p p] by (simp add: program_inv_def channel_inv_def)
  ultimately show ?thesis by simp
qed

text \<open>Steps that change neither the ranges nor the channel.\<close>

lemma quiet_step:
  assumes inv: "program_inv E l0 p" and db: "entries_admitted key_numbered (cs_db s)" and sent: "cs_sent s = cs_sent (pg_shared p)"
    and st: "cs_state s = (cs_state (pg_shared p))\<lparr>st_synced := y, st_finality_synced := f\<rparr>"
  shows "program_inv E l0 (p\<lparr>pg_shared := s, pg_finality := t\<rparr>) \<and> state_mono (cs_state (pg_shared p)) (cs_state s)"
proof -
  let ?p = "p\<lparr>pg_shared := s, pg_finality := t\<rparr>"
  have frame: "old_blocks E ?p = old_blocks E p" "sent_nums s = sent_nums (pg_shared p)" "verified_ok (sub_view ?p) = verified_ok (sub_view p)"
    using sent st by (simp_all add: sent_nums_def sub_view_def verified_ok_def old_blocks_def fun_eq_iff)
  have fields: "st_latest (cs_state s) = st_latest (cs_state (pg_shared p))"
    "st_header_verified (cs_state s) = st_header_verified (cs_state (pg_shared p))"
    "st_confidence_achieved (cs_state s) = st_confidence_achieved (cs_state (pg_shared p))"
    "st_data_verified (cs_state s) = st_data_verified (cs_state (pg_shared p))"
    "st_sync_data_verified (cs_state s) = st_sync_data_verified (cs_state (pg_shared p))"
    "st_sync_header_verified (cs_state s) = st_sync_header_verified (cs_state (pg_shared p))"
    "st_sync_confidence_achieved (cs_state s) = st_sync_confidence_achieved (cs_state (pg_shared p))"
    by (simp_all add: st)
  show ?thesis
    using inv db
    by (simp add: program_inv_def channel_inv_def ranges_inv_def idle_def Let_def state_mono_def frame fields sent)
qed

lemma subscription_step:
  assumes inv: "program_inv E l0 p" and R: "rpc_numbers_ok (se_rpc SE)"
    and sub: "handle_new_subscription SE now sub (sub_view p) = Ok s" "\<And>h. sub = HeaderSub h \<Longrightarrow> pg_newest p < h_number h \<and> m = h_number h"
      "\<And>j. sub = JustificationSub j \<Longrightarrow> m = pg_newest p"
  shows "program_inv E l0 (sub_done s (p\<lparr>pg_newest := m\<rparr>)) \<and> state_mono (cs_state (pg_shared p)) (sl_state s)"
proof -
  let ?p = "sub_done s (p\<lparr>pg_newest := m\<rparr>)" and ?st = "cs_state (pg_shared p)"
  have view_state: "sl_state (sub_view p) = ?st" by (simp add: sub_view_def)
  have view: "number_inv l0 (pg_newest p) (sub_view p)" "verified_ok (sub_view p)" "entries_admitted key_numbered (sl_db (sub_view p))"
    using inv by (simp_all add: program_inv_def sub_view_def number_inv_def sub_numbers)
  have st: "verified_ok s" "range_grows (st_header_verified ?st) (st_header_verified (sl_state s))"
    "sl_state s = ?st\<lparr>st_latest := (case sub of HeaderSub h \<Rightarrow> h_number h | JustificationSub _ \<Rightarrow> st_latest ?st),
      st_header_verified := st_header_verified (sl_state s)\<rparr>"
    using handle_verified [OF R view(1,2) sub(1), unfolded view_state] sub(2) by blast+
  have latest: "st_latest ?st \<le> pg_newest p" using inv by (simp add: program_inv_def)
  have nums: "number_inv l0 m s"
    using handle_number_inv [OF R view(1) sub(1)] sub(2,3) by (cases sub) auto
  have new: "st_latest ?st \<le> st_latest (sl_state s) \<and> st_latest (sl_state s) \<le> m"
    using sub(2,3) latest by (cases sub) (subst st(3), auto)+
  have ranges: "st_confidence_achieved (sl_state s) = st_confidence_achieved ?st" "st_data_verified (sl_state s) = st_data_verified ?st"
    "st_sync_data_verified (sl_state s) = st_sync_data_verified ?st" "st_sync_header_verified (sl_state s) = st_sync_header_verified ?st"
    "st_sync_confidence_achieved (sl_state s) = st_sync_confidence_achieved ?st"
    by (subst st(3), simp)+
  have frame: "old_blocks E ?p = old_blocks E p" "sent_nums (pg_shared ?p) = sent_nums (pg_shared p)" "pg_sub ?p = s" "cs_state (pg_shared ?p) = sl_state s"
    "pg_blocks ?p = pg_blocks p" "pg_app ?p = pg_app p" "pg_sync ?p = pg_sync p" "pg_head ?p = pg_head p" "pg_newest ?p = m"
    "cs_sent (pg_shared ?p) = cs_sent (pg_shared p)" "cs_db (pg_shared ?p) = sl_db s"
    by (simp_all add: sub_done_def sent_nums_def old_blocks_def fun_eq_iff)
  have "sub_view ?p = s" by (simp add: sub_view_def sub_done_def)
  moreover have "entries_admitted key_numbered (sl_db s)" by (rule numbered.handle_new_subscription_admitted [OF sub(1) view(3)])
  ultimately have "program_inv E l0 ?p"
    using inv st(1) nums new by (simp add: program_inv_def channel_inv_def ranges_inv_def idle_def Let_def frame ranges)
  moreover have "state_mono ?st (sl_state s)" using st(2) new by (simp add: state_mono_def ranges)
  ultimately show ?thesis by simp
qed

lemma sorted_range_u32: "sorted_wrt (<) (range_u32 a b)"
proof -
  have "unat (word_of_nat i :: u32) = i" if "i < unat b" for i
    using that unat_u32_less [of b] by (intro unat_u32_of_nat) linarith
  then show ?thesis unfolding range_u32_def sorted_wrt_map
    by (intro sorted_wrt_mono_rel [OF _ sorted_wrt_upt]) (auto simp: word_less_nat_alt)
qed

lemma start_step:
  assumes inv: "program_inv E l0 p" and head: "pg_head p = None" and ev: "sl_events (pg_sub p) = HeaderUpdate hdr received_at # evs"
    and st: "startup_clients SE (pe_cfg E) hdr \<lparr>su_state = cs_state (pg_shared p), su_tasks = ts, su_counted = cs\<rparr> = (Ok (), s)"
  shows "program_inv E l0 (p\<lparr>pg_shared := (pg_shared p)\<lparr>cs_state := su_state s\<rparr>, pg_head := Some hdr, pg_sync := sync_blocks_of (pe_cfg E) hdr\<rparr>)"
proof -
  let ?p = "p\<lparr>pg_shared := (pg_shared p)\<lparr>cs_state := su_state s\<rparr>, pg_head := Some hdr, pg_sync := sync_blocks_of (pe_cfg E) hdr\<rparr>"
  have number: "unat (h_number hdr) = unat l0 + 1"
    using event_number [of l0 "pg_newest p" "pg_sub p" 0] inv ev by (simp add: program_inv_def)
  have "h_number hdr \<le> pg_newest p"
  proof -
    obtain h where "h_number h \<le> pg_newest p" "sent_numbers (pg_sub p) = blocks_after l0 (h_number (h :: header))"
      using inv unfolding program_inv_def number_inv_def by blast
    moreover from this ev have "unat l0 < unat (h_number h)" by (auto simp: sent_numbers_def blocks_after_def split: if_splits)
    ultimately show ?thesis using number by (simp add: word_le_nat_alt)
  qed
  moreover have "idle p" using inv head by (simp add: program_inv_def)
  moreover have "in_range (sync_range (pe_cfg E) (h_number hdr)) n \<Longrightarrow> n \<le> l0" for n
    using number by (simp add: in_range_def sync_range_def word_le_nat_alt word_less_nat_alt)
  moreover have "n \<in> set (sync_blocks_of (pe_cfg E) hdr) \<Longrightarrow> in_range (sync_range (pe_cfg E) (h_number hdr)) n" for n
    by (auto simp: sync_blocks_of_def set_range_u32 in_range_def split: if_splits)
  moreover have "sorted_wrt (<) (sync_blocks_of (pe_cfg E) hdr)" by (simp add: sync_blocks_of_def sorted_range_u32)
  moreover have fields: "st_latest (su_state s) = h_number hdr" "st_header_verified (su_state s) = st_header_verified (cs_state (pg_shared p))"
    "st_confidence_achieved (su_state s) = st_confidence_achieved (cs_state (pg_shared p))"
    "st_data_verified (su_state s) = st_data_verified (cs_state (pg_shared p))"
    "st_sync_data_verified (su_state s) = st_sync_data_verified (cs_state (pg_shared p))"
    "st_sync_header_verified (su_state s) = st_sync_header_verified (cs_state (pg_shared p))"
    "st_sync_confidence_achieved (su_state s) = st_sync_confidence_achieved (cs_state (pg_shared p))"
    using st by (auto simp: startup_clients_eq)
  moreover have "verified_ok (sub_view ?p) = verified_ok (sub_view p)" by (rule sub_view_cong) (simp_all add: fields)
  ultimately show ?thesis
    using inv
    by (auto simp: program_inv_def idle_def channel_inv_def ranges_inv_def Let_def sent_nums_def old_blocks_def range_before_def range_upto_def)
qed

section \<open>The whole program\<close>

lemma maint_db: "keeps P (maint_process_block feature_rocksdb M cfg n)"
proof -
  have flush: "keeps P (maint_flush M cfg n)"
    unfolding maint_flush_def
    by (intro keeps_bind keeps_frame(2)) (auto simp: keeps_def log_err_def op_lift_def op_return_def split: res.splits)
  have prune: "keeps P (maint_prune feature_rocksdb M cfg n)"
    unfolding maint_prune_def by auto
  have report: "keeps P (\<lambda>s. (Ok (), cs_metric (ms x) s))" for ms x
    by (rule keeps_done) simp
  show ?thesis
    unfolding maint_process_block_def Let_def
    by (auto intro!: keeps_bind flush prune report)
qed

text \<open>Every step keeps a contract on the entries of the database that all headers of the nodes meet.\<close>

context db_writers
begin

lemma program_step_admitted:
  fixes p :: "('r, 'dim, 'lk) program"
  assumes step: "program_step E p p'" and db: "entries_admitted admits (cs_db (pg_shared p))"
    and nodes: "\<And>f :: u32 \<Rightarrow> ('r net_state, header \<times> h256) op. headers_admitted key_numbered f \<Longrightarrow> headers_admitted admits f"
      "\<And>R. node_headers_admitted key_numbered R \<Longrightarrow> node_headers_admitted admits R"
    and light: "\<And>fetch i r s. light_client_run (se_kate (pe_sub E)) fetch (light_client_config_of (pe_cfg E)) [i] (pg_shared p) = (r, s) \<Longrightarrow>
      network_client (se_kate (pe_sub E)) fetch \<Longrightarrow> \<forall>d c. distinct (bi_positions i d c) \<Longrightarrow> entries_admitted admits (cs_db s)"
    and sync: "\<And>S n r s. headers_admitted admits (sy_rpc_header S) \<Longrightarrow> sy_config S = sync_client_config_of (pe_cfg E) \<Longrightarrow>
      sync_one S n (pg_shared p) = (r, s) \<Longrightarrow> sy_kate S = se_kate (pe_sub E) \<Longrightarrow> network_client (se_kate (pe_sub E)) (sy_fetch S) \<Longrightarrow>
      \<forall>m d c. distinct (sy_positions S m d c) \<Longrightarrow> entries_admitted admits (cs_db s)"
  shows "entries_admitted admits (cs_db (pg_shared p'))"
  using step
proof cases
  case (header_arrives R hdr fetched_at now s)
  then show ?thesis using handle_new_subscription_admitted [OF header_arrives(4)] db by (simp add: sub_view_def sub_done_def)
next
  case (justification_arrives R fetched_at now j s)
  then show ?thesis using handle_new_subscription_admitted [OF justification_arrives(3)] db by (simp add: sub_view_def sub_done_def)
next
  case (light_client_block i fetch r s)
  then show ?thesis using light [OF light_client_block(6-8)] by simp
next
  case (fat_client_block prt i F duration r s)
  then show ?thesis using keeps_case [OF fat_client_run_keeps db fat_client_block(6)] by simp
next
  case (sync_client_block n ns S r s)
  then show ?thesis using sync [OF nodes(1) [OF sync_client_block(3)] sync_client_block(4-8)] by simp
next
  case (app_client_block hdr a i r s dat)
  have "entries_admitted admits (cs_db s)" using app_client_run_keeps [OF db] app_client_block(6) by (metis fst_conv snd_conv)
  then show ?thesis by (simp add: app_client_block(1))
next
  case (finality_block hdr n prev_hash vs R r d)
  have "entries_admitted admits d"
    using sync_block_admitted [OF nodes(2) [OF finality_block(5)] db] finality_block(6) by (metis snd_conv)
  then show ?thesis by (simp add: finality_block(1))
next
  case (maintenance_block block feature_rocksdb M r s)
  then show ?thesis using keeps_case [OF maint_db db maintenance_block(4)] by simp
qed (use db in simp_all)

end

context db_contract
begin

lemma client_db:
  assumes "entries_admitted admits (cs_db s)"
  shows "light_client_run K fetch lcfg is s = (r, s') \<Longrightarrow> entries_admitted admits (cs_db s')"
    "fat_client_run K F fcfg prt duration is s = (r, s') \<Longrightarrow> entries_admitted admits (cs_db s')"
    "headers_admitted admits (sy_rpc_header S) \<Longrightarrow> sync_one S n s = (r, s') \<Longrightarrow> entries_admitted admits (cs_db s')"
    "app_client_run acfg a rng ais (s, dat) = (r, s', dat') \<Longrightarrow> entries_admitted admits (cs_db s')"
  using keepsD [OF light_client_run_keeps assms] keepsD [OF fat_client_run_keeps assms]
    keepsD [OF sync_one_keeps assms] app_client_run_keeps [OF assms]
  by (metis fst_conv snd_conv)+

lemma contract_step_admitted:
  fixes p :: "('r, 'dim, 'lk) program"
  assumes "program_step E p p'" "entries_admitted admits (cs_db (pg_shared p))"
    and "\<And>f :: u32 \<Rightarrow> ('r net_state, header \<times> h256) op. headers_admitted key_numbered f \<Longrightarrow> headers_admitted admits f"
      "\<And>R. node_headers_admitted key_numbered R \<Longrightarrow> node_headers_admitted admits R"
  shows "entries_admitted admits (cs_db (pg_shared p'))"
  by (rule program_step_admitted [OF assms])
    (blast intro: client_db(1,3) [OF assms(2)])+

end

lemma program_step_progress:
  assumes step: "program_step E p p'" and inv: "program_inv E l0 p"
  shows "program_inv E l0 p' \<and> (pg_head p \<noteq> None \<longrightarrow> pg_head p' \<noteq> None \<and> state_mono (cs_state (pg_shared p)) (cs_state (pg_shared p')))"
  using step
proof cases
  case (header_arrives R hdr fetched_at now s)
  from subscription_step [OF inv _ header_arrives(4), of "h_number hdr"] header_arrives(2,3)
  show ?thesis by (simp add: header_arrives(1) sub_done_def)
next
  case (justification_arrives R fetched_at now j s)
  from subscription_step [OF inv _ justification_arrives(3), of "pg_newest p"] justification_arrives(2)
  show ?thesis by (simp add: justification_arrives(1) sub_done_def)
next
  case (clients_start hdr received_at evs ts cs s)
  from start_step [OF inv clients_start(2-4)] show ?thesis by (simp add: clients_start(1,2))
next
  case (light_client_block i fetch r s)
  obtain hdr t where ev: "sl_events (pg_sub p) ! pg_blocks p = HeaderUpdate hdr t" by (meson event.exhaust)
  have db: "entries_admitted key_numbered (cs_db (pg_shared p))" using inv by (simp add: program_inv_def)
  have "step_effect (h_number hdr) {cs_state (pg_shared p), confidence_achieved (h_number hdr) (cs_state (pg_shared p))} (pg_shared p) s"
    using light_client_effect [OF light_client_block(6)] light_client_block(5) ev by simp
  from block_client_step [OF inv light_client_block(2,4) _ this numbered.client_db(1) [OF db light_client_block(6)]] ev
  show ?thesis by (simp add: light_client_block(1,2) del: not_None_eq)
next
  case (fat_client_block prt i F duration r s)
  obtain hdr t where ev: "sl_events (pg_sub p) ! pg_blocks p = HeaderUpdate hdr t" by (meson event.exhaust)
  have db: "entries_admitted key_numbered (cs_db (pg_shared p))" using inv by (simp add: program_inv_def)
  have "step_effect (h_number hdr) {cs_state (pg_shared p), confidence_achieved (h_number hdr) (cs_state (pg_shared p))} (pg_shared p) s"
    using fat_client_effect [OF fat_client_block(6)] fat_client_block(5) ev by (simp add: step_effect_def)
  from block_client_step [OF inv fat_client_block(2,4) _ this numbered.client_db(2) [OF db fat_client_block(6)]] ev
  show ?thesis by (simp add: fat_client_block(1,2) del: not_None_eq)
next
  case (sync_client_block n ns S r s)
  have db: "entries_admitted key_numbered (cs_db (pg_shared p))" using inv by (simp add: program_inv_def)
  from sync_client_step [OF inv sync_client_block(2) sync_one_effect [OF sync_client_block(3) db sync_client_block(5)]
      numbered.client_db(3) [OF db sync_client_block(3,5)]]
  show ?thesis by (simp add: sync_client_block(1))
next
  case (sync_client_done hdr)
  from quiet_step [OF inv, where s = "on_state (\<lambda>st. st\<lparr>st_synced := Some True\<rparr>) (pg_shared p)" and y = "Some True"
      and f = "st_finality_synced (cs_state (pg_shared p))" and t = "pg_finality p"] inv
  show ?thesis by (simp add: sync_client_done(1) program_inv_def)
next
  case (app_client_block hdr a i r s dat)
  have db: "entries_admitted key_numbered (cs_db (pg_shared p))" using inv by (simp add: program_inv_def)
  from app_client_step [OF inv app_client_block(2,4) refl, of s dat] app_client_effect [OF app_client_block(6,5)] numbered.client_db(4) [OF db app_client_block(6)]
  show ?thesis by (simp add: app_client_block(1))
next
  case (finality_start R gen_hash checkpoint twox_128 n vs prev_hash)
  from quiet_step [OF inv, where s = "pg_shared p" and y = "st_synced (cs_state (pg_shared p))" and f = "st_finality_synced (cs_state (pg_shared p))"] inv
  show ?thesis by (simp add: finality_start(1) program_inv_def)
next
  case (finality_block hdr n prev_hash vs R r d)
  have "entries_admitted key_numbered d"
    using numbered.sync_block_admitted [OF finality_block(5), of "cs_db (pg_shared p)"] inv finality_block(6) by (metis program_inv_def snd_conv)
  from quiet_step [OF inv, where s = "(pg_shared p)\<lparr>cs_db := d\<rparr>" and y = "st_synced (cs_state (pg_shared p))"
      and f = "st_finality_synced (cs_state (pg_shared p))"] this
  show ?thesis by (simp add: finality_block(1))
next
  case (finality_done hdr n prev_hash vs)
  from quiet_step [OF inv, where s = "on_state (\<lambda>st. st\<lparr>st_finality_synced := True\<rparr>) (pg_shared p)"
      and y = "st_synced (cs_state (pg_shared p))" and f = True] inv
  show ?thesis by (simp add: finality_done(1) program_inv_def)
next
  case (maintenance_block block feature_rocksdb M r s)
  note f = state_frameD [OF maint_process_block_frame maintenance_block(4)]
  have "entries_admitted key_numbered (cs_db s)" using keeps_case [OF maint_db _ maintenance_block(4)] inv by (simp add: program_inv_def)
  from quiet_step [OF inv this, where y = "st_synced (cs_state s)" and f = "st_finality_synced (cs_state s)" and t = "pg_finality p"] f
  show ?thesis by (simp add: maintenance_block(1))
qed

interpretation program: invariant_steps "program_step E" "program_inv E l0" for E l0
  by unfold_locales (blast dest: program_step_progress)

lemma state_mono_trans: "state_mono a b \<Longrightarrow> state_mono b c \<Longrightarrow> state_mono a c"
  unfolding state_mono_def using range_grows_trans by (meson order_trans)

lemma program_steps_progress:
  "(program_step E)\<^sup>*\<^sup>* p p' \<Longrightarrow> program_inv E l0 p \<Longrightarrow> pg_head p \<noteq> None \<Longrightarrow>
     pg_head p' \<noteq> None \<and> state_mono (cs_state (pg_shared p)) (cs_state (pg_shared p'))"
proof (induction rule: rtranclp_induct)
  case base
  then show ?case by (simp add: state_mono_def)
next
  case (step y z)
  have "program_inv E l0 y" by (rule program.inv_steps [OF step.hyps(1) step.prems(1)])
  from program_step_progress [OF step.hyps(2) this] step.IH step.prems show ?case by (blast intro: state_mono_trans)
qed

lemma program_inv_init:
  assumes "program_init R (state_default\<lparr>st_connected_node := n\<rparr>) shared = Ok p" "entries_admitted key_numbered (cs_db shared)"
  shows "\<exists>l0. program_inv E l0 p"
proof -
  obtain s where s: "sub_loop_new R (state_default\<lparr>st_connected_node := n\<rparr>) (cs_db shared) = Ok s"
    using assms(1) by (auto simp: program_init_def and_then_eq_Ok)
  obtain h0 where h0: "sl_last_finalized_block_header s = Some h0" "sl_events s = []" "sl_unverified_headers s = []"
    using sub_loop_new_fields [OF s] by blast
  have "program_inv E (h_number h0) p"
    using assms s h0 number_inv_new [OF h0]
    by (auto simp: program_init_def program_inv_def verified_ok_def sub_view_def idle_def channel_inv_def ranges_inv_def old_blocks_def
        state_default_def sent_nums_def range_before_def range_upto_def Let_def)
  then show ?thesis ..
qed

section \<open>Properties\<close>


lemma sample_header_arrives:
  assumes "sl_justifications (pg_sub p) = []" "sl_next_valset (pg_sub p) = None" "pg_newest p < n"
  shows "program_step sample_program_env p (sub_done ((sub_view p)\<lparr>sl_state := (cs_state (pg_shared p))\<lparr>st_latest := n\<rparr>,
    sl_unverified_headers := sl_unverified_headers (pg_sub p) @ [(sample_header n, 0, sl_current_valset (pg_sub p))],
    sl_justifications := []\<rparr>) (p\<lparr>pg_newest := n\<rparr>))"
  using header_arrives [where E = sample_program_env and R = sample_rpc and p = p and hdr = "sample_header n" and now = 0 and fetched_at = "\<lambda>_. 0"] assms
  by (simp add: sample_rpc_numbers [unfolded sample_sub_env_def, simplified] handle_new_subscription_def push_header_def note_valset_change_def
      verify_and_output_block_headers_def sub_view_def Let_def)

text \<open>The program after blocks 4 and 5 were finalized, and after the clients started.\<close>

lemma sample_justification_arrives:
  assumes "sl_unverified_headers (pg_sub p) = [(sample_header 5, 0, \<lparr>vs_set_id = 20, vs_validator_set = [1, 2, 3, 4]\<rparr>)]"
    "sl_justifications (pg_sub p) = []" "sl_last_finalized_block_header (pg_sub p) = Some (sample_header 3)"
    "sl_events (pg_sub p) = []" "\<not> st_finality_synced (cs_state (pg_shared p))" "st_header_verified (cs_state (pg_shared p)) = None"
  shows "program_step sample_program_env p (sub_done ((sub_view p)\<lparr>sl_unverified_headers := [], sl_justifications := [],
    sl_last_finalized_block_header := Some (sample_header 5), sl_events := [HeaderUpdate (sample_header 4) 0, HeaderUpdate (sample_header 5) 0],
    sl_state := (cs_state (pg_shared p))\<lparr>st_header_verified := Some (block_range_init 5)\<rparr>\<rparr>) p)"
proof -
  have "range_u32 4 5 = [4]" by (simp add: range_u32_Cons range_u32_empty)
  moreover have "check_finality sample_kate sample_verify \<lparr>vs_set_id = 20, vs_validator_set = [1, 2, 3, 4]\<rparr>
      (sample_justification [1, 2, 3]) = Ok ()"
    by (rule sample_justification_ok) simp
  moreover have "cm_target_hash (gj_commit (sample_justification ks)) = 5" for ks
    by (simp add: sample_justification_def)
  ultimately have "handle_new_subscription (sample_sub_env\<lparr>se_rpc := sample_rpc, se_fetched_at := \<lambda>_. 0\<rparr>) 0
      (JustificationSub (sample_justification [1, 2, 3])) (sub_view p) =
    Ok ((sub_view p)\<lparr>sl_unverified_headers := [], sl_justifications := [],
    sl_last_finalized_block_header := Some (sample_header 5), sl_events := [HeaderUpdate (sample_header 4) 0, HeaderUpdate (sample_header 5) 0],
    sl_state := (cs_state (pg_shared p))\<lparr>st_header_verified := Some (block_range_init 5)\<rparr>\<rparr>)"
    using assms
    by (simp add: sub_view_def sample_sub_env_def handle_new_subscription_def verify_and_output_block_headers_def
        finalize_header_def send_skipped_def send_event_def swap_remove_def Let_def)
  then show ?thesis
    using justification_arrives [where E = sample_program_env and R = sample_rpc and p = p and fetched_at = "\<lambda>_. 0" and now = 0]
    by (simp add: sample_program_env_def sample_rpc_numbers [unfolded sample_sub_env_def, simplified])
qed

lemma sample_program_started:
  "\<exists>p0 p. program_init sample_rpc (state_default\<lparr>st_connected_node := node_default\<rparr>) sample_sys = Ok p0 \<and>
     (program_step sample_program_env)\<^sup>*\<^sup>* p0 p \<and> cs_db (pg_shared p0) = db_empty \<and> pg_head p \<noteq> None \<and> pg_newest p = 5 \<and> pg_blocks p = 0 \<and>
     sl_justifications (pg_sub p) = [] \<and> sl_next_valset (pg_sub p) = None \<and>
     sl_events (pg_sub p) = [HeaderUpdate (sample_header 4) 0, HeaderUpdate (sample_header 5) 0] \<and>
     cs_db (pg_shared p) = db_empty \<and> cs_net (pg_shared p) = sample_net_state \<and>
     st_latest (cs_state (pg_shared p)) = 4 \<and> st_header_verified (cs_state (pg_shared p)) = Some (block_range_init 5) \<and>
     st_confidence_achieved (cs_state (pg_shared p)) = None \<and> st_data_verified (cs_state (pg_shared p)) = None"
proof -
  let ?step = "program_step sample_program_env"
  obtain p0 where p0: "program_init sample_rpc (state_default\<lparr>st_connected_node := node_default\<rparr>) sample_sys = Ok p0"
    by (simp add: program_init_def sample_sub_loop_new)
  have start: "sl_justifications (pg_sub p0) = []" "sl_next_valset (pg_sub p0) = None" "pg_newest p0 = 3" "sl_unverified_headers (pg_sub p0) = []"
    "sl_current_valset (pg_sub p0) = \<lparr>vs_set_id = 20, vs_validator_set = [1, 2, 3, 4]\<rparr>" "sl_events (pg_sub p0) = []" "pg_head p0 = None"
    "sl_last_finalized_block_header (pg_sub p0) = Some (sample_header 3)" "cs_state (pg_shared p0) = state_default\<lparr>st_connected_node := node_default\<rparr>"
    "cs_db (pg_shared p0) = db_empty" "cs_net (pg_shared p0) = sample_net_state" "pg_blocks p0 = 0"
    using p0 by (auto simp: program_init_def sample_sub_loop_new sample_sys_def)
  obtain p1 where s1: "?step p0 p1" and p1: "sl_unverified_headers (pg_sub p1) = [(sample_header 5, 0, \<lparr>vs_set_id = 20, vs_validator_set = [1, 2, 3, 4]\<rparr>)]"
    "sl_justifications (pg_sub p1) = []" "sl_last_finalized_block_header (pg_sub p1) = Some (sample_header 3)" "sl_next_valset (pg_sub p1) = None"
    "sl_events (pg_sub p1) = []" "pg_newest p1 = 5" "pg_head p1 = None" "pg_blocks p1 = 0"
    "cs_state (pg_shared p1) = state_default\<lparr>st_connected_node := node_default, st_latest := 5\<rparr>"
    "cs_db (pg_shared p1) = db_empty" "cs_net (pg_shared p1) = sample_net_state"
    by (rule that [OF sample_header_arrives [of p0 5]]) (simp_all add: start sub_done_def sub_view_def)
  obtain p2 where s2: "?step p1 p2" and p2: "sl_justifications (pg_sub p2) = []" "sl_next_valset (pg_sub p2) = None" "pg_newest p2 = 5" "pg_head p2 = None"
    "sl_events (pg_sub p2) = [HeaderUpdate (sample_header 4) 0, HeaderUpdate (sample_header 5) 0]"
    "cs_state (pg_shared p2) = state_default\<lparr>st_connected_node := node_default, st_latest := 5, st_header_verified := Some (block_range_init 5)\<rparr>"
    "cs_db (pg_shared p2) = db_empty" "cs_net (pg_shared p2) = sample_net_state" "pg_blocks p2 = 0"
    by (rule that [OF sample_justification_arrives [of p1]]) (simp_all add: p1 sub_done_def sub_view_def state_default_def)
  obtain p3 where s3: "?step p2 p3" and p3: "pg_head p3 \<noteq> None" "pg_newest p3 = 5" "pg_blocks p3 = 0"
    "sl_justifications (pg_sub p3) = []" "sl_next_valset (pg_sub p3) = None"
    "sl_events (pg_sub p3) = [HeaderUpdate (sample_header 4) 0, HeaderUpdate (sample_header 5) 0]"
    "cs_db (pg_shared p3) = db_empty" "cs_net (pg_shared p3) = sample_net_state" "st_latest (cs_state (pg_shared p3)) = 4"
    "st_header_verified (cs_state (pg_shared p3)) = Some (block_range_init 5)"
    "st_confidence_achieved (cs_state (pg_shared p3)) = None" "st_data_verified (cs_state (pg_shared p3)) = None"
    by (rule that [OF clients_start [where E = sample_program_env and p = p2, OF p2(4,5) startup_clients_eq]]) (simp_all add: p2 state_default_def)
  have "?step\<^sup>*\<^sup>* p0 p3" using s1 s2 s3 by (meson rtranclp.rtrancl_into_rtrancl rtranclp.rtrancl_refl)
  then show ?thesis using p0 start(10) p3 by (intro exI [of _ p0] exI [of _ p3] conjI)
qed

lemma sample_program_run:
  "\<exists>p0 p p'. program_init sample_rpc (state_default\<lparr>st_connected_node := node_default\<rparr>) sample_sys = Ok p0 \<and>
     (program_step sample_program_env)\<^sup>*\<^sup>* p0 p \<and> (program_step sample_program_env)\<^sup>*\<^sup>* p p' \<and> pg_head p \<noteq> None \<and> pg_newest p' = 7 \<and>
     range_first (st_header_verified (cs_state (pg_shared p))) \<noteq> None \<and>
     block_status None (cs_state (pg_shared p)) 5 sample_extension = Some VerifyingConfidence"
proof -
  let ?step = "program_step sample_program_env"
  obtain p0 p3 where p0: "program_init sample_rpc (state_default\<lparr>st_connected_node := node_default\<rparr>) sample_sys = Ok p0" and s3: "?step\<^sup>*\<^sup>* p0 p3"
    and p3: "sl_justifications (pg_sub p3) = []" "sl_next_valset (pg_sub p3) = None" "pg_newest p3 = 5" "pg_head p3 \<noteq> None"
    "st_header_verified (cs_state (pg_shared p3)) = Some (block_range_init 5)"
    "st_confidence_achieved (cs_state (pg_shared p3)) = None" "st_data_verified (cs_state (pg_shared p3)) = None"
    using sample_program_started by blast
  obtain p4 where s4: "?step p3 p4" and p4: "sl_justifications (pg_sub p4) = []" "sl_next_valset (pg_sub p4) = None" "pg_newest p4 = 6" "pg_head p4 \<noteq> None"
    "st_header_verified (cs_state (pg_shared p4)) = Some (block_range_init 5)" "st_latest (cs_state (pg_shared p4)) = 6"
    "st_confidence_achieved (cs_state (pg_shared p4)) = None" "st_data_verified (cs_state (pg_shared p4)) = None"
    by (rule that [OF sample_header_arrives [of p3 6]]) (simp_all add: p3 sub_done_def sub_view_def)
  obtain p5 where s5: "?step p4 p5" and p5: "pg_newest p5 = 7"
    by (rule that [OF sample_header_arrives [of p4 7]]) (simp_all add: p4 sub_done_def sub_view_def)
  have "?step\<^sup>*\<^sup>* p0 p4" using s3 s4 by (rule rtranclp.rtrancl_into_rtrancl)
  moreover have "block_status None (cs_state (pg_shared p4)) 5 sample_extension = Some VerifyingConfidence"
    by (simp add: block_status_def p4 Let_def range_first_def block_range_init_def block_range_contains_def range_contains_def sample_extension_def extension_option_def)
  moreover have "?step\<^sup>*\<^sup>* p4 p5" using s5 by (rule r_into_rtranclp)
  ultimately show ?thesis using p0 p4(4,5) p5 by (metis (no_types) option.distinct(1) range_first_def option.map(2))
qed


end
