(* ===== verification/Typed_Database.thy ===== *)
theory Typed_Database
  imports Program
begin

text \<open>
  The database holds serialized values, and \<open>get::<T>\<close> decodes what it finds as a \<open>T\<close> (\<open>src/data.rs\<close>). That this never fails for
  a value of another type rests on the writers: under each kind of key they put only values of one type. This theory states the type of
  each key and shows that every task of the program keeps it.
\<close>

section \<open>The types of the keys\<close>

fun key_type :: "key \<Rightarrow> db_value \<Rightarrow> bool" where
  "key_type (AppData _ _) (AppDataValue _) = True"
| "key_type (BlockHeader _) (HeaderValue _) = True"
| "key_type (VerifiedCellCount _) (CountValue _) = True"
| "key_type FinalitySyncCheckpointKey (CheckpointValue _) = True"
| "key_type _ _ = False"

definition well_typed :: "database \<Rightarrow> bool" where
  "well_typed d \<longleftrightarrow> entries_admitted key_type d"

text \<open>A typed read fails only when the backend does.\<close>

definition reads_decode :: "database \<Rightarrow> bool" where
  "reads_decode d \<longleftrightarrow>
     (\<forall>n. db_get_fault d (BlockHeader n) = None \<longrightarrow> is_ok (db_get_header d n)) \<and>
     (\<forall>n. db_get_fault d (VerifiedCellCount n) = None \<longrightarrow> is_ok (db_get_count d n)) \<and>
     (\<forall>a n. db_get_fault d (AppData a n) = None \<longrightarrow> is_ok (db_get_app_data d a n)) \<and>
     (db_get_fault d FinalitySyncCheckpointKey = None \<longrightarrow> is_ok (db_get_checkpoint d))"

section \<open>Lemmas\<close>

lemma key_type_iff [simp]:
  "key_type (AppData a n) v \<longleftrightarrow> (\<exists>x. v = AppDataValue x)"
  "key_type (BlockHeader n) v \<longleftrightarrow> (\<exists>x. v = HeaderValue x)"
  "key_type (VerifiedCellCount n) v \<longleftrightarrow> (\<exists>x. v = CountValue x)"
  "key_type FinalitySyncCheckpointKey v \<longleftrightarrow> (\<exists>x. v = CheckpointValue x)"
  by (cases v; simp)+

lemma well_typed_reads: "well_typed d \<Longrightarrow> reads_decode d"
  unfolding well_typed_def entries_admitted_def reads_decode_def
  by (auto simp: db_get_header_def db_get_count_def db_get_app_data_def db_get_checkpoint_def db_get_def split: option.splits)
    (fastforce split: db_value.splits)+

interpretation typed: db_contract key_type
  by unfold_locales simp_all

text \<open>A type says nothing of the header that a node sends.\<close>

lemma headers_typed: "headers_admitted key_type f" "node_headers_admitted key_type R"
  by (simp_all add: headers_admitted_def node_headers_admitted_def)

interpretation typed_program: invariant_steps "program_step E" "\<lambda>p. well_typed (cs_db (pg_shared p))" for E
  by unfold_locales (auto simp: well_typed_def headers_typed intro: typed.contract_step_admitted)

section \<open>Properties\<close>



end
