(* ===== verification/Api_V1.thy ===== *)
theory Api_V1
  imports Client_State
begin

text \<open>
  The first version of the HTTP API (\<open>src/api/v1/types.rs\<close>, \<open>src/api/v1/handlers.rs\<close>): the five requests and their responses.

  The decoder of an extrinsic and the call in an extrinsic belong to \<open>avail_subxt\<close> and are parameters, as is the encoder of the
  \<open>base64\<close> crate. The routes (\<open>src/api/v1/mod.rs\<close>) only connect paths to the handlers.

  The lemmas show that the serialised confidence can be read back, which blocks have a confidence, and that the HTTP status
  tells the five kinds of responses apart.
\<close>

section \<open>Responses\<close>

datatype 'a client_response = Normal 'a | NotFound | NotFinalized | InProcess | Error report

record confidence_response =
  cr_block :: u32
  cr_confidence :: f64
  cr_serialised_confidence :: "string option"

datatype 'xt extrinsics = Encoded "'xt list" | Decoded "string list"

record 'xt extrinsics_data_response =
  ed_block :: u32
  ed_extrinsics :: "'xt extrinsics"

record v1_status =
  vs_block_num :: u32
  vs_confidence :: f64
  vs_app_id :: "u32 option"

datatype 'a json_body = JsonValue 'a | JsonText string

text \<open>The status code and the value that is sent as JSON; an error is sent as its outermost message.\<close>

fun into_response :: "'a client_response \<Rightarrow> nat \<times> 'a json_body" where
  "into_response (Normal r) = (200, JsonValue r)"
| "into_response NotFound = (404, JsonText ''Not found'')"
| "into_response NotFinalized = (400, JsonText ''Not synced'')"
| "into_response InProcess = (401, JsonText ''Processing block'')"
| "into_response (Error e) = (500, JsonText (case e of [] \<Rightarrow> '''' | m # _ \<Rightarrow> m))"

section \<open>Handlers\<close>

text \<open>\<open>(10f64.powi(7) * factor) as u64\<close>: a cast truncates towards zero and saturates.\<close>

fun scaled_factor :: "f64 \<Rightarrow> nat" where
  "scaled_factor (Fin x) = (let y = 10 ^ 7 * x in if y \<le> 0 then 0 else min (nat \<lfloor>y\<rfloor>) (2 ^ 64 - 1))"
| "scaled_factor PosInf = 2 ^ 64 - 1"
| "scaled_factor NegInf = 0"
| "scaled_factor NaN = 0"

definition serialised_number :: "u32 \<Rightarrow> f64 \<Rightarrow> nat" where
  "serialised_number block factor = or (push_bit 32 (unat block)) (scaled_factor factor)"

definition serialised_confidence :: "u32 \<Rightarrow> f64 \<Rightarrow> string option" where
  "serialised_confidence block factor = Some (show_nat (serialised_number block factor))"

definition v1_mode :: "u32 option \<Rightarrow> mode client_response" where
  "v1_mode appid = Normal (mode_from appid)"

definition is_synced :: "u32 \<Rightarrow> state \<Rightarrow> bool" where
  "is_synced block_num st =
     (case st_confidence_achieved st of Some rng \<Rightarrow> block_num \<le> br_last rng | None \<Rightarrow> False)"

text \<open>A read of the database panics in no case that is modelled; the last equation is there for totality of the type.\<close>

definition v1_confidence :: "u32 \<Rightarrow> database \<Rightarrow> state \<Rightarrow> runtime_config \<Rightarrow> confidence_response client_response" where
  "v1_confidence block_num d st cfg =
     (let reply = (\<lambda>cnt. let conf = calculate_confidence cnt
                         in Normal \<lparr>cr_block = block_num, cr_confidence = conf,
                                    cr_serialised_confidence = serialised_confidence block_num conf\<rparr>)
      in case db_get_count d block_num of
           Ok (Some cnt) \<Rightarrow> reply cnt
         | Ok None \<Rightarrow> if is_synced block_num st then reply (cell_count_for_confidence (confidence cfg)) else NotFinalized
         | Err e \<Rightarrow> Error e
         | Panic m \<Rightarrow> Error [m])"

definition v1_status_handler :: "u32 option \<Rightarrow> state \<Rightarrow> database \<Rightarrow> v1_status client_response" where
  "v1_status_handler appid st d =
     (case range_last (st_confidence_achieved st) of
        None \<Rightarrow> NotFound
      | Some lst \<Rightarrow>
          (case db_get_count d lst of
             Ok (Some cnt) \<Rightarrow> Normal \<lparr>vs_block_num = lst, vs_confidence = calculate_confidence cnt, vs_app_id = appid\<rparr>
           | Ok None \<Rightarrow> NotFound
           | Err e \<Rightarrow> Error e
           | Panic m \<Rightarrow> Error [m]))"

definition latest_block :: "state \<Rightarrow> u32 client_response" where
  "latest_block st = (case range_last (st_confidence_achieved st) of None \<Rightarrow> NotFound | Some n \<Rightarrow> Normal n)"

definition decode_app_data_to_extrinsics ::
    "(bytes \<Rightarrow> 'xt result) \<Rightarrow> app_data option result \<Rightarrow> 'xt list option result" where
  "decode_app_data_to_extrinsics decode dat =
     and_then dat (\<lambda>e. case e of
         None \<Rightarrow> Ok None
       | Some raws \<Rightarrow>
           map_res Some (collect_res (map (\<lambda>(i, raw).
             wrap_err (''Couldn't decode AvailExtrinsic num '' @ show_nat i) (decode raw)) (enumerate 0 raws))))"

definition appdata ::
    "(bytes \<Rightarrow> 'xt result) \<Rightarrow> ('xt \<Rightarrow> runtime_call) \<Rightarrow> (bytes \<Rightarrow> string) \<Rightarrow> u32 \<Rightarrow> bool option \<Rightarrow> database \<Rightarrow> u32 option \<Rightarrow> state \<Rightarrow>
     'xt extrinsics_data_response client_response" where
  "appdata decode call_of base64 block_num query_decode d appid st =
     (let lst = range_last (st_confidence_achieved st);
          dec = (case query_decode of None \<Rightarrow> False | Some b \<Rightarrow> b)
      in case decode_app_data_to_extrinsics decode (db_get_app_data d (case appid of None \<Rightarrow> 0 | Some a \<Rightarrow> a) block_num) of
           Ok (Some dat) \<Rightarrow>
             Normal \<lparr>ed_block = block_num, ed_extrinsics =
               (if \<not> dec then Encoded dat
                else Decoded (map base64 (flatten_options (map (\<lambda>xt. case call_of xt of SubmitData x \<Rightarrow> Some x | OtherCall \<Rightarrow> None) dat))))\<rparr>
         | Ok None \<Rightarrow> if lst = Some block_num then InProcess else NotFound
         | Err e \<Rightarrow> Error e
         | Panic m \<Rightarrow> Error [m])"

section \<open>Lemmas\<close>

lemma scaled_factor_le: "x \<le> 100 \<Longrightarrow> scaled_factor (Fin x) \<le> 10 ^ 9"
  by (simp add: Let_def min_le_iff_disj nat_le_iff floor_le_iff)

lemma scaled_factor_confidence: "scaled_factor (calculate_confidence cnt) \<le> 10 ^ 9"
proof (cases "(2 :: nat) ^ unat cnt mod 2 ^ 32 = 0")
  case True
  then show ?thesis by (simp add: calculate_confidence_def)
next
  case False
  then show ?thesis
    using scaled_factor_le [of "100 * (1 - 1 / real ((2 :: nat) ^ unat cnt mod 2 ^ 32))"]
    by (simp add: calculate_confidence_def Let_def del: scaled_factor.simps)
qed

lemma serialised_number_parts:
  assumes "scaled_factor factor < 2 ^ 32"
  shows "serialised_number block factor div 2 ^ 32 = unat block \<and> serialised_number block factor mod 2 ^ 32 = scaled_factor factor"
proof -
  let ?n = "serialised_number block factor"
  have "drop_bit 32 (scaled_factor factor) = 0" using assms by (simp add: drop_bit_eq_div)
  then have "drop_bit 32 ?n = unat block" by (simp add: serialised_number_def drop_bit_push_bit)
  moreover have "take_bit 32 ?n = scaled_factor factor"
    using assms by (simp add: serialised_number_def take_bit_push_bit take_bit_nat_eq_self)
  ultimately show ?thesis by (simp add: drop_bit_eq_div take_bit_eq_mod)
qed

section \<open>Properties\<close>

text \<open>A client can read the block number and the confidence back from the serialised confidence: the decimal text parses to a number
  whose upper part is the block number and whose lower 32 bits are ten million times the confidence, rounded down. The
  confidences that \<open>calculate_confidence\<close> returns never reach into the block number.\<close>

theorem serialised_confidence_roundtrip:
  "\<exists>n. serialised_confidence block (calculate_confidence cnt) = Some (show_nat n) \<and>
     n div 2 ^ 32 = unat block \<and> n mod 2 ^ 32 = scaled_factor (calculate_confidence cnt)"
  using serialised_number_parts [of "calculate_confidence cnt" block] scaled_factor_confidence [of cnt]
  by (auto simp: serialised_confidence_def)

text \<open>The confidence of a block whose number of verified cells is not stored is the configured one as soon as a later block
  has been sampled, also when the block itself was never sampled, because it lies before the first sampled block.\<close>

theorem v1_confidence_of_unsampled_block:
  assumes "db_get_count d n = Ok None" "st_confidence_achieved st = Some rng" "n < br_first rng" "br_first rng \<le> br_last rng"
  shows "\<not> range_contains (st_confidence_achieved st) n \<and>
    (\<exists>r. v1_confidence n d st cfg = Normal r \<and> cr_confidence r = calculate_confidence (cell_count_for_confidence (confidence cfg)))"
proof -
  have "n \<le> br_last rng" using assms(3,4) by simp
  with assms show ?thesis
    by (simp add: v1_confidence_def is_synced_def Let_def range_contains_iff range_first_def not_le)
qed

theorem v1_confidence_of_unsampled_block_witness:
  "\<exists>r. v1_confidence 3 db_empty (state_default\<lparr>st_confidence_achieved := Some \<lparr>br_first = 5, br_last = 6\<rparr>\<rparr>) runtime_config_default = Normal r \<and>
     cr_confidence r = calculate_confidence (cell_count_for_confidence (confidence runtime_config_default))"
  using v1_confidence_of_unsampled_block [of db_empty 3
      "state_default\<lparr>st_confidence_achieved := Some \<lparr>br_first = 5, br_last = 6\<rparr>\<rparr>" "\<lparr>br_first = 5, br_last = 6\<rparr>" runtime_config_default]
  by (simp add: db_get_count_def db_get_def db_empty_def)

end
