(* ===== verification/End_To_End.thy ===== *)
theory End_To_End
  imports Light_Client Api_V1
begin

text \<open>
  Properties of the light client together with the parts it relies on: the choice of random cells and the cell count of \<open>Sampling\<close>, the
  verified fetch of \<open>Network\<close>, the database, and the API that reports the confidence.
\<close>

lemma cell_count_u16: "cell_count_for_confidence c < 65536"
  using cell_count_range [of c] by (simp add: word_le_nat_alt word_less_nat_alt)

lemma api_reports_stored_count:
  assumes "db_entries d (VerifiedCellCount n) = Some (CountValue cnt)" "db_get_fault d (VerifiedCellCount n) = None"
  shows "\<exists>r. v1_confidence n d st cfg = Normal r \<and> cr_confidence r = calculate_confidence cnt"
  using assms by (simp add: v1_confidence_def db_get_count_def db_get_def Let_def)

text \<open>The sampled cells are as many as the cell count asks for.\<close>

lemma sampled_count:
  assumes "sampled K hdr positions_of n dims fetched"
    and "\<And>rows cols rt cms d. extract_kate (h_extension hdr) = Some (rows, cols, rt, cms) \<Longrightarrow> dimensions_new K rows cols = Some d \<Longrightarrow>
      n \<le> extended_size K d \<and> generate_random_cells K permute d n draws = Some (positions_of d n)"
    and "\<And>ps. mset (permute ps) = mset ps" "n < 65536"
  shows "length fetched = unat n"
proof -
  have g: "n \<le> extended_size K dims" "generate_random_cells K permute dims n draws = Some (positions_of dims n)"
    and len: "length fetched = length (positions_of dims n)"
    using assms(1,2) by (auto simp: sampled_def)
  with generate_random_cells_shape [OF g(2) assms(3,4) g(1)] show ?thesis by simp
qed

lemma count_for_60: "cell_count_for_confidence (Fin 60) = 2"
proof -
  obtain k where k: "count_for (60 / 100) = word_of_nat k" "1 \<le> k" "k \<le> 14"
      "60 \<le> (100 :: real) * (1 - 1 / 2 ^ k)" "(100 :: real) * (1 - 1 / 2 ^ (k - 1)) < 60"
    using count_for_bounds [of 60] by auto
  have "k \<noteq> 1" using k(4) by auto
  moreover have "k < 3"
  proof (rule ccontr)
    assume "\<not> k < 3"
    then have "(1 :: real) / 2 ^ (k - 1) \<le> 1 / 2 ^ 2" by (intro divide_left_mono power_increasing) auto
    also have "\<dots> = 1 / 4" by simp
    finally show False using k(5) by argo
  qed
  ultimately have "k = 2" using k(2) by simp
  with k(1) show ?thesis by (simp add: cell_count_for_confidence_def CELL_COUNT_99_99_def word_le_nat_alt word_less_nat_alt)
qed

lemma sample_random_cells:
  "generate_random_cells sample_kate rev (1, 4) 2 [(0, 1), (2, 1)] = Some sample_requested"
  by (simp add: generate_random_cells_def draw_cells.simps draw_position_def sample_requested_def sample_cell_def word_less_nat_alt
      word_le_nat_alt)

section \<open>Properties\<close>



end
