(* ===== verification/Program_Confidence.thy ===== *)
theory Program_Confidence
  imports Program Api_V2
begin

text \<open>
  Where the confidence that the API reports comes from, for the whole program: in every run, with all tasks interleaved, a count of verified cells
  in the database is the size of a sample of the configured size, all of which was verified against the commitments of a header of that block.

  The contract \<open>sampled_entry\<close> of the database is an interpretation of \<open>db_writers\<close>; only the light client and the sync client put
  counts, and what they put rests on the contract of the network client.
\<close>

definition sampled_entry :: "('dim, 'lk) kate \<Rightarrow> u32 \<Rightarrow> database \<Rightarrow> key \<Rightarrow> db_value \<Rightarrow> bool" where
  "sampled_entry K cnt d0 k v \<longleftrightarrow>
     (case k of
        VerifiedCellCount n \<Rightarrow>
          db_entries d0 k = Some v \<or>
          (\<exists>hdr positions_of dims fetched.
             h_number hdr = n \<and> sampled K hdr positions_of cnt dims fetched \<and> v = CountValue (word_of_nat (length fetched)))
      | _ \<Rightarrow> True)"

section \<open>The light client\<close>

lemma light_store_counts:
  "counts (snd (light_store_confidence hdr n s)) = counts s \<or>
   counts (snd (light_store_confidence hdr n s)) = (counts s)(h_number hdr := Some (CountValue (word_of_nat n)))"
  by (auto simp: light_store_confidence_def snd_op_bind op_return_def Let_def counts_def fun_eq_iff on_db_def db_put_op_def db_put_def
      split: res.splits option.splits)

lemma counts_metric [simp]: "counts (cs_metric ms s) = counts s"
  by (simp add: counts_def fun_eq_iff)

context network_client
begin

lemma light_process_block_counts:
  assumes dist: "\<And>d c. distinct (positions_of d c)"
  shows "counts_from_samples K (\<lambda>_. positions_of) (cell_count_for_confidence (lc_confidence cfg)) s
    (snd (light_process_block K fetch positions_of cfg hdr s))"
proof -
  let ?cnt = "cell_count_for_confidence (lc_confidence cfg)"
  let ?s' = "snd (light_process_block K fetch positions_of cfg hdr s)"
  have "counts ?s' = counts s \<or>
    (\<exists>dims fetched. sampled K hdr positions_of ?cnt dims fetched \<and>
       counts ?s' = (counts s)(h_number hdr := Some (CountValue (word_of_nat (length fetched)))))"
  proof (cases "\<exists>rows cols rt commitment dims commitments. extract_kate (h_extension hdr) = Some (rows, cols, rt, commitment) \<and>
      dimensions_new K rows cols = Some dims \<and> 2 < dim_cols K dims \<and> commitments_from_slice K commitment = Ok commitments")
    case False
    then show ?thesis
      by (auto simp: light_process_block_def Let_def snd_op_bind op_return_def op_lift_def not_le split: option.splits prod.splits res.splits)
  next
    case True
    then obtain rows cols rt commitment dims commitments where
      k: "extract_kate (h_extension hdr) = Some (rows, cols, rt, commitment)" "dimensions_new K rows cols = Some dims"
        "2 < dim_cols K dims" "commitments_from_slice K commitment = Ok commitments" by blast
    let ?ps = "positions_of dims ?cnt"
    obtain r t where f: "fetch (h_number hdr) (hash_of K hdr) dims commitments ?ps (cs_net s) = (r, t)" by fastforce
    show ?thesis
    proof (cases "\<exists>fetched unfetched stats. r = Ok (fetched, unfetched, stats) \<and> length ?ps \<le> length fetched")
      case False
      then show ?thesis using k f
        by (cases r) (auto simp: light_process_block_def Let_def snd_op_bind op_lift_def on_net_def not_le)
    next
      case True
      then obtain fetched unfetched stats where r: "r = Ok (fetched, unfetched, stats)" "length ?ps \<le> length fetched" by blast
      have "sampled K hdr positions_of ?cnt dims fetched"
        using fetch_all [OF f [unfolded r(1)] dist r(2)] k by (auto simp: sampled_def)
      moreover have "\<exists>s1. counts s1 = counts s \<and> ?s' = snd (light_store_confidence hdr (length fetched) s1)"
        using k f r
        by (auto simp: light_process_block_def Let_def snd_op_bind op_lift_def on_net_def not_le [symmetric]
            intro!: exI [of _ "cs_metric ms (cs_metric ms' s\<lparr>cs_net := t\<rparr>)" for ms ms'])
      ultimately show ?thesis using light_store_counts by metis
    qed
  qed
  then show ?thesis unfolding counts_from_samples_def by (metis fun_upd_apply)
qed

lemma light_client_run_counts:
  assumes "light_client_run K fetch cfg [i] s = (r, s')" "\<And>d c. distinct (bi_positions i d c)"
  shows "counts_from_samples K (\<lambda>_. bi_positions i) (cell_count_for_confidence (lc_confidence cfg)) s s'"
proof -
  have frames: "counts (processing_delay d e s) = counts s" "counts (cs_trigger_shutdown m s) = counts s" for d e m and s :: "('a, 'b, 'c) client_sys"
    by (simp_all add: counts_def fun_eq_iff)
  have block: "counts_from_samples K (\<lambda>_. bi_positions i) (cell_count_for_confidence (lc_confidence cfg)) s s2"
    if "light_process_block K fetch (bi_positions i) cfg hdr (processing_delay d e s) = (x, s2)" for hdr d e x s2
    using light_process_block_counts [of "bi_positions i" cfg "processing_delay d e s" hdr] assms(2) that by (simp add: counts_from_samples_def frames)
  have same: "counts_from_samples K q c s s2 \<Longrightarrow> counts s3 = counts s2 \<Longrightarrow> counts_from_samples K q c s s3" for q c s2 s3
    by (simp add: counts_from_samples_def)
  show ?thesis
    using assms(1)
    by (auto simp: Let_def counts_from_samples_refl frames dest!: block intro: same
        split: res.splits event.splits prod.splits)
qed

end

section \<open>The database\<close>

interpretation stored_counts: db_writers "sampled_entry K cnt d0" for K cnt d0
  by unfold_locales (simp_all add: sampled_entry_def)

lemma nodes_unconstrained: "headers_admitted (sampled_entry K cnt d0) f" "node_headers_admitted (sampled_entry K cnt d0) R"
  by (simp_all add: headers_admitted_def node_headers_admitted_def sampled_entry_def)

lemma counts_admitted:
  assumes "counts_from_samples K positions cnt s s'" "entries_admitted (sampled_entry K cnt d0) (cs_db s)"
  shows "entries_admitted (sampled_entry K cnt d0) (cs_db s')"
  unfolding entries_admitted_def
proof (intro allI impI)
  fix k v
  assume v: "db_entries (cs_db s') k = Some v"
  show "sampled_entry K cnt d0 k v"
  proof (cases k)
    case (VerifiedCellCount n)
    then have new: "counts s' n = Some v" using v by (simp add: counts_def)
    from assms(1) consider "counts s' n = counts s n"
      | m hdr dims fetched where "h_number hdr = n" "sampled K hdr (positions m) cnt dims fetched"
        "counts s' n = Some (CountValue (word_of_nat (length fetched)))"
      unfolding counts_from_samples_def by blast
    then show ?thesis
    proof cases
      case 1
      then show ?thesis using assms(2) new VerifiedCellCount by (simp add: entries_admitted_def counts_def)
    next
      case 2
      then show ?thesis using new VerifiedCellCount by (auto simp: sampled_entry_def)
    qed
  qed (simp_all add: sampled_entry_def)
qed

lemma program_step_sampled:
  assumes "program_step E p p'" and db: "entries_admitted (sampled_entry (se_kate (pe_sub E)) (cell_count_for_confidence (confidence (pe_cfg E))) d0) (cs_db (pg_shared p))"
  shows "entries_admitted (sampled_entry (se_kate (pe_sub E)) (cell_count_for_confidence (confidence (pe_cfg E))) d0) (cs_db (pg_shared p'))"
proof (rule stored_counts.program_step_admitted [OF assms nodes_unconstrained])
  fix fetch i r s
  assume "light_client_run (se_kate (pe_sub E)) fetch (light_client_config_of (pe_cfg E)) [i] (pg_shared p) = (r, s)"
    "network_client (se_kate (pe_sub E)) fetch" "\<forall>d c. distinct (bi_positions i d c)"
  from network_client.light_client_run_counts [OF this(2,1)] this(3) counts_admitted [OF _ db]
  show "entries_admitted (sampled_entry (se_kate (pe_sub E)) (cell_count_for_confidence (confidence (pe_cfg E))) d0) (cs_db s)"
    by (simp add: light_client_config_of_def)
next
  fix S n r s
  assume S: "sy_config S = sync_client_config_of (pe_cfg E)" "sync_one S n (pg_shared p) = (r, s)" "sy_kate S = se_kate (pe_sub E)"
    "network_client (se_kate (pe_sub E)) (sy_fetch S)" "\<forall>m d c. distinct (sy_positions S m d c)"
  from network_client.sync_one_counts [OF S(4,3) refl, of n "pg_shared p"] S(1,2,5) counts_admitted [OF _ db]
  show "entries_admitted (sampled_entry (se_kate (pe_sub E)) (cell_count_for_confidence (confidence (pe_cfg E))) d0) (cs_db s)"
    by (simp add: sync_client_config_of_def)
qed

interpretation sampled_program: invariant_steps "program_step E"
    "\<lambda>p. entries_admitted (sampled_entry (se_kate (pe_sub E)) (cell_count_for_confidence (confidence (pe_cfg E))) d0) (cs_db (pg_shared p))" for E d0
  by unfold_locales (rule program_step_sampled)

lemma sample_block_sampled:
  fixes s :: "((unit, string) rpc_client net_state, u16 \<times> u16, (u32 \<times> u32) list) client_sys"
  assumes "cs_db s = db_empty" "cs_net s = sample_net_state"
  shows "\<exists>s'. light_process_block sample_kate (fetch_verified (sample_net\<lparr>ne_request := request_kate_proof sample_subxt sample_node_api one_attempt\<rparr>))
      (\<lambda>_ _. sample_requested) cfg (sample_header n) s = (Ok (Some (Fin 75)), s') \<and>
    db_entries (cs_db s') (VerifiedCellCount n) = Some (CountValue 2) \<and> db_entries (cs_db s') (BlockHeader n) = Some (HeaderValue (sample_header n)) \<and>
    db_get_fault (cs_db s') = (\<lambda>_. None) \<and> cs_state s' = confidence_achieved n (cs_state s)"
  using assms
  by (simp add: light_process_block_def Let_def op_bind_def on_net_def sample_fetch light_store_confidence_def
      op_wrap_err_def on_db_def db_put_op_def db_put_def db_empty_def cs_metric_def on_state_def op_return_def op_lift_def
      calculate_confidence_def length_sample_requested word_le_nat_alt)

section \<open>Properties\<close>


lemma sample_program_sampled:
  "\<exists>(p0 :: ((unit, string) rpc_client, u16 \<times> u16, (u32 \<times> u32) list) program) p block. (program_step sample_program_env)\<^sup>*\<^sup>* p0 p \<and> cs_db (pg_shared p0) = db_empty \<and>
     v2_block_handler 4 runtime_config_default (cs_state (pg_shared p)) (cs_db (pg_shared p)) = Ok block \<and>
     vb_confidence block = Some (Fin 75) \<and> vb_status block = Unavailable"
proof -
  let ?step = "program_step sample_program_env"
  let ?fetch = "fetch_verified (sample_net\<lparr>ne_request := request_kate_proof sample_subxt sample_node_api one_attempt\<rparr>)"
  let ?i = "\<lparr>bi_event = Ok (HeaderUpdate (sample_header 4) 0), bi_elapsed = 0, bi_positions = \<lambda>_ _. sample_requested, bi_receiver_alive = True\<rparr>"
  let ?cfg = "light_client_config_of runtime_config_default"
  have env: "se_kate (pe_sub sample_program_env) = sample_kate" "pe_cfg sample_program_env = runtime_config_default"
    "block_matrix_partition runtime_config_default = None" "sync_start_block runtime_config_default = None" "lc_block_processing_delay ?cfg = Some 20"
    by (simp_all add: sample_program_env_def sample_sub_env_def runtime_config_default_def light_client_config_of_def)
  obtain p0 p where run: "?step\<^sup>*\<^sup>* p0 p" and start: "cs_db (pg_shared p0) = db_empty" "pg_head p \<noteq> None" "pg_blocks p = 0"
    "sl_events (pg_sub p) = [HeaderUpdate (sample_header 4) 0, HeaderUpdate (sample_header 5) 0]"
    "cs_db (pg_shared p) = db_empty" "cs_net (pg_shared p) = sample_net_state"
    "st_latest (cs_state (pg_shared p)) = 4" "st_header_verified (cs_state (pg_shared p)) = Some (block_range_init 5)"
    using sample_program_started by blast
  obtain s2 where block: "light_process_block sample_kate ?fetch (\<lambda>_ _. sample_requested) ?cfg (sample_header 4)
      (processing_delay (lc_block_processing_delay ?cfg) 0 (pg_shared p)) = (Ok (Some (Fin 75)), s2)"
    and stored: "db_entries (cs_db s2) (VerifiedCellCount 4) = Some (CountValue 2)" "db_entries (cs_db s2) (BlockHeader 4) = Some (HeaderValue (sample_header 4))"
      "db_get_fault (cs_db s2) = (\<lambda>_. None)" "cs_state s2 = confidence_achieved 4 (cs_state (pg_shared p))"
    using sample_block_sampled [where s = "processing_delay (lc_block_processing_delay ?cfg) 0 (pg_shared p)" and cfg = ?cfg and n = 4] start(5,6)
    by (auto simp: processing_delay_def split: option.splits)
  obtain r s where s: "light_client_run sample_kate ?fetch ?cfg [?i] (pg_shared p) = (r, s)" "cs_db s = cs_db s2" "cs_state s = cs_state s2"
    using block by (cases "block_verified_try_from sample_kate (sample_header 4) (Some (Fin 75))") (auto simp: send_verified_def)
  have "?step p (p\<lparr>pg_shared := s, pg_blocks := Suc (pg_blocks p)\<rparr>)"
    by (rule program_step.light_client_block [where i = ?i and fetch = ?fetch])
      (use start s(1) net.network_client_axioms [where E = sample_net] sample_net_ok in \<open>simp_all add: env sample_net_def\<close>)
  with run have "?step\<^sup>*\<^sup>* p0 (p\<lparr>pg_shared := s, pg_blocks := Suc (pg_blocks p)\<rparr>)" by (rule rtranclp.rtrancl_into_rtrancl)
  moreover have "v2_block_handler 4 runtime_config_default (cs_state s) (cs_db s) = Ok \<lparr>vb_status = Unavailable, vb_confidence = Some (Fin 75)\<rparr>"
    using start stored s
    by (simp add: v2_block_handler_def stored_block_status_def db_get_header_def db_get_count_def db_get_def block_status_def Let_def res_simps or_internal_def
        confidence_achieved_def range_first_def block_range_init_def calculate_confidence_def env)
  ultimately show ?thesis using start(1)
    by (intro exI [of _ p0] exI [of _ "p\<lparr>pg_shared := s, pg_blocks := Suc (pg_blocks p)\<rparr>"]) simp
qed


end
