(* ===== verification/Http_Routes.thy ===== *)
theory Http_Routes
  imports Api_V1 Api_V2
begin

text \<open>
  The HTTP server: the routes of both versions of the API (\<open>src/api/v1/mod.rs\<close>, \<open>src/api/v2/mod.rs\<close>), the health check and the
  start of the server (\<open>src/api/server.rs\<close>).

  The filters and the combinator \<open>or\<close> of the crate \<open>warp\<close> are parameters; \<open>warp_ok\<close> states what their documentation
  promises. A route takes the request and the state of the server and gives a rejection or a reply; a reply holds the value before it is
  rendered as JSON.

  The lemmas show that the chain of routes is the table \<open>endpoint_at\<close> of methods and paths: the order in which the routes are tried does not
  matter, every endpoint is answered by its own handler, and every other request is rejected without an effect.
\<close>

section \<open>The filters\<close>

datatype http_method = Get | Post | Head | OtherMethod string

text \<open>\<open>w_path\<close> is \<open>path!\<close> of literal segments, \<open>w_path_u32\<close> has a \<open>u32\<close> between literal segments, \<open>w_path_string\<close> ends with a \<open>String\<close>, and \<open>w_prefix\<close> is
  \<open>warp::path\<close>. The others are \<open>warp::method\<close>, \<open>warp::query\<close>, \<open>warp::body::json\<close>, \<open>warp::ws\<close>, \<open>reject::not_found\<close>, \<open>Rejection::find\<close> for
  \<open>InternalServerError\<close>, and \<open>Filter::or\<close> for routes.\<close>

record ('req, 'rej, 'route) warp =
  w_path :: "string list \<Rightarrow> 'req \<Rightarrow> ('rej, unit) res"
  w_path_u32 :: "string list \<Rightarrow> string list \<Rightarrow> 'req \<Rightarrow> ('rej, u32) res"
  w_path_string :: "string list \<Rightarrow> 'req \<Rightarrow> ('rej, string) res"
  w_prefix :: "string \<Rightarrow> 'req \<Rightarrow> ('rej, unit) res"
  w_method :: "http_method \<Rightarrow> 'req \<Rightarrow> ('rej, unit) res"
  w_query_app_data :: "'req \<Rightarrow> ('rej, bool option) res"
  w_query_data :: "'req \<Rightarrow> ('rej, data_field set option) res"
  w_json_subscription :: "'req \<Rightarrow> ('rej, api_subscription) res"
  w_json_transaction :: "'req \<Rightarrow> ('rej, transaction) res"
  w_json_peer :: "'req \<Rightarrow> ('rej, peer_id \<times> multiaddr) res"
  w_ws :: "'req \<Rightarrow> ('rej, unit) res"
  w_not_found :: 'rej
  w_finds_internal :: "'rej \<Rightarrow> bool"
  w_or :: "'route \<Rightarrow> 'route \<Rightarrow> 'route"

section \<open>The server\<close>

datatype 'xt api_reply =
    HealthReply
  | InternalReply
  | ErrorReply api_error
  | ModeReply "mode client_response"
  | LatestBlockReply "u32 client_response"
  | ConfidenceReply "confidence_response client_response"
  | AppdataReply "'xt extrinsics_data_response client_response"
  | V1StatusReply "v1_status client_response"
  | VersionReply version
  | StatusReply v2_status
  | BlockReply v2_block
  | HeaderReply api_header
  | DataReply data_response
  | SubscriptionReply string
  | SubmitReply submit_response
  | WsUpgrade
  | PeerInfoReply peer_info_response
  | DialReply dial_response

text \<open>What the handlers read and change; \<open>hs_log\<close> are the lines that are logged as errors.\<close>

record 'n http_sys =
  hs_db :: database
  hs_state :: state
  hs_clients :: ws_clients
  hs_channels :: ws_channels
  hs_node :: 'n
  hs_commands :: command_queue
  hs_log :: "string list"

type_synonym ('req, 'rej, 'n, 'xt) route = "'req \<Rightarrow> 'n http_sys \<Rightarrow> ('rej, 'xt api_reply) res \<times> 'n http_sys"

text \<open>The server with the operations of other crates that its handlers take.\<close>

record ('xt, 'dim, 'lk, 'n) server =
  sv_cfg :: runtime_config
  sv_version :: string
  sv_network_version :: string
  sv_kate :: "('dim, 'lk) kate"
  sv_decode_xt :: "bytes \<Rightarrow> 'xt result"
  sv_call_of :: "'xt \<Rightarrow> runtime_call"
  sv_base64 :: "bytes \<Rightarrow> string"
  sv_show_h256 :: "h256 \<Rightarrow> string"
  sv_submit_api :: "'n submit_api"
  sv_dial_env :: dial_env
  sv_parse_request :: "string \<Rightarrow> request result"
  sv_response_json :: "ws_response \<Rightarrow> string result"
  sv_error_json :: "api_error \<Rightarrow> string result"

text \<open>What the surroundings give while a request is served: the new identifier, the answers of the event loop, the sender of a
  socket and what arrives on it.\<close>

record serving =
  sg_new_id :: string
  sg_alive :: bool
  sg_channel :: channel
  sg_info_replies :: "channel \<Rightarrow> local_info result option"
  sg_dial_replies :: "channel \<Rightarrow> connection_info result option"
  sg_sender :: sender
  sg_socket :: "(socket_item \<times> state) list"

section \<open>Building blocks\<close>

text \<open>\<open>and\<close>: what the next part of a route sees of a filter.\<close>

fun filter_then :: "('rej, 'a) res \<Rightarrow> ('a \<Rightarrow> 's \<Rightarrow> ('rej, 'b) res \<times> 's) \<Rightarrow> 's \<Rightarrow> ('rej, 'b) res \<times> 's" where
  "filter_then (Ok x) k s = k x s"
| "filter_then (Err e) k s = (Err e, s)"
| "filter_then (Panic m) k s = (Panic m, s)"

definition optionally :: "'rej \<Rightarrow> 'a option \<Rightarrow> ('rej, 'a) res" where
  "optionally not_found v = (case v of Some x \<Rightarrow> Ok x | None \<Rightarrow> Err not_found)"

definition log_internal_server_error :: "(api_error, 'a) res \<Rightarrow> string list \<Rightarrow> string list" where
  "log_internal_server_error r lines =
     (case r of
        Err e \<Rightarrow>
          (case er_cause e of
             Some cause \<Rightarrow>
               if er_error_code e = InternalServerErrorCode then lines @ [er_message e @ '': '' @ report_text cause] else lines
           | None \<Rightarrow> lines)
      | _ \<Rightarrow> lines)"

text \<open>\<open>map(log_internal_server_error)\<close> and the reply that warp makes of the result.\<close>

definition logged_reply :: "('a \<Rightarrow> 'xt api_reply) \<Rightarrow> (api_error, 'a) res \<Rightarrow> 'n http_sys \<Rightarrow> ('rej, 'xt api_reply) res \<times> 'n http_sys" where
  "logged_reply reply_of r s =
     (case r of Ok x \<Rightarrow> Ok (reply_of x) | Err e \<Rightarrow> Ok (ErrorReply e) | Panic m \<Rightarrow> Panic m,
      s\<lparr>hs_log := log_internal_server_error r (hs_log s)\<rparr>)"

section \<open>Routes of version 1\<close>

definition v1_mode_route ::
    "('req, 'rej, ('req, 'rej, 'n, 'xt) route) warp \<Rightarrow> ('xt, 'dim, 'lk, 'n) server \<Rightarrow> ('req, 'rej, 'n, 'xt) route" where
  "v1_mode_route W S req = filter_then (w_path W [''v1'', ''mode''] req) (\<lambda>_ s. (Ok (ModeReply (v1_mode (app_id (sv_cfg S)))), s))"

definition v1_latest_block_route ::
    "('req, 'rej, ('req, 'rej, 'n, 'xt) route) warp \<Rightarrow> ('req, 'rej, 'n, 'xt) route" where
  "v1_latest_block_route W req =
     filter_then (w_path W [''v1'', ''latest_block''] req) (\<lambda>_ s. (Ok (LatestBlockReply (latest_block (hs_state s))), s))"

definition v1_confidence_route ::
    "('req, 'rej, ('req, 'rej, 'n, 'xt) route) warp \<Rightarrow> ('xt, 'dim, 'lk, 'n) server \<Rightarrow> ('req, 'rej, 'n, 'xt) route" where
  "v1_confidence_route W S req =
     filter_then (w_path_u32 W [''v1'', ''confidence''] [] req) (\<lambda>n s.
       (Ok (ConfidenceReply (v1_confidence n (hs_db s) (hs_state s) (sv_cfg S))), s))"

definition v1_appdata_route ::
    "('req, 'rej, ('req, 'rej, 'n, 'xt) route) warp \<Rightarrow> ('xt, 'dim, 'lk, 'n) server \<Rightarrow> ('req, 'rej, 'n, 'xt) route" where
  "v1_appdata_route W S req =
     filter_then (w_path_u32 W [''v1'', ''appdata''] [] req) (\<lambda>n.
     filter_then (w_query_app_data W req) (\<lambda>query s.
       (Ok (AppdataReply (appdata (sv_decode_xt S) (sv_call_of S) (sv_base64 S) n query (hs_db s) (app_id (sv_cfg S)) (hs_state s))), s)))"

definition v1_status_route ::
    "('req, 'rej, ('req, 'rej, 'n, 'xt) route) warp \<Rightarrow> ('xt, 'dim, 'lk, 'n) server \<Rightarrow> ('req, 'rej, 'n, 'xt) route" where
  "v1_status_route W S req =
     filter_then (w_path W [''v1'', ''status''] req) (\<lambda>_ s.
       (Ok (V1StatusReply (v1_status_handler (app_id (sv_cfg S)) (hs_state s) (hs_db s))), s))"

definition v1_routes ::
    "('req, 'rej, ('req, 'rej, 'n, 'xt) route) warp \<Rightarrow> ('xt, 'dim, 'lk, 'n) server \<Rightarrow> ('req, 'rej, 'n, 'xt) route" where
  "v1_routes W S req =
     filter_then (w_method W Get req) (\<lambda>_.
       w_or W (w_or W (w_or W (w_or W (v1_mode_route W S) (v1_latest_block_route W)) (v1_confidence_route W S)) (v1_appdata_route W S))
         (v1_status_route W S) req)"

section \<open>Routes of version 2\<close>

definition version_route ::
    "('req, 'rej, ('req, 'rej, 'n, 'xt) route) warp \<Rightarrow> version \<Rightarrow> ('req, 'rej, 'n, 'xt) route" where
  "version_route W v req =
     filter_then (w_path W [''v2'', ''version''] req) (\<lambda>_. filter_then (w_method W Get req) (\<lambda>_ s. (Ok (VersionReply v), s)))"

definition status_route ::
    "('req, 'rej, ('req, 'rej, 'n, 'xt) route) warp \<Rightarrow> ('xt, 'dim, 'lk, 'n) server \<Rightarrow> ('req, 'rej, 'n, 'xt) route" where
  "status_route W S req =
     filter_then (w_path W [''v2'', ''status''] req) (\<lambda>_. filter_then (w_method W Get req) (\<lambda>_ s.
       (Ok (StatusReply (v2_status_handler (sv_show_h256 S) (sv_cfg S) (hs_state s))), s)))"

definition block_route ::
    "('req, 'rej, ('req, 'rej, 'n, 'xt) route) warp \<Rightarrow> ('xt, 'dim, 'lk, 'n) server \<Rightarrow> ('req, 'rej, 'n, 'xt) route" where
  "block_route W S req =
     filter_then (w_path_u32 W [''v2'', ''blocks''] [] req) (\<lambda>n. filter_then (w_method W Get req) (\<lambda>_ s.
       logged_reply BlockReply (v2_block_handler n (sv_cfg S) (hs_state s) (hs_db s)) s))"

definition block_header_route ::
    "('req, 'rej, ('req, 'rej, 'n, 'xt) route) warp \<Rightarrow> ('xt, 'dim, 'lk, 'n) server \<Rightarrow> ('req, 'rej, 'n, 'xt) route" where
  "block_header_route W S req =
     filter_then (w_path_u32 W [''v2'', ''blocks''] [''header''] req) (\<lambda>n. filter_then (w_method W Get req) (\<lambda>_ s.
       logged_reply HeaderReply (v2_block_header (sv_kate S) n (sv_cfg S) (hs_state s) (hs_db s)) s))"

definition block_data_route ::
    "('req, 'rej, ('req, 'rej, 'n, 'xt) route) warp \<Rightarrow> ('xt, 'dim, 'lk, 'n) server \<Rightarrow> ('req, 'rej, 'n, 'xt) route" where
  "block_data_route W S req =
     filter_then (w_path_u32 W [''v2'', ''blocks''] [''data''] req) (\<lambda>n. filter_then (w_method W Get req) (\<lambda>_.
     filter_then (w_query_data W req) (\<lambda>query s.
       logged_reply DataReply (v2_block_data (sv_kate S) n query (sv_cfg S) (hs_state s) (hs_db s)) s)))"

definition submit_route ::
    "('req, 'rej, ('req, 'rej, 'n, 'xt) route) warp \<Rightarrow> (transaction \<Rightarrow> ('n, submit_response) op) option \<Rightarrow> ('req, 'rej, 'n, 'xt) route" where
  "submit_route W submitter req =
     filter_then (w_path W [''v2'', ''submit''] req) (\<lambda>_. filter_then (w_method W Post req) (\<lambda>_.
     filter_then (optionally (w_not_found W) submitter) (\<lambda>sub. filter_then (w_json_transaction W req) (\<lambda>t s.
       case v2_submit sub t (hs_node s) of (r, n') \<Rightarrow> logged_reply SubmitReply r (s\<lparr>hs_node := n'\<rparr>)))))"

definition p2p_local_info_route ::
    "('req, 'rej, ('req, 'rej, 'n, 'xt) route) warp \<Rightarrow> serving \<Rightarrow> ('req, 'rej, 'n, 'xt) route" where
  "p2p_local_info_route W G req =
     filter_then (w_path W [''v2'', ''p2p'', ''local'', ''info''] req) (\<lambda>_. filter_then (w_method W Get req) (\<lambda>_ s.
       case get_peer_info (sg_alive G) (sg_channel G) (sg_info_replies G) (hs_commands s) of
         (r, q) \<Rightarrow> logged_reply PeerInfoReply r (s\<lparr>hs_commands := q\<rparr>)))"

definition p2p_peers_dial_route ::
    "('req, 'rej, ('req, 'rej, 'n, 'xt) route) warp \<Rightarrow> ('xt, 'dim, 'lk, 'n) server \<Rightarrow> serving \<Rightarrow> ('req, 'rej, 'n, 'xt) route" where
  "p2p_peers_dial_route W S G req =
     filter_then (w_path W [''v2'', ''p2p'', ''peers'', ''dial''] req) (\<lambda>_. filter_then (w_method W Post req) (\<lambda>_.
     filter_then (w_json_peer W req) (\<lambda>(p, a) s.
       case dial_external_peer (sv_dial_env S) (sg_alive G) (sg_channel G) (sg_dial_replies G) p a (hs_commands s) of
         (r, q) \<Rightarrow> logged_reply DialReply r (s\<lparr>hs_commands := q\<rparr>))))"

definition subscriptions_route ::
    "('req, 'rej, ('req, 'rej, 'n, 'xt) route) warp \<Rightarrow> serving \<Rightarrow> ('req, 'rej, 'n, 'xt) route" where
  "subscriptions_route W G req =
     filter_then (w_path W [''v2'', ''subscriptions''] req) (\<lambda>_. filter_then (w_method W Post req) (\<lambda>_.
     filter_then (w_json_subscription W req) (\<lambda>sub s.
       case subscriptions (sg_new_id G) sub (hs_clients s) of
         (i, clients) \<Rightarrow> (Ok (SubscriptionReply i), s\<lparr>hs_clients := clients\<rparr>))))"

definition ws_env_of :: "('xt, 'dim, 'lk, 'n) server \<Rightarrow> version \<Rightarrow> (transaction \<Rightarrow> ('n, submit_response) op) option \<Rightarrow> 'n ws_env" where
  "ws_env_of S v submitter =
     \<lparr>we_parse = sv_parse_request S, we_show_h256 = sv_show_h256 S, we_version = v, we_config = sv_cfg S, we_submitter = submitter,
      we_response_json = sv_response_json S, we_error_json = sv_error_json S\<rparr>"

definition ws_route ::
    "('req, 'rej, ('req, 'rej, 'n, 'xt) route) warp \<Rightarrow> 'n ws_env \<Rightarrow> serving \<Rightarrow> ('req, 'rej, 'n, 'xt) route" where
  "ws_route W E G req =
     filter_then (w_path_string W [''v2'', ''ws''] req) (\<lambda>i. filter_then (w_ws W req) (\<lambda>_ s.
       case v2_ws E i (sg_sender G) (sg_socket G) (hs_clients s, hs_channels s, hs_node s) of
         (Ok _, clients, chs, n) \<Rightarrow> (Ok WsUpgrade, s\<lparr>hs_clients := clients, hs_channels := chs, hs_node := n\<rparr>)
       | _ \<Rightarrow> (Err (w_not_found W), s)))"

definition handle_rejection :: "('req, 'rej, 'route) warp \<Rightarrow> 'rej \<Rightarrow> ('rej, 'xt api_reply) res" where
  "handle_rejection W e = (if w_finds_internal W e then Ok InternalReply else Err e)"

definition v2_version :: "('xt, 'dim, 'lk, 'n) server \<Rightarrow> version" where
  "v2_version S = \<lparr>ve_version = sv_version S, ve_network_version = sv_network_version S\<rparr>"

definition v2_submitter :: "('xt, 'dim, 'lk, 'n) server \<Rightarrow> (transaction \<Rightarrow> ('n, submit_response) op) option" where
  "v2_submitter S = map_option (submitter_submit (sv_submit_api S)) (app_id (sv_cfg S))"

definition v2_routes ::
    "('req, 'rej, ('req, 'rej, 'n, 'xt) route) warp \<Rightarrow> ('xt, 'dim, 'lk, 'n) server \<Rightarrow> serving \<Rightarrow> ('req, 'rej, 'n, 'xt) route" where
  "v2_routes W S G req s =
     (case w_or W (w_or W (w_or W (w_or W (w_or W (w_or W (w_or W (w_or W (w_or W
        (version_route W (v2_version S))
        (status_route W S)) (block_route W S)) (block_header_route W S)) (block_data_route W S)) (subscriptions_route W G))
        (submit_route W (v2_submitter S))) (ws_route W (ws_env_of S (v2_version S) (v2_submitter S)) G)) (p2p_local_info_route W G))
        (p2p_peers_dial_route W S G) req s of
        (Err e, s') \<Rightarrow> (handle_rejection W e, s')
      | x \<Rightarrow> x)"

section \<open>The server socket\<close>

text \<open>\<open>warp::head().or(warp::get())\<close> joins two filters that extract nothing.\<close>

definition health_route :: "('req, 'rej, ('req, 'rej, 'n, 'xt) route) warp \<Rightarrow> ('req, 'rej, 'n, 'xt) route" where
  "health_route W req =
     filter_then (case w_method W Head req of Err _ \<Rightarrow> w_method W Get req | r \<Rightarrow> r) (\<lambda>_.
     filter_then (w_prefix W ''health'' req) (\<lambda>_ s. (Ok HealthReply, s)))"

definition server_routes ::
    "('req, 'rej, ('req, 'rej, 'n, 'xt) route) warp \<Rightarrow> ('xt, 'dim, 'lk, 'n) server \<Rightarrow> serving \<Rightarrow> ('req, 'rej, 'n, 'xt) route" where
  "server_routes W S G = w_or W (w_or W (health_route W) (v1_routes W S)) (v2_routes W S G)"

record cors =
  cors_any_origin :: bool
  cors_headers :: "string list"
  cors_methods :: "string list"

definition server_cors :: cors where
  "server_cors = \<lparr>cors_any_origin = True, cors_headers = [''content-type''], cors_methods = [''GET'', ''POST'', ''DELETE'']\<rparr>"

text \<open>The address to listen on; \<open>from_str\<close> is \<open>SocketAddr::from_str\<close>.\<close>

definition server_addr :: "(string \<Rightarrow> 'addr result) \<Rightarrow> runtime_config \<Rightarrow> 'addr result" where
  "server_addr from_str cfg =
     (case wrap_err ''Unable to parse host address from config'' (from_str (http_server_host cfg @ '':'' @ show_word (http_server_port cfg))) of
        Err _ \<Rightarrow> Panic ''called `Result::unwrap()` on an `Err` value''
      | r \<Rightarrow> r)"

section \<open>The table of endpoints\<close>

datatype endpoint =
    EpHealth | EpMode | EpLatestBlock | EpConfidence u32 | EpAppdata u32 | EpV1Status
  | EpVersion | EpStatus | EpBlock u32 | EpHeader u32 | EpData u32 | EpSubscriptions | EpSubmit | EpWs string | EpLocalInfo | EpDial

inductive endpoint_at :: "http_method \<Rightarrow> string list \<Rightarrow> endpoint \<Rightarrow> bool" where
  "m = Get \<or> m = Head \<Longrightarrow> endpoint_at m (''health'' # rest) EpHealth"
| "endpoint_at Get [''v1'', ''mode''] EpMode"
| "endpoint_at Get [''v1'', ''latest_block''] EpLatestBlock"
| "parse_u32 t = Ok n \<Longrightarrow> endpoint_at Get [''v1'', ''confidence'', t] (EpConfidence n)"
| "parse_u32 t = Ok n \<Longrightarrow> endpoint_at Get [''v1'', ''appdata'', t] (EpAppdata n)"
| "endpoint_at Get [''v1'', ''status''] EpV1Status"
| "endpoint_at Get [''v2'', ''version''] EpVersion"
| "endpoint_at Get [''v2'', ''status''] EpStatus"
| "parse_u32 t = Ok n \<Longrightarrow> endpoint_at Get [''v2'', ''blocks'', t] (EpBlock n)"
| "parse_u32 t = Ok n \<Longrightarrow> endpoint_at Get [''v2'', ''blocks'', t, ''header''] (EpHeader n)"
| "parse_u32 t = Ok n \<Longrightarrow> endpoint_at Get [''v2'', ''blocks'', t, ''data''] (EpData n)"
| "endpoint_at Post [''v2'', ''subscriptions''] EpSubscriptions"
| "endpoint_at Post [''v2'', ''submit''] EpSubmit"
| "endpoint_at m [''v2'', ''ws'', i] (EpWs i)"
| "endpoint_at Get [''v2'', ''p2p'', ''local'', ''info''] EpLocalInfo"
| "endpoint_at Post [''v2'', ''p2p'', ''peers'', ''dial''] EpDial"

text \<open>What an endpoint does with a request once the method and the path have been matched.\<close>

fun endpoint_serve ::
    "('req, 'rej, 'route) warp \<Rightarrow> ('xt, 'dim, 'lk, 'n) server \<Rightarrow> serving \<Rightarrow> endpoint \<Rightarrow> 'req \<Rightarrow> 'n http_sys \<Rightarrow>
     ('rej, 'xt api_reply) res \<times> 'n http_sys" where
  "endpoint_serve W S G EpHealth req s = (Ok HealthReply, s)"
| "endpoint_serve W S G EpMode req s = (Ok (ModeReply (v1_mode (app_id (sv_cfg S)))), s)"
| "endpoint_serve W S G EpLatestBlock req s = (Ok (LatestBlockReply (latest_block (hs_state s))), s)"
| "endpoint_serve W S G (EpConfidence n) req s = (Ok (ConfidenceReply (v1_confidence n (hs_db s) (hs_state s) (sv_cfg S))), s)"
| "endpoint_serve W S G (EpAppdata n) req s =
     filter_then (w_query_app_data W req) (\<lambda>query s.
       (Ok (AppdataReply (appdata (sv_decode_xt S) (sv_call_of S) (sv_base64 S) n query (hs_db s) (app_id (sv_cfg S)) (hs_state s))), s)) s"
| "endpoint_serve W S G EpV1Status req s = (Ok (V1StatusReply (v1_status_handler (app_id (sv_cfg S)) (hs_state s) (hs_db s))), s)"
| "endpoint_serve W S G EpVersion req s = (Ok (VersionReply (v2_version S)), s)"
| "endpoint_serve W S G EpStatus req s = (Ok (StatusReply (v2_status_handler (sv_show_h256 S) (sv_cfg S) (hs_state s))), s)"
| "endpoint_serve W S G (EpBlock n) req s = logged_reply BlockReply (v2_block_handler n (sv_cfg S) (hs_state s) (hs_db s)) s"
| "endpoint_serve W S G (EpHeader n) req s = logged_reply HeaderReply (v2_block_header (sv_kate S) n (sv_cfg S) (hs_state s) (hs_db s)) s"
| "endpoint_serve W S G (EpData n) req s =
     filter_then (w_query_data W req) (\<lambda>query s.
       logged_reply DataReply (v2_block_data (sv_kate S) n query (sv_cfg S) (hs_state s) (hs_db s)) s) s"
| "endpoint_serve W S G EpSubscriptions req s =
     filter_then (w_json_subscription W req) (\<lambda>sub s.
       (Ok (SubscriptionReply (sg_new_id G)), s\<lparr>hs_clients := subscribe (sg_new_id G) sub (hs_clients s)\<rparr>)) s"
| "endpoint_serve W S G EpSubmit req s =
     (case v2_submitter S of
        None \<Rightarrow> (Err (w_not_found W), s)
      | Some submitter \<Rightarrow>
          filter_then (w_json_transaction W req) (\<lambda>t s.
            case v2_submit submitter t (hs_node s) of (r, n') \<Rightarrow> logged_reply SubmitReply r (s\<lparr>hs_node := n'\<rparr>)) s)"
| "endpoint_serve W S G (EpWs i) req s =
     filter_then (w_ws W req) (\<lambda>_ s.
       if has_subscription (hs_clients s) i then
         (case ws_connect (ws_env_of S (v2_version S) (v2_submitter S)) i (sg_sender G) (sg_socket G) (hs_clients s, hs_channels s, hs_node s) of
            (clients, chs, n) \<Rightarrow> (Ok WsUpgrade, s\<lparr>hs_clients := clients, hs_channels := chs, hs_node := n\<rparr>))
       else (Err (w_not_found W), s)) s"
| "endpoint_serve W S G EpLocalInfo req s =
     (case get_peer_info (sg_alive G) (sg_channel G) (sg_info_replies G) (hs_commands s) of
        (r, q) \<Rightarrow> logged_reply PeerInfoReply r (s\<lparr>hs_commands := q\<rparr>))"
| "endpoint_serve W S G EpDial req s =
     filter_then (w_json_peer W req) (\<lambda>(p, a) s.
       case dial_external_peer (sv_dial_env S) (sg_alive G) (sg_channel G) (sg_dial_replies G) p a (hs_commands s) of
         (r, q) \<Rightarrow> logged_reply DialReply r (s\<lparr>hs_commands := q\<rparr>)) s"

section \<open>What warp promises\<close>

text \<open>A filter accepts exactly where the given match succeeds. No filter of warp raises \<open>InternalServerError\<close>, which is a type of this crate.\<close>

definition quiet :: "('req, 'rej, 'route) warp \<Rightarrow> ('rej, 'a) res \<Rightarrow> bool" where
  "quiet W r \<longleftrightarrow> (case r of Ok _ \<Rightarrow> True | Err e \<Rightarrow> \<not> w_finds_internal W e | Panic _ \<Rightarrow> False)"

definition decides :: "('req, 'rej, 'route) warp \<Rightarrow> ('rej, 'a) res \<Rightarrow> 'a option \<Rightarrow> bool" where
  "decides W r x \<longleftrightarrow> quiet W r \<and> (case r of Ok y \<Rightarrow> x = Some y | _ \<Rightarrow> x = None)"

fun match_u32 :: "string list \<Rightarrow> string list \<Rightarrow> string list \<Rightarrow> u32 option" where
  "match_u32 [] after (t # ts) = (if ts = after then (case parse_u32 t of Ok n \<Rightarrow> Some n | _ \<Rightarrow> None) else None)"
| "match_u32 (p # ps) after (t # ts) = (if p = t then match_u32 ps after ts else None)"
| "match_u32 ps after [] = None"

fun match_string :: "string list \<Rightarrow> string list \<Rightarrow> string option" where
  "match_string [] [t] = Some t"
| "match_string (p # ps) (t # ts) = (if p = t then match_string ps ts else None)"
| "match_string _ _ = None"

definition rejects :: "('req, 'rej, 'route) warp \<Rightarrow> 's \<Rightarrow> ('rej, 'a) res \<times> 's \<Rightarrow> bool" where
  "rejects W s r \<longleftrightarrow> (\<exists>e. r = (Err e, s) \<and> \<not> w_finds_internal W e)"

text \<open>\<open>segs\<close> are the segments of the path of a request. \<open>or\<close> asks the second route when the first one rejects the request and combines the
  rejections.\<close>

definition warp_ok ::
    "('req \<Rightarrow> http_method) \<Rightarrow> ('req \<Rightarrow> string list) \<Rightarrow> ('req, 'rej, ('req, 'rej, 'n, 'xt) route) warp \<Rightarrow> bool" where
  "warp_ok meth segs W \<longleftrightarrow>
     \<not> w_finds_internal W (w_not_found W) \<and>
     (\<forall>req. (\<forall>p. decides W (w_path W p req) (if segs req = p then Some () else None)) \<and>
        (\<forall>p q. decides W (w_path_u32 W p q req) (match_u32 p q (segs req))) \<and>
        (\<forall>p. decides W (w_path_string W p req) (match_string p (segs req))) \<and>
        (\<forall>x. decides W (w_prefix W x req) (if take 1 (segs req) = [x] then Some () else None)) \<and>
        (\<forall>m. decides W (w_method W m req) (if meth req = m then Some () else None)) \<and>
        quiet W (w_query_app_data W req) \<and> quiet W (w_query_data W req) \<and> quiet W (w_json_subscription W req) \<and>
        quiet W (w_json_transaction W req) \<and> quiet W (w_json_peer W req) \<and> quiet W (w_ws W req)) \<and>
     (\<forall>f g req s. (\<forall>x s'. f req s = (Ok x, s') \<longrightarrow> w_or W f g req s = (Ok x, s')) \<and>
        (\<forall>m s'. f req s = (Panic m, s') \<longrightarrow> w_or W f g req s = (Panic m, s')) \<and>
        (rejects W s (f req s) \<longrightarrow>
           (rejects W s (g req s) \<longrightarrow> rejects W s (w_or W f g req s)) \<and> ((\<forall>e s'. g req s \<noteq> (Err e, s')) \<longrightarrow> w_or W f g req s = g req s)))"

text \<open>The answer of a route is the one of the endpoint, up to the rejection that is reported.\<close>

definition answers_as :: "('req, 'rej, 'route) warp \<Rightarrow> 's \<Rightarrow> ('rej, 'a) res \<times> 's \<Rightarrow> ('rej, 'a) res \<times> 's \<Rightarrow> bool" where
  "answers_as W s r x \<longleftrightarrow> (case fst x of Err _ \<Rightarrow> rejects W s r | _ \<Rightarrow> r = x)"

definition serves ::
    "('req \<Rightarrow> http_method) \<Rightarrow> ('req \<Rightarrow> string list) \<Rightarrow> ('req, 'rej, ('req, 'rej, 'n, 'xt) route) warp \<Rightarrow> ('xt, 'dim, 'lk, 'n) server \<Rightarrow> serving \<Rightarrow>
     endpoint set \<Rightarrow> 'req \<Rightarrow> ('n http_sys \<Rightarrow> ('rej, 'xt api_reply) res \<times> 'n http_sys) \<Rightarrow> bool" where
  "serves meth segs W S G Es req h \<longleftrightarrow>
     (\<forall>s. (\<forall>e \<in> Es. endpoint_at (meth req) (segs req) e \<longrightarrow> answers_as W s (h s) (endpoint_serve W S G e req s)) \<and>
          ((\<forall>e \<in> Es. \<not> endpoint_at (meth req) (segs req) e) \<longrightarrow> rejects W s (h s)))"

section \<open>An instance\<close>

text \<open>Requests as pairs of method and path, rejections as texts.\<close>

definition sample_warp :: "(http_method \<times> string list, string, (http_method \<times> string list, string, unit, bytes) route) warp" where
  "sample_warp =
     \<lparr>w_path = (\<lambda>p req. if snd req = p then Ok () else Err ''not found''),
      w_path_u32 = (\<lambda>p q req. case match_u32 p q (snd req) of Some n \<Rightarrow> Ok n | None \<Rightarrow> Err ''not found''),
      w_path_string = (\<lambda>p req. case match_string p (snd req) of Some t \<Rightarrow> Ok t | None \<Rightarrow> Err ''not found''),
      w_prefix = (\<lambda>x req. if take 1 (snd req) = [x] then Ok () else Err ''not found''),
      w_method = (\<lambda>m req. if fst req = m then Ok () else Err ''method not allowed''),
      w_query_app_data = (\<lambda>_. Ok None), w_query_data = (\<lambda>_. Ok None), w_json_subscription = (\<lambda>_. Err ''bad request''),
      w_json_transaction = (\<lambda>_. Ok (TransactionData [1])), w_json_peer = (\<lambda>_. Err ''bad request''), w_ws = (\<lambda>_. Ok ()),
      w_not_found = ''not found'', w_finds_internal = (\<lambda>e. e = ''internal''),
      w_or = (\<lambda>f g req s. case f req s of (Err e, s') \<Rightarrow> g req s' | x \<Rightarrow> x)\<rparr>"

definition sample_server :: "(bytes, u16 \<times> u16, (u32 \<times> u32) list, unit) server" where
  "sample_server =
     \<lparr>sv_cfg = runtime_config_default, sv_version = ''v1.7.9'', sv_network_version = ''1.6'', sv_kate = sample_kate, sv_decode_xt = Ok,
      sv_call_of = SubmitData, sv_base64 = (\<lambda>_. ''''), sv_show_h256 = (\<lambda>_. ''0x''),
      sv_submit_api = \<lparr>sa_submit_signed = (\<lambda>_ _ n. (Err [''offline''], n)), sa_submit_from_bytes = (\<lambda>_ n. (Err [''offline''], n)),
        sa_get_header_by_hash = (\<lambda>_ n. (Err [''offline''], n))\<rparr>,
      sv_dial_env = \<lparr>de_peer_text = (\<lambda>_. ''''), de_root_cause = (\<lambda>_. None), de_error_text = (\<lambda>_. '''')\<rparr>,
      sv_parse_request = (\<lambda>_. Err [''empty'']), sv_response_json = (\<lambda>_. Ok ''''), sv_error_json = (\<lambda>_. Ok '''')\<rparr>"

definition sample_serving :: serving where
  "sample_serving = \<lparr>sg_new_id = ''1'', sg_alive = True, sg_channel = 0, sg_info_replies = (\<lambda>_. None), sg_dial_replies = (\<lambda>_. None),
     sg_sender = 0, sg_socket = []\<rparr>"

definition sample_http_sys :: "unit http_sys" where
  "sample_http_sys = \<lparr>hs_db = sample_served_db, hs_state = sample_served_state, hs_clients = [], hs_channels = Map.empty, hs_node = (),
     hs_commands = [], hs_log = []\<rparr>"

section \<open>Lemmas\<close>

inductive_simps endpoint_at_simps:
  "endpoint_at m p EpHealth" "endpoint_at m p EpMode" "endpoint_at m p EpLatestBlock" "endpoint_at m p (EpConfidence n)"
  "endpoint_at m p (EpAppdata n)" "endpoint_at m p EpV1Status" "endpoint_at m p EpVersion" "endpoint_at m p EpStatus"
  "endpoint_at m p (EpBlock n)" "endpoint_at m p (EpHeader n)" "endpoint_at m p (EpData n)" "endpoint_at m p EpSubscriptions"
  "endpoint_at m p EpSubmit" "endpoint_at m p (EpWs i)" "endpoint_at m p EpLocalInfo" "endpoint_at m p EpDial"

lemma endpoint_at_unique: "endpoint_at m p e \<Longrightarrow> endpoint_at m p e' \<Longrightarrow> e = e'"
  by (induction rule: endpoint_at.induct) (erule endpoint_at.cases; simp)+

lemma warp_okD:
  assumes "warp_ok meth segs W"
  shows "decides W (w_path W p req) (if segs req = p then Some () else None)"
    "decides W (w_path_u32 W p q req) (match_u32 p q (segs req))"
    "decides W (w_path_string W p req) (match_string p (segs req))"
    "decides W (w_prefix W x req) (if take 1 (segs req) = [x] then Some () else None)"
    "decides W (w_method W m req) (if meth req = m then Some () else None)"
    "quiet W (w_query_app_data W req)" "quiet W (w_query_data W req)" "quiet W (w_json_subscription W req)"
    "quiet W (w_json_transaction W req)" "quiet W (w_json_peer W req)" "quiet W (w_ws W req)"
    "\<not> w_finds_internal W (w_not_found W)"
  using assms unfolding warp_ok_def by blast+

lemma match_u32_iff: "match_u32 ps after ts = Some n \<longleftrightarrow> (\<exists>t. ts = ps @ t # after \<and> parse_u32 t = Ok n)"
  by (induction ps after ts rule: match_u32.induct) (auto split: res.splits)

lemma match_string_iff: "match_string ps ts = Some t \<longleftrightarrow> ts = ps @ [t]"
  by (induction ps ts rule: match_string.induct) auto

text \<open>One filter of a route, and its end.\<close>

lemma serves_filter:
  assumes "decides W r x" "x = None \<Longrightarrow> \<forall>e \<in> Es. \<not> endpoint_at (meth req) (segs req) e"
    and "\<And>y. x = Some y \<Longrightarrow> serves meth segs W S G Es req (k y)"
  shows "serves meth segs W S G Es req (filter_then r k)"
  using assms by (cases r) (auto simp: decides_def quiet_def serves_def rejects_def)

lemma serves_endpoint:
  assumes "e \<in> Es" "endpoint_at (meth req) (segs req) e" "\<And>s. answers_as W s (h s) (endpoint_serve W S G e req s)"
  shows "serves meth segs W S G Es req h"
  using assms endpoint_at_unique unfolding serves_def by blast

lemma answers_as_filter:
  assumes "quiet W r" "\<And>y s. answers_as W s (k y s) (k' y s)"
  shows "answers_as W s (filter_then r k s) (filter_then r k' s)"
  using assms by (cases r) (auto simp: quiet_def answers_as_def rejects_def)

lemma answers_as_Ok [simp]: "answers_as W s (Ok x, s') (Ok x, s')"
  by (simp add: answers_as_def)

lemma answers_as_rejected: "\<not> w_finds_internal W e \<Longrightarrow> answers_as W s (Err e, s) (Err e', s')"
  by (simp add: answers_as_def rejects_def)

lemma answers_as_logged [simp]: "answers_as W s (logged_reply c r s') (logged_reply c r s')"
  by (simp add: answers_as_def logged_reply_def split: res.split)

lemma serves_or:
  assumes W: "warp_ok meth segs W" and f: "serves meth segs W S G Es req (f req)" and g: "serves meth segs W S G Es' req (g req)"
  shows "serves meth segs W S G (Es \<union> Es') req (w_or W f g req)"
proof -
  have or: "(\<forall>x s'. f req s = (Ok x, s') \<longrightarrow> w_or W f g req s = (Ok x, s')) \<and>
        (\<forall>m s'. f req s = (Panic m, s') \<longrightarrow> w_or W f g req s = (Panic m, s')) \<and>
        (rejects W s (f req s) \<longrightarrow>
           (rejects W s (g req s) \<longrightarrow> rejects W s (w_or W f g req s)) \<and> ((\<forall>e s'. g req s \<noteq> (Err e, s')) \<longrightarrow> w_or W f g req s = g req s))" for s
    using W unfolding warp_ok_def by blast
  have second: "answers_as W s (w_or W f g req s) x" if "rejects W s (f req s)" "answers_as W s (g req s) x" for s x
    using or [of s] that by (auto simp: answers_as_def rejects_def split: res.splits if_splits)
  have first: "answers_as W s (w_or W f g req s) x" if "answers_as W s (f req s) x" "answers_as W s (g req s) x \<or> rejects W s (g req s)" for s x
    using or [of s] that
    by (cases x; cases "fst x") (auto simp: answers_as_def rejects_def split: if_splits)
  show ?thesis
    unfolding serves_def
  proof (intro allI conjI ballI impI)
    fix s e
    assume e: "e \<in> Es \<union> Es'" "endpoint_at (meth req) (segs req) e"
    have f': "answers_as W s (f req s) (endpoint_serve W S G e req s)" if "e \<in> Es" using f e(2) that by (simp add: serves_def)
    have g': "answers_as W s (g req s) (endpoint_serve W S G e req s)" if "e \<in> Es'" using g e(2) that by (simp add: serves_def)
    have fr: "rejects W s (f req s)" if "e \<notin> Es" using f e(2) that endpoint_at_unique by (metis serves_def)
    have gr: "rejects W s (g req s)" if "e \<notin> Es'" using g e(2) that endpoint_at_unique by (metis serves_def)
    show "answers_as W s (w_or W f g req s) (endpoint_serve W S G e req s)"
      using e(1) f' g' fr gr first second by blast
  next
    fix s
    assume "\<forall>e \<in> Es \<union> Es'. \<not> endpoint_at (meth req) (segs req) e"
    then have "rejects W s (f req s)" "rejects W s (g req s)" using f g by (simp_all add: serves_def)
    then show "rejects W s (w_or W f g req s)" using or [of s] by simp
  qed
qed

text \<open>The filters of the method and the path, for routes that serve one endpoint for each number.\<close>

lemma serves_method:
  assumes "warp_ok meth segs W" "\<And>e m' p. e \<in> Es \<Longrightarrow> endpoint_at m' p e \<Longrightarrow> m' = m"
    and "meth req = m \<Longrightarrow> serves meth segs W S G Es req (k ())"
  shows "serves meth segs W S G Es req (filter_then (w_method W m req) k)"
  by (rule serves_filter [OF warp_okD(5) [OF assms(1)]]) (use assms(2,3) in \<open>auto split: if_splits\<close>)

lemma serves_path:
  assumes "warp_ok meth segs W" "\<And>m p. endpoint_at m p e \<Longrightarrow> p = path"
    and "segs req = path \<Longrightarrow> serves meth segs W S G {e} req (k ())"
  shows "serves meth segs W S G {e} req (filter_then (w_path W path req) k)"
  by (rule serves_filter [OF warp_okD(1) [OF assms(1)]]) (use assms(2,3) in \<open>auto split: if_splits\<close>)

lemma serves_path_u32:
  assumes "warp_ok meth segs W" "\<And>m p n. endpoint_at m p (E n) \<Longrightarrow> \<exists>t. p = ps @ t # qs \<and> parse_u32 t = Ok n"
    and "\<And>n t. segs req = ps @ t # qs \<Longrightarrow> parse_u32 t = Ok n \<Longrightarrow> serves meth segs W S G (range E) req (k n)"
  shows "serves meth segs W S G (range E) req (filter_then (w_path_u32 W ps qs req) k)"
proof (rule serves_filter [OF warp_okD(2) [OF assms(1)]])
  assume none: "match_u32 ps qs (segs req) = None"
  show "\<forall>e \<in> range E. \<not> endpoint_at (meth req) (segs req) e"
  proof (intro ballI notI)
    fix e assume "e \<in> range E" "endpoint_at (meth req) (segs req) e"
    then obtain n t where "segs req = ps @ t # qs" "parse_u32 t = Ok n" using assms(2) by blast
    then have "match_u32 ps qs (segs req) = Some n" by (auto simp: match_u32_iff)
    with none show False by simp
  qed
qed (use assms(3) in \<open>auto simp: match_u32_iff\<close>)

lemma serves_one: "endpoint_at (meth req) (segs req) e \<Longrightarrow> (\<And>s. answers_as W s (h s) (endpoint_serve W S G e req s)) \<Longrightarrow> serves meth segs W S G {e} req h"
  by (rule serves_endpoint) auto

lemma serves_number:
  "endpoint_at (meth req) (segs req) (E n) \<Longrightarrow> (\<And>s. answers_as W s (h s) (endpoint_serve W S G (E n) req s)) \<Longrightarrow> serves meth segs W S G (range E) req h"
  by (rule serves_endpoint) auto

lemmas serves_filters = serves_path serves_path_u32 serves_method
lemmas serves_end = serves_one serves_number answers_as_filter

text \<open>Each route serves its endpoint.\<close>

lemma v1_serves:
  assumes W: "warp_ok meth segs W" and m: "meth req = Get"
  shows "serves meth segs W S G {EpMode} req (v1_mode_route W S req)"
    and "serves meth segs W S G {EpLatestBlock} req (v1_latest_block_route W req)"
    and "serves meth segs W S G (range EpConfidence) req (v1_confidence_route W S req)"
    and "serves meth segs W S G (range EpAppdata) req (v1_appdata_route W S req)"
    and "serves meth segs W S G {EpV1Status} req (v1_status_route W S req)"
  unfolding v1_mode_route_def v1_latest_block_route_def v1_confidence_route_def v1_appdata_route_def v1_status_route_def
  using W m by (intro serves_filters; auto simp: endpoint_at_simps intro!: serves_end intro: warp_okD)+

lemma v2_serves:
  assumes W: "warp_ok meth segs W"
  shows "serves meth segs W S G {EpVersion} req (version_route W (v2_version S) req)"
    and "serves meth segs W S G {EpStatus} req (status_route W S req)"
    and "serves meth segs W S G (range EpBlock) req (block_route W S req)"
    and "serves meth segs W S G (range EpHeader) req (block_header_route W S req)"
    and "serves meth segs W S G (range EpData) req (block_data_route W S req)"
    and "serves meth segs W S G {EpSubscriptions} req (subscriptions_route W G req)"
    and "serves meth segs W S G {EpLocalInfo} req (p2p_local_info_route W G req)"
    and "serves meth segs W S G {EpDial} req (p2p_peers_dial_route W S G req)"
  unfolding version_route_def status_route_def block_route_def block_header_route_def block_data_route_def subscriptions_route_def
    p2p_local_info_route_def p2p_peers_dial_route_def
  using W by (intro serves_filters; auto simp: endpoint_at_simps subscriptions_def split: prod.split intro!: serves_end intro: warp_okD)+

lemma submit_serves:
  assumes W: "warp_ok meth segs W"
  shows "serves meth segs W S G {EpSubmit} req (submit_route W (v2_submitter S) req)"
proof -
  have "answers_as W s (filter_then (optionally (w_not_found W) (v2_submitter S)) (\<lambda>sub. filter_then (w_json_transaction W req) (\<lambda>t s.
       case v2_submit sub t (hs_node s) of (r, n') \<Rightarrow> logged_reply SubmitReply r (s\<lparr>hs_node := n'\<rparr>))) s) (endpoint_serve W S G EpSubmit req s)" for s
    by (cases "v2_submitter S")
      (auto simp: optionally_def warp_okD [OF W] intro!: answers_as_rejected answers_as_filter split: prod.split)
  then show ?thesis
    unfolding submit_route_def using W by (intro serves_filters; auto simp: endpoint_at_simps simp del: endpoint_serve.simps intro!: serves_one)
qed

lemma ws_serves:
  assumes W: "warp_ok meth segs W"
  shows "serves meth segs W S G (range EpWs) req (ws_route W (ws_env_of S (v2_version S) (v2_submitter S)) G req)"
  unfolding ws_route_def
proof (rule serves_filter [OF warp_okD(3) [OF W]])
  fix i assume "match_string [''v2'', ''ws''] (segs req) = Some i"
  then have "endpoint_at (meth req) (segs req) (EpWs i)" by (simp add: match_string_iff endpoint_at_simps)
  then show "serves meth segs W S G (range EpWs) req (filter_then (w_ws W req) (\<lambda>_ s.
       case v2_ws (ws_env_of S (v2_version S) (v2_submitter S)) i (sg_sender G) (sg_socket G) (hs_clients s, hs_channels s, hs_node s) of
         (Ok _, clients, chs, n) \<Rightarrow> (Ok WsUpgrade, s\<lparr>hs_clients := clients, hs_channels := chs, hs_node := n\<rparr>)
       | _ \<Rightarrow> (Err (w_not_found W), s)))"
    by (rule serves_number)
      (auto simp: v2_ws_def warp_okD [OF W] intro!: answers_as_filter answers_as_rejected split: prod.split)
qed (auto simp: endpoint_at_simps match_string_iff)

lemma health_serves:
  assumes W: "warp_ok meth segs W"
  shows "serves meth segs W S G {EpHealth} req (health_route W req)"
proof -
  have "decides W (case w_method W Head req of Err _ \<Rightarrow> w_method W Get req | r \<Rightarrow> r) (if meth req = Head \<or> meth req = Get then Some () else None)"
    using warp_okD(5) [OF W, of Head req] warp_okD(5) [OF W, of Get req] by (auto simp: decides_def quiet_def split: res.splits if_splits)
  then show ?thesis
    unfolding health_route_def
  proof (rule serves_filter)
    show "serves meth segs W S G {EpHealth} req (filter_then (w_prefix W ''health'' req) (\<lambda>_ s. (Ok HealthReply, s)))"
      if "(if meth req = Head \<or> meth req = Get then Some () else None) = Some y" for y
    proof (rule serves_filter [OF warp_okD(4) [OF W]])
      assume "(if take 1 (segs req) = [''health''] then Some () else None) = None"
      then show "\<forall>e \<in> {EpHealth}. \<not> endpoint_at (meth req) (segs req) e" by (auto simp: endpoint_at_simps split: if_splits)
    next
      fix z assume "(if take 1 (segs req) = [''health''] then Some () else None) = Some z"
      then show "serves meth segs W S G {EpHealth} req (\<lambda>s. (Ok HealthReply, s))"
        using that by (cases "segs req") (auto simp: endpoint_at_simps intro!: serves_one split: if_splits)
    qed
  qed (auto simp: endpoint_at_simps split: if_splits)
qed

lemma v1_routes_serves:
  assumes W: "warp_ok meth segs W"
  shows "serves meth segs W S G ({EpMode} \<union> {EpLatestBlock} \<union> range EpConfidence \<union> range EpAppdata \<union> {EpV1Status}) req (v1_routes W S req)"
  unfolding v1_routes_def
  by (intro serves_method [OF W] serves_or [OF W] v1_serves [OF W]) (auto simp: endpoint_at_simps)

lemma serves_recover:
  assumes "serves meth segs W S G Es req h"
  shows "serves meth segs W S G Es req (\<lambda>s. case h s of (Err e, s') \<Rightarrow> (handle_rejection W e, s') | x \<Rightarrow> x)"
proof -
  let ?r = "\<lambda>x. case x of (Err e, s') \<Rightarrow> (handle_rejection W e, s') | x \<Rightarrow> x"
  have rej: "rejects W s (?r x)" if "rejects W s x" for s x
    using that by (auto simp: rejects_def handle_rejection_def)
  have ans: "answers_as W s (?r x) y" if "answers_as W s x y" for s x y
    using that rej [of s x] by (cases y; cases "fst y") (auto simp: answers_as_def)
  show ?thesis using assms unfolding serves_def by (intro allI conjI ballI impI rej ans) simp_all
qed

lemma v2_routes_serves:
  assumes W: "warp_ok meth segs W"
  shows "serves meth segs W S G ({EpVersion} \<union> {EpStatus} \<union> range EpBlock \<union> range EpHeader \<union> range EpData \<union> {EpSubscriptions} \<union> {EpSubmit}
    \<union> range EpWs \<union> {EpLocalInfo} \<union> {EpDial}) req (v2_routes W S G req)"
  unfolding v2_routes_def
  by (intro serves_recover serves_or [OF W] v2_serves [OF W] submit_serves [OF W] ws_serves [OF W])

lemma server_serves:
  assumes W: "warp_ok meth segs W"
  shows "serves meth segs W S G UNIV req (server_routes W S G req)"
proof -
  let ?v1 = "{EpMode} \<union> {EpLatestBlock} \<union> range EpConfidence \<union> range EpAppdata \<union> {EpV1Status}"
  let ?v2 = "{EpVersion} \<union> {EpStatus} \<union> range EpBlock \<union> range EpHeader \<union> range EpData \<union> {EpSubscriptions} \<union> {EpSubmit}
    \<union> range EpWs \<union> {EpLocalInfo} \<union> {EpDial}"
  have "x \<in> {EpHealth} \<union> ?v1 \<union> ?v2" for x by (cases x) simp_all
  then have "UNIV = {EpHealth} \<union> ?v1 \<union> ?v2" by (rule UNIV_eq_I)
  moreover have "serves meth segs W S G ({EpHealth} \<union> ?v1 \<union> ?v2) req (server_routes W S G req)"
    unfolding server_routes_def by (intro serves_or [OF W] health_serves [OF W] v1_routes_serves [OF W] v2_routes_serves [OF W])
  ultimately show ?thesis by (simp only:)
qed

section \<open>Properties\<close>

text \<open>C34: A request whose method and path are in the table of endpoints gets the answer of the handler of this endpoint, whichever routes come
  before it, and is rejected when the handler rejects it; every other request is rejected and changes nothing. No endpoint is served
  under the method and path of another.\<close>

theorem server_dispatches:
  assumes "warp_ok meth segs W"
  shows "(\<forall>e. endpoint_at (meth req) (segs req) e \<longrightarrow> answers_as W s (server_routes W S G req s) (endpoint_serve W S G e req s)) \<and>
    ((\<nexists>e. endpoint_at (meth req) (segs req) e) \<longrightarrow> (\<exists>rejection. server_routes W S G req s = (Err rejection, s))) \<and>
    (\<forall>e e'. endpoint_at (meth req) (segs req) e \<longrightarrow> endpoint_at (meth req) (segs req) e' \<longrightarrow> e = e')"
  using server_serves [OF assms, of S G req] endpoint_at_unique by (simp add: serves_def rejects_def) metis

lemma sample_warp_ok: "warp_ok fst snd sample_warp"
  unfolding warp_ok_def
  by (auto simp: sample_warp_def decides_def quiet_def rejects_def split: option.split res.splits prod.splits)

lemma sample_block_reply:
  "v2_block_handler 4 runtime_config_default sample_served_state sample_served_db = Ok \<lparr>vb_status = Finished, vb_confidence = None\<rparr>"
  by (simp add: v2_block_handler_def stored_block_status_def or_internal_def db_get_header_def db_get_count_def db_get_def
      sample_served_db_def sample_served_state_def db_empty_def block_status_def Let_def state_default_def range_first_def
      range_contains_def block_range_contains_def runtime_config_default_def)

theorem server_dispatches_witness:
  "server_routes sample_warp sample_server sample_serving (Get, [''v2'', ''blocks'', ''4'']) sample_http_sys =
     (Ok (BlockReply \<lparr>vb_status = Finished, vb_confidence = None\<rparr>), sample_http_sys) \<and>
   (\<exists>e. server_routes sample_warp sample_server sample_serving (Post, [''v2'', ''blocks'', ''4'']) sample_http_sys = (Err e, sample_http_sys))"
proof
  have "endpoint_at Get [''v2'', ''blocks'', ''4''] (EpBlock 4)"
    by (simp add: endpoint_at_simps parse_u32_def parse_uint_def digit_value_def of_char_def)
  with server_dispatches [OF sample_warp_ok, of "(Get, [''v2'', ''blocks'', ''4''])" sample_http_sys sample_server sample_serving]
  have "answers_as sample_warp sample_http_sys (server_routes sample_warp sample_server sample_serving (Get, [''v2'', ''blocks'', ''4'']) sample_http_sys)
    (endpoint_serve sample_warp sample_server sample_serving (EpBlock 4) (Get, [''v2'', ''blocks'', ''4'']) sample_http_sys)"
    by (metis fst_conv snd_conv)
  then show "server_routes sample_warp sample_server sample_serving (Get, [''v2'', ''blocks'', ''4'']) sample_http_sys =
     (Ok (BlockReply \<lparr>vb_status = Finished, vb_confidence = None\<rparr>), sample_http_sys)"
    by (simp add: answers_as_def logged_reply_def log_internal_server_error_def sample_server_def sample_http_sys_def sample_block_reply)
next
  have "\<nexists>e. endpoint_at Post [''v2'', ''blocks'', ''4''] e"
    by (auto elim: endpoint_at.cases)
  with server_dispatches [OF sample_warp_ok, of "(Post, [''v2'', ''blocks'', ''4''])" sample_http_sys sample_server sample_serving]
  show "\<exists>e. server_routes sample_warp sample_server sample_serving (Post, [''v2'', ''blocks'', ''4'']) sample_http_sys = (Err e, sample_http_sys)"
    by (metis fst_conv snd_conv)
qed

end
