(* ===== verification/Swarm_Setup.thy ===== *)
theory Swarm_Setup
  imports Event_Loop
begin

text \<open>
  How the configuration reaches libp2p: the conversion into the configuration of Kademlia (\<open>src/types.rs\<close>), \<open>generate_config\<close> and
  \<open>build_swarm\<close> (\<open>src/network/p2p.rs\<close>), and \<open>EventLoop::new\<close> (\<open>src/network/p2p/event_loop.rs\<close>) with the panics it can end in.

  The builder of the swarm belongs to libp2p and is a parameter; its steps can fail. The lemmas show which configurations make an event loop and that
  the name of the Kademlia protocol is always accepted.
\<close>

section \<open>Kademlia\<close>

datatype store_inserts = Unfiltered | FilterBoth

record 'proto kad_behaviour_config =
  kb_publication_interval :: "nat option"
  kb_replication_interval :: "nat option"
  kb_replication_factor :: nat
  kb_query_timeout :: nat
  kb_parallelism :: nat
  kb_caching_max_peers :: u16
  kb_disjoint_query_paths :: bool
  kb_record_filtering :: store_inserts
  kb_protocol_names :: "'proto list"

text \<open>\<open>try_from_owned\<close> is \<open>StreamProtocol::try_from_owned\<close>.\<close>

definition kad_behaviour_config_of :: "(string \<Rightarrow> 'proto result) \<Rightarrow> libp2p_config \<Rightarrow> 'proto kad_behaviour_config result" where
  "kad_behaviour_config_of try_from_owned cfg =
     (case try_from_owned (ic_protocol_version (lp_identify cfg)) of
        Ok kademlia_protocol_name \<Rightarrow>
          Ok \<lparr>kb_publication_interval = kc_publication_interval (lp_kademlia cfg),
              kb_replication_interval = kc_record_replication_interval (lp_kademlia cfg),
              kb_replication_factor = kc_record_replication_factor (lp_kademlia cfg),
              kb_query_timeout = kc_query_timeout (lp_kademlia cfg),
              kb_parallelism = kc_query_parallelism (lp_kademlia cfg),
              kb_caching_max_peers = kc_caching_max_peers (lp_kademlia cfg),
              kb_disjoint_query_paths = kc_disjoint_query_paths (lp_kademlia cfg),
              kb_record_filtering = FilterBoth,
              kb_protocol_names = [kademlia_protocol_name]\<rparr>
      | _ \<Rightarrow> Panic ''Invalid Kademlia protocol name'')"

section \<open>The swarm\<close>

record swarm_config =
  sw_idle_connection_timeout :: nat
  sw_max_negotiating_inbound_streams :: nat
  sw_notify_handler_buffer_size :: nat
  sw_dial_concurrency_factor :: nat
  sw_per_connection_event_buffer_size :: nat

definition generate_config :: "swarm_config \<Rightarrow> libp2p_config \<Rightarrow> swarm_config" where
  "generate_config config cfg =
     config\<lparr>sw_idle_connection_timeout := lp_connection_idle_timeout cfg,
            sw_max_negotiating_inbound_streams := lp_max_negotiating_inbound_streams cfg,
            sw_notify_handler_buffer_size := lp_task_command_buffer_size cfg,
            sw_dial_concurrency_factor := lp_dial_concurrency_factor cfg,
            sw_per_connection_event_buffer_size := lp_per_connection_event_buffer_size cfg\<rparr>"

text \<open>The parts of \<open>Behaviour\<close> that are configured; the others are made with defaults.\<close>

record ('proto, 'st) behaviour =
  bh_identify_protocol :: string
  bh_identify_agent :: string
  bh_autonat :: autonat_config
  bh_kademlia :: "'proto kad_behaviour_config"
  bh_kad_store :: 'st

definition behaviour_of :: "(string \<Rightarrow> 'proto result) \<Rightarrow> libp2p_config \<Rightarrow> 'st \<Rightarrow> ('proto, 'st) behaviour result" where
  "behaviour_of try_from_owned cfg kad_store =
     map_res (\<lambda>kad. \<lparr>bh_identify_protocol = ic_protocol_version (lp_identify cfg),
                     bh_identify_agent = agent_version_text (ic_agent_version (lp_identify cfg)),
                     bh_autonat = lp_autonat cfg, bh_kademlia = kad, bh_kad_store = kad_store\<rparr>)
       (kad_behaviour_config_of try_from_owned cfg)"

text \<open>The steps of \<open>SwarmBuilder\<close>: the websocket and the TCP transport (with \<open>port_reuse\<close> and \<open>nodelay\<close>), DNS, the relay client, the behaviour, and
  the last step, which takes the configuration; \<open>bu_default\<close> is the configuration it starts from.\<close>

record ('proto, 'st, 'b, 'sw) swarm_builder =
  bu_websocket :: "'b result"
  bu_tcp :: "bool \<Rightarrow> bool \<Rightarrow> 'b result"
  bu_dns :: "'b \<Rightarrow> 'b result"
  bu_relay_client :: "'b \<Rightarrow> 'b result"
  bu_behaviour :: "('proto, 'st) behaviour \<Rightarrow> 'b \<Rightarrow> 'b result"
  bu_default :: swarm_config
  bu_build :: "swarm_config \<Rightarrow> 'b \<Rightarrow> 'sw"
  bu_set_mode :: "kademlia_mode \<Rightarrow> 'sw \<Rightarrow> 'sw"

definition build_swarm ::
    "('proto, 'st, 'b, 'sw) swarm_builder \<Rightarrow> (string \<Rightarrow> 'proto result) \<Rightarrow> libp2p_config \<Rightarrow> 'st \<Rightarrow> bool \<Rightarrow> 'sw result" where
  "build_swarm B try_from_owned cfg kad_store is_ws_transport =
     and_then (if is_ws_transport then bu_websocket B else and_then (bu_tcp B False False) (bu_dns B)) (\<lambda>b.
     and_then (bu_relay_client B b) (\<lambda>b.
     and_then (behaviour_of try_from_owned cfg kad_store) (\<lambda>bh.
     and_then (bu_behaviour B bh b) (\<lambda>b.
       Ok (bu_set_mode B (kc_kademlia_mode (lp_kademlia cfg)) (bu_build B (generate_config (bu_default B) cfg) b))))))"

text \<open>\<open>EventLoop::new\<close>; the timer of the bootstrap panics when its period is zero.\<close>

definition event_loop_create ::
    "('proto, memory_store, 'b, 'sw) swarm_builder \<Rightarrow> (string \<Rightarrow> 'proto result) \<Rightarrow> libp2p_config \<Rightarrow> peer_id \<Rightarrow> bool \<Rightarrow> bool \<Rightarrow> peer_id \<Rightarrow>
     'sw event_loop result" where
  "event_loop_create B try_from_owned cfg peer is_fat is_ws_transport random_peer =
     (case build_swarm B try_from_owned cfg (memory_store_with_config peer (memory_store_config_of cfg)) is_ws_transport of
        Err _ \<Rightarrow> Panic ''Unable to build swarm.''
      | Panic m \<Rightarrow> Panic m
      | Ok sw \<Rightarrow>
          if lp_bootstrap_interval cfg = 0 then Panic ''`period` must be non-zero.''
          else Ok (event_loop_new sw cfg is_fat random_peer))"

section \<open>Properties\<close>

text \<open>The protocol name is accepted as long as names with a leading slash are, whatever the configuration.\<close>

lemma protocol_name_accepted:
  assumes "\<And>s. \<exists>p. try_from_owned (CHR ''/'' # s) = Ok p" "libp2p_config_of v cfg = Ok lp"
  shows "\<exists>kad. kad_behaviour_config_of try_from_owned lp = Ok kad"
proof -
  have "\<exists>s. ic_protocol_version (lp_identify lp) = CHR ''/'' # s"
    using assms(2) by (auto simp: libp2p_config_of_def identify_config_of_def IDENTITY_PROTOCOL_def Let_def res_simps)
  then obtain p where "try_from_owned (ic_protocol_version (lp_identify lp)) = Ok p" using assms(1) by metis
  then show ?thesis by (simp add: kad_behaviour_config_of_def)
qed

text \<open>So an event loop is made exactly when every step of the builder succeeds and the bootstrap period is not zero. Its swarm has the configured
  Kademlia mode and limits.\<close>

lemma event_loop_created_iff:
  assumes "\<And>s. \<exists>p. try_from_owned (CHR ''/'' # s) = Ok p" "libp2p_config_of v cfg = Ok lp"
  shows "event_loop_create B try_from_owned lp peer fat ws random_peer = Ok el \<longleftrightarrow>
    bootstrap_period cfg \<noteq> 0 \<and>
    (\<exists>bh b b1 b2. (if ws then bu_websocket B else and_then (bu_tcp B False False) (bu_dns B)) = Ok b \<and> bu_relay_client B b = Ok b1 \<and>
       behaviour_of try_from_owned lp (memory_store_with_config peer (memory_store_config_of lp)) = Ok bh \<and> bu_behaviour B bh b1 = Ok b2 \<and>
       el = event_loop_new (bu_set_mode B (operation_mode cfg) (bu_build B (generate_config (bu_default B) lp) b2)) lp fat random_peer)"
proof -
  have "lp_bootstrap_interval lp = unat (bootstrap_period cfg)" "kc_kademlia_mode (lp_kademlia lp) = operation_mode cfg"
    using assms(2) by (auto simp: libp2p_config_of_def kademlia_config_of_def res_simps)
  moreover obtain bh where "behaviour_of try_from_owned lp (memory_store_with_config peer (memory_store_config_of lp)) = Ok bh"
    using protocol_name_accepted [where try_from_owned = try_from_owned, OF assms] by (auto simp: behaviour_of_def)
  ultimately show ?thesis
    by (auto simp: event_loop_create_def build_swarm_def unat_eq_zero and_then_eq_Ok split: res.splits)
qed

end
