(* ===== verification/Record_Stores.thy ===== *)
theory Record_Stores
  imports Kad_Store
begin

text \<open>
  The trait \<open>RecordStore\<close> of libp2p as the event loop sees it: records and provider records in one store. \<open>RocksDBStore\<close>
  (\<open>src/network/p2p/kad_rocksdb_store.rs\<close>) keeps the records in the database and the providers in memory; here it is put together from both, with
  its configuration.

  The locale \<open>provider_store\<close> extends the contract of the records with the one of the providers: neither kind of operation changes the
  other kind of data, and the providers of a key stay bounded, distinct and ordered. \<open>MemoryStore\<close> and \<open>RocksDBStore\<close> both keep it.
\<close>

section \<open>RocksDBStore\<close>

record rocksdb_store_config =
  rsc_max_value_bytes :: nat
  rsc_providers :: providers_config

record 'db rocksdb_store =
  rst_local_key :: peer_id
  rst_config :: rocksdb_store_config
  rst_records :: 'db
  rst_providers :: providers

definition rocksdb_store_with_config :: "peer_id \<Rightarrow> rocksdb_store_config \<Rightarrow> 'db \<Rightarrow> 'db rocksdb_store" where
  "rocksdb_store_with_config local_id config db =
     \<lparr>rst_local_key = local_id, rst_config = config, rst_records = db, rst_providers = providers_with_config (rsc_providers config)\<rparr>"

definition rst_put :: "'db kad_rocksdb \<Rightarrow> nat \<Rightarrow> 'db rocksdb_store \<Rightarrow> kad_record \<Rightarrow> (store_error, 'db rocksdb_store) res" where
  "rst_put Q now s r = map_res (\<lambda>db. s\<lparr>rst_records := db\<rparr>) (rs_put Q (rsc_max_value_bytes (rst_config s)) now (rst_records s) r)"

definition rst_remove :: "'db kad_rocksdb \<Rightarrow> 'db rocksdb_store \<Rightarrow> record_key \<Rightarrow> 'db rocksdb_store" where
  "rst_remove Q s k = s\<lparr>rst_records := rs_remove Q (rst_records s) k\<rparr>"

definition rst_add_provider ::
    "(record_key \<Rightarrow> peer_id \<Rightarrow> nat) \<Rightarrow> (provider_record \<Rightarrow> provider_record \<Rightarrow> bool) \<Rightarrow>
     'db rocksdb_store \<Rightarrow> provider_record \<Rightarrow> (store_error, 'db rocksdb_store) res" where
  "rst_add_provider distance same s r = map_res (\<lambda>ps. s\<lparr>rst_providers := ps\<rparr>) (add_provider distance same (rst_local_key s) r (rst_providers s))"

definition rst_providers_of :: "'db rocksdb_store \<Rightarrow> record_key \<Rightarrow> provider_record list" where
  "rst_providers_of s k = providers_of k (rst_providers s)"

definition rst_provided :: "'db rocksdb_store \<Rightarrow> provider_record list" where
  "rst_provided s = provided_records (rst_providers s)"

definition rst_remove_provider ::
    "(provider_record \<Rightarrow> provider_record \<Rightarrow> bool) \<Rightarrow> 'db rocksdb_store \<Rightarrow> record_key \<Rightarrow> peer_id \<Rightarrow> 'db rocksdb_store" where
  "rst_remove_provider same s k p = s\<lparr>rst_providers := remove_provider same k p (rst_providers s)\<rparr>"

text \<open>The same for \<open>MemoryStore\<close>.\<close>

definition ms_providers_of :: "memory_store \<Rightarrow> record_key \<Rightarrow> provider_record list" where
  "ms_providers_of s k = providers_of k (ms_providers s)"

definition ms_provided :: "memory_store \<Rightarrow> provider_record list" where
  "ms_provided s = provided_records (ms_providers s)"

section \<open>Reachable stores\<close>

inductive rst_step ::
    "'db kad_rocksdb \<Rightarrow> (record_key \<Rightarrow> peer_id \<Rightarrow> nat) \<Rightarrow> (provider_record \<Rightarrow> provider_record \<Rightarrow> bool) \<Rightarrow>
     'db rocksdb_store \<Rightarrow> 'db rocksdb_store \<Rightarrow> bool"
  for Q distance same where
  rst_step_put: "rst_put Q now s r = Ok s' \<Longrightarrow> rst_step Q distance same s s'"
| rst_step_remove: "rst_step Q distance same s (rst_remove Q s k)"
| rst_step_add: "rst_add_provider distance same s pr = Ok s' \<Longrightarrow> rst_step Q distance same s s'"
| rst_step_remove_provider: "rst_step Q distance same s (rst_remove_provider same s k p)"

definition rst_inv :: "(record_key \<Rightarrow> peer_id \<Rightarrow> nat) \<Rightarrow> 'db rocksdb_store \<Rightarrow> bool" where
  "rst_inv distance s \<longleftrightarrow> ps_config (rst_providers s) = rsc_providers (rst_config s) \<and> providers_inv distance (rst_providers s)"

section \<open>The contract\<close>

locale provider_store = record_store lookup put remove limit
  for lookup :: "'s \<Rightarrow> record_key \<Rightarrow> bytes option" and put remove limit +
  fixes distance :: "record_key \<Rightarrow> peer_id \<Rightarrow> nat"
    and providers_for :: "'s \<Rightarrow> record_key \<Rightarrow> provider_record list"
    and add_prov :: "'s \<Rightarrow> provider_record \<Rightarrow> (store_error, 's) res"
    and remove_prov :: "'s \<Rightarrow> record_key \<Rightarrow> peer_id \<Rightarrow> 's"
    and max_providers :: "'s \<Rightarrow> nat"
    and inv :: "'s \<Rightarrow> bool"
  assumes lookup_add: "add_prov s pr = Ok s' \<Longrightarrow> lookup s' k = lookup s k"
    and lookup_remove_prov: "lookup (remove_prov s k p) k' = lookup s k'"
    and providers_put: "put s r = Ok s' \<Longrightarrow> providers_for s' k = providers_for s k"
    and providers_remove: "providers_for (remove s k') k = providers_for s k"
    and inv_put: "put s r = Ok s' \<Longrightarrow> inv s \<Longrightarrow> inv s'"
    and inv_remove: "inv s \<Longrightarrow> inv (remove s k)"
    and inv_add: "add_prov s pr = Ok s' \<Longrightarrow> inv s \<Longrightarrow> inv s'"
    and inv_remove_prov: "inv s \<Longrightarrow> inv (remove_prov s k p)"
    and inv_bounds: "inv s \<Longrightarrow> key_inv distance (max_providers s) k (providers_for s k)"
begin

lemma providers_bounded:
  assumes "inv s"
  shows "length (providers_for s k) \<le> max_providers s" "distinct (map pr_provider (providers_for s k))"
    "sorted (map (\<lambda>p. distance k (pr_provider p)) (providers_for s k))"
  using inv_bounds [OF assms, of k] by (auto simp: key_inv_def)

text \<open>A record that is put and removed again leaves no trace, whatever happens to the providers in between.\<close>

lemma put_provider_remove:
  assumes "put s r = Ok s1" "add_prov s1 pr = Ok s2"
  shows "lookup (remove (remove_prov s2 k p) (kr_key r)) k' = (if k' = kr_key r then None else lookup s k')"
  by (simp add: lookup_remove lookup_remove_prov lookup_add [OF assms(2)] lookup_put [OF assms(1)])

end

section \<open>Both stores keep it\<close>

lemma providers_of_key_inv:
  assumes "providers_inv distance ps"
  shows "key_inv distance (pc_max_providers_per_key (ps_config ps)) k (providers_of k ps)"
proof (cases "map_of (ps_providers ps) k")
  case None
  then show ?thesis by (simp add: providers_of_def key_inv_def)
next
  case (Some xs)
  then have "(k, xs) \<in> set (ps_providers ps)" by (rule map_of_SomeD)
  with assms Some show ?thesis by (auto simp: providers_of_def providers_inv_def)
qed

lemma ms_inv_ops:
  "ms_put s r = Ok s' \<Longrightarrow> ms_inv distance (ms_config s) s \<Longrightarrow> ms_inv distance (ms_config s') s'"
  "ms_inv distance (ms_config s) s \<Longrightarrow> ms_inv distance (ms_config (ms_remove s k)) (ms_remove s k)"
  "ms_add_provider distance same s pr = Ok s' \<Longrightarrow> ms_inv distance (ms_config s) s \<Longrightarrow> ms_inv distance (ms_config s') s'"
  "ms_inv distance (ms_config s) s \<Longrightarrow> ms_inv distance (ms_config (ms_remove_provider same s k p)) (ms_remove_provider same s k p)"
proof -
  have cfg: "ms_inv distance (ms_config s') s'" if "ms_inv distance c s'" for c and s' :: memory_store
    using that by (simp add: ms_inv_def)
  show "ms_put s r = Ok s' \<Longrightarrow> ms_inv distance (ms_config s) s \<Longrightarrow> ms_inv distance (ms_config s') s'"
    using cfg ms_inv_step [OF ms_step_put] by blast
  show "ms_inv distance (ms_config s) s \<Longrightarrow> ms_inv distance (ms_config (ms_remove s k)) (ms_remove s k)"
    using cfg ms_inv_step [OF ms_step_remove] by blast
  show "ms_add_provider distance same s pr = Ok s' \<Longrightarrow> ms_inv distance (ms_config s) s \<Longrightarrow> ms_inv distance (ms_config s') s'"
    using cfg ms_inv_step [OF ms_step_add] by blast
  show "ms_inv distance (ms_config s) s \<Longrightarrow> ms_inv distance (ms_config (ms_remove_provider same s k p)) (ms_remove_provider same s k p)"
    using cfg ms_inv_step [OF ms_step_remove_provider] by blast
qed

interpretation memory_providers: provider_store "\<lambda>s k. map_option kr_value (ms_get s k)" ms_put ms_remove
    "\<lambda>s. ms_max_value_bytes (ms_config s)" distance ms_providers_of "ms_add_provider distance same" "ms_remove_provider same"
    "\<lambda>s. pc_max_providers_per_key (ms_providers_config (ms_config s))" "\<lambda>s. ms_inv distance (ms_config s) s"
  for distance same
proof unfold_locales
  show "key_inv distance (pc_max_providers_per_key (ms_providers_config (ms_config s))) k (ms_providers_of s k)"
    if "ms_inv distance (ms_config s) s" for s k
    using that providers_of_key_inv [of distance "ms_providers s" k] by (simp add: ms_inv_def ms_providers_of_def)
qed ((erule (1) ms_inv_ops | erule ms_inv_ops |
    (auto simp: ms_get_def ms_remove_provider_def ms_add_provider_def ms_put_eq_Ok ms_providers_of_def ms_remove_def res_simps)[1])+)

lemma rst_put_eq_Ok:
  "rst_put Q now s r = Ok s' \<longleftrightarrow>
     (\<exists>db. rs_put Q (rsc_max_value_bytes (rst_config s)) now (rst_records s) r = Ok db \<and> s' = s\<lparr>rst_records := db\<rparr>)"
  by (auto simp: rst_put_def res_simps)

lemma rst_add_eq_Ok:
  "rst_add_provider distance same s pr = Ok s' \<longleftrightarrow>
     (\<exists>ps. add_provider distance same (rst_local_key s) pr (rst_providers s) = Ok ps \<and> s' = s\<lparr>rst_providers := ps\<rparr>)"
  by (auto simp: rst_add_provider_def res_simps)

lemma rst_inv_step: "rst_step Q distance same s s' \<Longrightarrow> rst_inv distance s \<Longrightarrow> rst_inv distance s'"
proof (induction rule: rst_step.induct)
  case (rst_step_add s pr s')
  then show ?case using add_provider_inv by (fastforce simp: rst_add_eq_Ok rst_inv_def)
next
  case (rst_step_remove_provider s k p)
  then show ?case using remove_provider_inv [of distance "rst_providers s" same k p] by (simp add: rst_inv_def rst_remove_provider_def)
qed (auto simp: rst_put_eq_Ok rst_inv_def rst_remove_def)

interpretation rst: invariant_steps "rst_step Q distance same" "rst_inv distance" for Q distance same
  by unfold_locales (rule rst_inv_step)

sublocale rocks_store \<subseteq> whole: provider_store "\<lambda>s. rs_value Q (rst_records s)" "rst_put Q now" "rst_remove Q"
    "\<lambda>s. rsc_max_value_bytes (rst_config s)" distance rst_providers_of "rst_add_provider distance same" "rst_remove_provider same"
    "\<lambda>s. pc_max_providers_per_key (rsc_providers (rst_config s))" "rst_inv distance"
  for now distance same
proof unfold_locales
  show "key_inv distance (pc_max_providers_per_key (rsc_providers (rst_config s))) k (rst_providers_of s k)"
    if "rst_inv distance s" for s :: "'a rocksdb_store" and k
    using that providers_of_key_inv [of distance "rst_providers s" k] by (simp add: rst_inv_def rst_providers_of_def)
qed ((erule rst_inv_step [OF rst_step_put], assumption | rule rst_inv_step [OF rst_step_remove], assumption |
    erule rst_inv_step [OF rst_step_add], assumption | rule rst_inv_step [OF rst_step_remove_provider], assumption |
    (auto simp: rst_put_eq_Ok rst_add_eq_Ok rst_remove_def rst_remove_provider_def rst_providers_of_def rs_value_put' rs_value_remove rs_put_eq_Ok)[1])+)

section \<open>Properties\<close>

text \<open>The providers that a RocksDB store keeps in memory are bounded whatever the network sends.\<close>

lemma rocksdb_store_providers_bounded:
  assumes "(rst_step Q distance same)\<^sup>*\<^sup>* (rocksdb_store_with_config local_id c db) s"
  shows "rst_inv distance s"
proof -
  have "rst_inv distance (rocksdb_store_with_config local_id c db)"
    by (simp add: rst_inv_def rocksdb_store_with_config_def providers_with_config_def providers_inv_def)
  then show ?thesis by (rule rst.inv_steps [OF assms])
qed

end
