(* ===== verification/Analyzer.thy ===== *)
theory Analyzer
  imports Text_Format
begin

text \<open>
  The traffic analyzer (\<open>src/network/p2p/analyzer.rs\<close>): the choice of the network interface, the captures and the counter of bytes.

  The crate \<open>pcap\<close> is a parameter. The captures that run in threads of their own are the list that the operations extend; the counter is an atomic
  \<open>u32\<close>, which wraps. The lemmas show which interface is listened to, that the analyzer reports even when no capture
  could be opened, and what the counter holds.
\<close>

section \<open>Devices and captures\<close>

record device =
  dv_name :: string
  dv_addresses :: "string list"
  dv_connected :: bool

text \<open>\<open>Device::list\<close>, \<open>Capture::from_device\<close>, \<open>open\<close> of a capture in immediate and promiscuous mode, and \<open>filter\<close>.\<close>

record ('i, 'cap) pcap =
  pc_list :: "device list result"
  pc_from_device :: "string \<Rightarrow> 'i result"
  pc_open :: "bool \<Rightarrow> bool \<Rightarrow> 'i \<Rightarrow> 'cap result"
  pc_filter :: "string \<Rightarrow> 'cap \<Rightarrow> 'cap result"

definition open_capture_from_device :: "('i, 'cap) pcap \<Rightarrow> string \<Rightarrow> 'cap result" where
  "open_capture_from_device P device_name = and_then (pc_from_device P device_name) (pc_open P True True)"

text \<open>A capture that could not be opened or filtered is only logged; the result is \<open>Ok\<close> in every case.\<close>

definition start_listening_on_device :: "('i, 'cap) pcap \<Rightarrow> string \<Rightarrow> u16 \<Rightarrow> 'cap list \<Rightarrow> unit result \<times> 'cap list" where
  "start_listening_on_device P device_name prt caps =
     (case and_then (open_capture_from_device P device_name) (pc_filter P (''udp port '' @ show_word prt)) of
        Ok capture \<Rightarrow> (Ok (), caps @ [capture])
      | _ \<Rightarrow> (Ok (), caps))"

definition pick_device :: "device list \<Rightarrow> device option" where
  "pick_device devices = fold (\<lambda>device dev. if dv_addresses device \<noteq> [] \<and> dv_connected device then Some device else dev) devices None"

text \<open>The result: the captures and whether the throughput is reported; \<open>None\<close> when there is no list of devices.\<close>

definition start_traffic_analyzer :: "('i, 'cap) pcap \<Rightarrow> u16 \<Rightarrow> ('cap list \<times> bool) option" where
  "start_traffic_analyzer P prt =
     (case pc_list P of
        Ok devices \<Rightarrow>
          (case start_listening_on_device P ''lo'' prt [] of
             (r, caps) \<Rightarrow>
               (case pick_device devices of
                  None \<Rightarrow> Some (caps, is_ok r)
                | Some device \<Rightarrow>
                    (case start_listening_on_device P (dv_name device) prt caps of
                       (r', caps') \<Rightarrow> Some (caps', is_ok r \<or> is_ok r'))))
      | _ \<Rightarrow> None)"

section \<open>The counter\<close>

text \<open>\<open>packet.len().try_into().unwrap_or(0)\<close> is added for every packet; a failed read is skipped.\<close>

definition packet_bytes :: "nat \<Rightarrow> u32" where
  "packet_bytes len = (if len < 2 ^ 32 then word_of_nat len else 0)"

fun listen_packets :: "nat result list \<Rightarrow> u32 \<Rightarrow> u32" where
  "listen_packets [] bytes = bytes"
| "listen_packets (Ok len # ps) bytes = listen_packets ps (bytes + packet_bytes len)"
| "listen_packets (_ # ps) bytes = listen_packets ps bytes"

section \<open>Properties\<close>

lemma pick_device_last:
  "pick_device devices = (case filter (\<lambda>d. dv_addresses d \<noteq> [] \<and> dv_connected d) devices of [] \<Rightarrow> None | ds \<Rightarrow> Some (last ds))"
  unfolding pick_device_def by (induction devices rule: rev_induct) (auto split: list.splits)

text \<open>The analyzer reports whenever the devices can be listed, also when no capture was opened: the warning that no interface can be listened
  on is never given.\<close>

lemma analyzer_always_reports: "start_traffic_analyzer P prt = Some (caps, b) \<Longrightarrow> b"
  by (auto simp: start_traffic_analyzer_def start_listening_on_device_def split: res.splits option.splits prod.splits)

text \<open>The counter is the sum of the sizes modulo \<open>2^32\<close>, as long as single packets are below that.\<close>

lemma listen_packets_sum:
  "\<forall>len. Ok len \<in> set ps \<longrightarrow> len < 2 ^ 32 \<Longrightarrow>
     listen_packets ps bytes = bytes + word_of_nat (sum_list (map (\<lambda>p. case p of Ok len \<Rightarrow> len | _ \<Rightarrow> 0) ps))"
  by (induction ps bytes rule: listen_packets.induct) (auto simp: packet_bytes_def)

end
