(* ===== verification/Api_Compat.thy ===== *)
theory Api_Compat
  imports Rpc_Methods
begin

text \<open>
  The compatibility test (\<open>src/bin/api_compat_test.rs\<close>): it connects to a node, calls the methods of the RPC client one after the other and ends with
  exit code 1 when one of them failed.

  The calls are those of \<open>Rpc_Client\<close> and \<open>Rpc_Methods\<close>; the outcome of opening the database and of \<open>rpc::init\<close> are parameters. What is printed for a call
  is its mark in \<open>cm_marks\<close>. The lemmas show that the exit code tells whether every call succeeded.
\<close>

section \<open>The checks\<close>

record ('w, 'cl) compat =
  cm_client :: "('w, 'cl) rpc_client"
  cm_correct :: bool
  cm_marks :: "bool list"

text \<open>A call of the client followed by \<open>res_helper\<close>, which sets the flag when the call failed.\<close>

definition res_helper :: "'a result \<Rightarrow> ('w, 'cl) compat \<Rightarrow> ('w, 'cl) compat" where
  "res_helper res s =
     (case res of Ok _ \<Rightarrow> s\<lparr>cm_marks := cm_marks s @ [True]\<rparr> | _ \<Rightarrow> s\<lparr>cm_correct := False, cm_marks := cm_marks s @ [False]\<rparr>)"

definition compat_check :: "(('w, 'cl) rpc_client, 'a) op \<Rightarrow> (('w, 'cl) compat, 'a result) op" where
  "compat_check m s =
     (case m (cm_client s) of
        (Panic e, c) \<Rightarrow> (Panic e, s\<lparr>cm_client := c\<rparr>)
      | (res, c) \<Rightarrow> (Ok res, res_helper res (s\<lparr>cm_client := c\<rparr>)))"

text \<open>A call whose result is unwrapped before it is judged.\<close>

definition compat_unwrap :: "(('w, 'cl) rpc_client, 'a) op \<Rightarrow> (('w, 'cl) compat, 'a) op" where
  "compat_unwrap m s =
     (case m (cm_client s) of
        (Ok x, c) \<Rightarrow> (Ok x, res_helper (Ok x :: 'a result) (s\<lparr>cm_client := c\<rparr>))
      | (Err e, c) \<Rightarrow> (Panic ''called `Result::unwrap()` on an `Err` value'', s\<lparr>cm_client := c\<rparr>)
      | (Panic e, c) \<Rightarrow> (Panic e, s\<lparr>cm_client := c\<rparr>))"

text \<open>How often and with which outcome the calls are retried.\<close>

record ('w, 'cl, 'rv) compat_retries =
  cr_string :: "('w, 'cl, string) retries"
  cr_runtime :: "('w, 'cl, 'rv) retries"
  cr_hash :: "('w, 'cl, h256) retries"
  cr_hash_option :: "('w, 'cl, h256 option) retries"
  cr_header :: "('w, 'cl, header) retries"
  cr_authorities :: "('w, 'cl, (public_key \<times> u64) list) retries"
  cr_set_id :: "('w, 'cl, u64 option) retries"
  cr_proofs :: "('w, 'cl, (h256 \<times> bytes) list) retries"
  cr_rows :: "('w, 'cl, bytes list) retries"

definition compat_calls ::
    "('w, 'cl) subxt_env \<Rightarrow> ('w, 'cl) node_api \<Rightarrow> ('w, 'cl, 'h, 'key, 'ev, 'rv) node_calls \<Rightarrow> ('w, 'cl, 'rv) compat_retries \<Rightarrow>
     (('w, 'cl) compat, unit) op" where
  "compat_calls X A C R =
     op_bind (compat_check (get_system_version X (cr_string R))) (\<lambda>_.
     op_bind (compat_check (get_runtime_version X C (cr_runtime R))) (\<lambda>_.
     op_bind (compat_unwrap (get_chain_head_header X A (cr_hash R) (cr_header R))) (\<lambda>hd.
     op_bind (compat_unwrap (get_finalized_head_hash X A (cr_hash R))) (\<lambda>hash.
     op_bind (compat_check (get_block_hash X A (cr_hash_option R) (h_number hd))) (\<lambda>_.
     op_bind (compat_check (get_header_by_block_number X A (cr_hash_option R) (cr_header R) (h_number hd))) (\<lambda>_.
     op_bind (compat_check (get_header_by_hash X A (cr_header R) hash)) (\<lambda>_.
     op_bind (compat_check (get_validator_set_by_block_number X A (cr_hash_option R) (cr_authorities R) (h_number hd))) (\<lambda>_.
     op_bind (compat_check (get_validator_set_by_hash X A (cr_authorities R) hash)) (\<lambda>_.
     op_bind (compat_check (fetch_set_id_at X A (cr_set_id R) hash)) (\<lambda>_.
     op_bind (compat_check (get_current_set_id_by_block_number X A (cr_hash_option R) (cr_set_id R) (h_number hd))) (\<lambda>_.
     op_bind (compat_check (request_kate_proof X A (cr_proofs R) hash [\<lparr>pos_row = 0, pos_col = 0\<rparr>])) (\<lambda>_.
     op_bind (compat_check (request_kate_rows X A (cr_rows R) [0] hash)) (\<lambda>_.
       op_return ())))))))))))))"

text \<open>\<open>main\<close>: the exit code, or the error or panic that ends it. \<open>opened\<close> is the outcome of \<open>RocksDB::open\<close>, \<open>connect\<close> the one of \<open>rpc::init\<close>.\<close>

definition compat_main ::
    "('w, 'cl) subxt_env \<Rightarrow> ('w, 'cl) node_api \<Rightarrow> ('w, 'cl, 'h, 'key, 'ev, 'rv) node_calls \<Rightarrow> ('w, 'cl, 'rv) compat_retries \<Rightarrow>
     unit result \<Rightarrow> ('w, 'cl) rpc_client result \<Rightarrow> nat result \<times> bool list" where
  "compat_main X A C R opened connect =
     (case and_then (wrap_err ''API Compatibility Test could not initialize database'' opened) (\<lambda>_. connect) of
        Ok c \<Rightarrow>
          (case compat_calls X A C R \<lparr>cm_client = c, cm_correct = True, cm_marks = []\<rparr> of
             (r, s) \<Rightarrow> (map_res (\<lambda>_. if cm_correct s then 0 else 1) r, cm_marks s))
      | Err e \<Rightarrow> (Err e, [])
      | Panic m \<Rightarrow> (Panic m, []))"

section \<open>Lemmas\<close>

text \<open>An operation that makes one mark when it does not panic, and keeps the flag equal to the conjunction of the marks.\<close>

definition flag_ok :: "('w, 'cl) compat \<Rightarrow> bool" where
  "flag_ok s \<longleftrightarrow> (cm_correct s \<longleftrightarrow> (\<forall>b \<in> set (cm_marks s). b))"

definition marks :: "nat \<Rightarrow> (('w, 'cl) compat, 'a) op \<Rightarrow> bool" where
  "marks k m \<longleftrightarrow>
     (\<forall>s r s'. m s = (r, s') \<longrightarrow> flag_ok s \<longrightarrow> flag_ok s' \<and>
        (case r of Ok _ \<Rightarrow> length (cm_marks s') = length (cm_marks s) + k | Err _ \<Rightarrow> False | Panic _ \<Rightarrow> True))"

lemma marks_check: "marks 1 (compat_check m)"
  by (auto simp: marks_def flag_ok_def compat_check_def res_helper_def split: prod.splits res.splits)

lemma marks_unwrap: "marks 1 (compat_unwrap m)"
  by (auto simp: marks_def flag_ok_def compat_unwrap_def res_helper_def split: prod.splits res.splits)

lemma marks_return: "marks 0 (op_return x)"
  by (simp add: marks_def op_return_def)

lemma marks_bind:
  assumes "marks 1 m" "\<And>x. marks k (f x)"
  shows "marks (Suc k) (op_bind m f)"
  unfolding marks_def
proof (intro allI impI)
  fix s r s'
  assume run: "op_bind m f s = (r, s')" and inv: "flag_ok s"
  obtain r1 s1 where m: "m s = (r1, s1)" by fastforce
  have s1: "flag_ok s1" "case r1 of Ok _ \<Rightarrow> length (cm_marks s1) = length (cm_marks s) + 1 | Err _ \<Rightarrow> False | Panic _ \<Rightarrow> True"
    using assms(1) m inv unfolding marks_def by blast+
  show "flag_ok s' \<and> (case r of Ok _ \<Rightarrow> length (cm_marks s') = length (cm_marks s) + Suc k | Err _ \<Rightarrow> False | Panic _ \<Rightarrow> True)"
  proof (cases r1)
    case (Ok x)
    then have "f x s1 = (r, s')" using run m by (simp add: op_bind_def)
    with assms(2) [of x] s1(1)
    have "flag_ok s' \<and> (case r of Ok _ \<Rightarrow> length (cm_marks s') = length (cm_marks s1) + k | Err _ \<Rightarrow> False | Panic _ \<Rightarrow> True)"
      unfolding marks_def by blast
    with s1(2) Ok show ?thesis by (auto split: res.splits)
  qed (use run m s1 in \<open>auto simp: op_bind_def\<close>)
qed

lemma marks_calls: "marks 13 (compat_calls X A C R)"
proof -
  have "marks (Suc (Suc (Suc (Suc (Suc (Suc (Suc (Suc (Suc (Suc (Suc (Suc (Suc 0))))))))))))) (compat_calls X A C R)"
    unfolding compat_calls_def by (intro marks_bind marks_check marks_unwrap marks_return)
  then show ?thesis by (simp add: eval_nat_numeral)
qed

section \<open>Properties\<close>

text \<open>When the test runs to its end, all thirteen calls were judged, and the exit code is 0 exactly when all of them succeeded.\<close>

lemma compat_exit_code:
  assumes "compat_main X A C R opened connect = (Ok code, ms)"
  shows "length ms = 13 \<and> code = (if \<forall>b \<in> set ms. b then 0 else 1)"
proof -
  obtain c where c: "and_then (wrap_err ''API Compatibility Test could not initialize database'' opened) (\<lambda>_. connect) = Ok c"
    using assms by (auto simp: compat_main_def split: res.splits)
  obtain r s where calls: "compat_calls X A C R \<lparr>cm_client = c, cm_correct = True, cm_marks = []\<rparr> = (r, s)" by fastforce
  with c assms have r: "r = Ok ()" "code = (if cm_correct s then 0 else 1)" "ms = cm_marks s"
    by (cases r; auto simp: compat_main_def)+
  have "flag_ok s \<and> (case r of Ok _ \<Rightarrow> length (cm_marks s) = 0 + 13 | Err _ \<Rightarrow> False | Panic _ \<Rightarrow> True)"
    using marks_calls [of X A C R, unfolded marks_def, rule_format, OF calls] by (auto simp: flag_ok_def split: res.splits)
  with r show ?thesis by (simp add: flag_ok_def)
qed

end
