(* ===== verification/P2p_Requests.thy ===== *)
theory P2p_Requests
  imports Event_Loop
begin

text \<open>
  Requests to the event loop and their replies (\<open>src/network/p2p/client.rs\<close>, \<open>src/network/p2p/event_loop.rs\<close>). A caller of the
  peer-to-peer client makes a one-shot channel, sends a command with the sender of the channel to the event loop and awaits the reply. The sender
  is in one place at a time: in the command, in the map of pending queries or in the map of pending dials; a reply uses it up, and a
  sender that is dropped leaves the caller with an error.

  Three layers: \<open>request_step\<close> is the specification, a table with the state of every request; \<open>owner_step\<close> are the moves of the
  senders between their places; and the event loop makes such moves. The lemmas show that each layer implements the one above it.
\<close>

section \<open>The specification\<close>

fun command_channel :: "command \<Rightarrow> channel option" where
  "command_channel (PruneExpiredRecords now ch) = Some ch"
| "command_channel (StartListening addr ch) = Some ch"
| "command_channel (AddAddress p addr) = None"
| "command_channel (Bootstrap ch) = Some ch"
| "command_channel (GetKadRecord k ch) = Some ch"
| "command_channel (PutKadRecord rs block_num) = None"
| "command_channel (CountConnectedPeers ch) = Some ch"
| "command_channel (GetLocalInfo ch) = Some ch"
| "command_channel (ListConnectedPeers ch) = Some ch"
| "command_channel (ReduceKademliaMapSize ch) = Some ch"
| "command_channel (GetKademliaMapSize ch) = Some ch"
| "command_channel (DialPeer p addrs ch) = Some ch"
| "command_channel (AddAutonatServer p addr ch) = Some ch"

text \<open>The reply has the type of the request; a record has the requested key and a connection is one to the dialled peer.\<close>

fun reply_fits :: "command \<Rightarrow> reply \<Rightarrow> bool" where
  "reply_fits (PruneExpiredRecords now ch) (CountReply r) = True"
| "reply_fits (StartListening addr ch) (UnitReply r) = True"
| "reply_fits (Bootstrap ch) (UnitReply r) = True"
| "reply_fits (GetKadRecord k ch) (RecordReply r) = (\<forall>rec. r = Ok rec \<longrightarrow> kr_key rec = k)"
| "reply_fits (CountConnectedPeers ch) (CountReply r) = True"
| "reply_fits (GetLocalInfo ch) (InfoReply r) = True"
| "reply_fits (ListConnectedPeers ch) (PeersReply r) = True"
| "reply_fits (ReduceKademliaMapSize ch) (UnitReply r) = True"
| "reply_fits (GetKademliaMapSize ch) (CountReply r) = True"
| "reply_fits (DialPeer p addrs ch) (ConnectionReply r) = (\<forall>info. r = Ok info \<longrightarrow> ci_peer_id info = p)"
| "reply_fits (AddAutonatServer p addr ch) (UnitReply r) = True"
| "reply_fits _ _ = False"

datatype request_state = Waiting | Answered reply | Dropped

type_synonym requests = "channel \<rightharpoonup> command \<times> request_state"

inductive request_step :: "requests \<Rightarrow> requests \<Rightarrow> bool" where
  opened: "t ch = None \<Longrightarrow> command_channel c = Some ch \<Longrightarrow> request_step t (t(ch \<mapsto> (c, Waiting)))"
| answered: "t ch = Some (c, Waiting) \<Longrightarrow> reply_fits c r \<Longrightarrow> request_step t (t(ch \<mapsto> (c, Answered r)))"
| dropped: "t ch = Some (c, Waiting) \<Longrightarrow> request_step t (t(ch \<mapsto> (c, Dropped)))"

section \<open>The places of the senders\<close>

datatype place = InHand | AtQuery query_id | AtDial peer_id

text \<open>\<open>h\<close> is the sender in the command that is being run.\<close>

fun sender_at :: "channel option \<Rightarrow> 'sw event_loop \<Rightarrow> place \<Rightarrow> channel option" where
  "sender_at h s InHand = h"
| "sender_at h s (AtQuery i) =
     (case el_pending_kad_queries s i of
        Some (QGetRecord ch) \<Rightarrow> Some ch
      | Some (QBootstrap ch) \<Rightarrow> Some ch
      | _ \<Rightarrow> None)"
| "sender_at h s (AtDial p) = el_pending_swarm_events s p"

type_synonym owners = "place \<rightharpoonup> channel"
type_synonym replies = "(channel \<times> reply) list"

text \<open>A sender is used for a reply, dropped, or moved to a free place.\<close>

inductive owner_step :: "command list \<Rightarrow> owners \<times> replies \<Rightarrow> owners \<times> replies \<Rightarrow> bool" for cs where
  send: "F x = Some ch \<Longrightarrow> c \<in> set cs \<Longrightarrow> command_channel c = Some ch \<Longrightarrow> reply_fits c r \<Longrightarrow>
     owner_step cs (F, R) (F(x := None), R @ [(ch, r)])"
| drop: "F x = Some ch \<Longrightarrow> owner_step cs (F, R) (F(x := None), R)"
| move: "F x = Some ch \<Longrightarrow> F y = None \<Longrightarrow> owner_step cs (F, R) (F(x := None, y \<mapsto> ch), R)"

definition channels :: "command list \<Rightarrow> channel list" where
  "channels cs = List.map_filter command_channel cs"

definition owned :: "command list \<Rightarrow> owners \<times> replies \<Rightarrow> bool" where
  "owned cs fr \<longleftrightarrow>
     distinct (channels cs) \<and> distinct (map fst (snd fr)) \<and> inj_on (fst fr) (dom (fst fr)) \<and>
     ran (fst fr) \<inter> fst ` set (snd fr) = {} \<and> ran (fst fr) \<subseteq> set (channels cs) \<and> fst ` set (snd fr) \<subseteq> set (channels cs)"

text \<open>The table of the specification: a request without a reply waits as long as its sender is somewhere.\<close>

definition request_state_of :: "owners \<times> replies \<Rightarrow> channel \<Rightarrow> request_state" where
  "request_state_of fr ch =
     (case map_of (snd fr) ch of
        Some r \<Rightarrow> Answered r
      | None \<Rightarrow> if ch \<in> ran (fst fr) then Waiting else Dropped)"

definition requests_of :: "command list \<Rightarrow> owners \<times> replies \<Rightarrow> requests" where
  "requests_of cs fr ch = map_option (\<lambda>c. (c, request_state_of fr ch)) (find (\<lambda>c. command_channel c = Some ch) cs)"

section \<open>What a run takes and what libp2p promises\<close>

fun input_commands :: "el_input \<Rightarrow> command list" where
  "input_commands (CommandInput c) = [c]"
| "input_commands _ = []"

fun commands_taken :: "('sw, 'ver) swarm_ops \<Rightarrow> (draws \<times> el_input) list \<Rightarrow> 'sw event_loop \<Rightarrow> command list" where
  "commands_taken N [] s = []"
| "commands_taken N ((D, i) # is) s =
     (if i = CommandsClosed \<or> i = ShutdownTriggered then []
      else input_commands i @ (case el_step N D i s of (Ok _, s') \<Rightarrow> commands_taken N is s' | _ \<Rightarrow> []))"

text \<open>A query has one key, for which it is issued and of which it finds records.\<close>

fun keyed_input :: "('sw, 'ver) swarm_ops \<Rightarrow> (query_id \<Rightarrow> record_key) \<Rightarrow> el_input \<Rightarrow> 'sw event_loop \<Rightarrow> bool" where
  "keyed_input N key_of (CommandInput (GetKadRecord k ch)) s \<longleftrightarrow> key_of (fst (so_get_record N k (el_swarm s))) = k"
| "keyed_input N key_of (SwarmInput (Kademlia (OutboundQueryProgressed i (GetRecordFound r) stats))) s \<longleftrightarrow> kr_key r = key_of i"
| "keyed_input N key_of _ s \<longleftrightarrow> True"

fun keyed_run :: "('sw, 'ver) swarm_ops \<Rightarrow> (query_id \<Rightarrow> record_key) \<Rightarrow> (draws \<times> el_input) list \<Rightarrow> 'sw event_loop \<Rightarrow> bool" where
  "keyed_run N key_of [] s \<longleftrightarrow> True"
| "keyed_run N key_of ((D, i) # is) s \<longleftrightarrow>
     (if i = CommandsClosed \<or> i = ShutdownTriggered then True
      else keyed_input N key_of i s \<and> (case el_step N D i s of (Ok _, s') \<Rightarrow> keyed_run N key_of is s' | _ \<Rightarrow> True))"

text \<open>A pending sender is the one of a request of the kind of its place.\<close>

definition senders_fit :: "(query_id \<Rightarrow> record_key) \<Rightarrow> command list \<Rightarrow> 'sw event_loop \<Rightarrow> bool" where
  "senders_fit key_of cs s \<longleftrightarrow>
     (\<forall>i ch. el_pending_kad_queries s i = Some (QGetRecord ch) \<longrightarrow> GetKadRecord (key_of i) ch \<in> set cs) \<and>
     (\<forall>i ch. el_pending_kad_queries s i = Some (QBootstrap ch) \<longrightarrow> Bootstrap ch \<in> set cs) \<and>
     (\<forall>p ch. el_pending_swarm_events s p = Some ch \<longrightarrow> (\<exists>addrs. DialPeer p addrs ch \<in> set cs))"

definition owner_view :: "channel option \<Rightarrow> 'sw event_loop \<Rightarrow> owners \<times> replies" where
  "owner_view h s = (sender_at h s, el_replies s)"

definition same_requests :: "'sw event_loop \<Rightarrow> 'sw event_loop \<Rightarrow> bool" where
  "same_requests s t \<longleftrightarrow> el_pending_kad_queries t = el_pending_kad_queries s \<and>
     el_pending_swarm_events t = el_pending_swarm_events s \<and> el_replies t = el_replies s"

text \<open>An example: a record is requested and found, and a peer is dialled twice before the connection is made.\<close>

definition found_record :: kad_record where
  "found_record = \<lparr>kr_key = [7], kr_value = [1, 2], kr_publisher = None, kr_expires = None\<rparr>"

definition sample_request :: "(draws \<times> el_input) list" where
  "sample_request = [(sample_draws, CommandInput (GetKadRecord [7] 1)), (sample_draws, CommandInput (DialPeer [5] [] 2))]"

definition sample_answers :: "(draws \<times> el_input) list" where
  "sample_answers =
     [(sample_draws, SwarmInput (Kademlia (OutboundQueryProgressed 0 (GetRecordFound found_record) None))),
      (sample_draws, CommandInput (DialPeer [5] [] 3)),
      (sample_draws, SwarmInput (ConnectionEstablished
         \<lparr>ci_peer_id = [5], ci_endpoint = '''', ci_established_in = 0, ci_num_established = 1\<rparr>))]"

section \<open>Invariants of the specification\<close>

definition answers_fit :: "requests \<Rightarrow> bool" where
  "answers_fit t \<longleftrightarrow> (\<forall>ch c r. t ch = Some (c, Answered r) \<longrightarrow> reply_fits c r)"

definition settled :: "channel \<Rightarrow> command \<times> request_state \<Rightarrow> requests \<Rightarrow> bool" where
  "settled ch x t \<longleftrightarrow> t ch = Some x \<and> snd x \<noteq> Waiting"

interpretation answers: invariant_steps request_step answers_fit
  by unfold_locales (auto simp: answers_fit_def elim!: request_step.cases split: if_splits)

text \<open>A request that is answered or dropped stays as it is.\<close>

interpretation settles: invariant_steps request_step "settled ch x" for ch x
  by unfold_locales (auto simp: settled_def elim!: request_step.cases)

section \<open>The moves of the senders\<close>

lemma find_channel:
  assumes "distinct (channels cs)" "c \<in> set cs" "command_channel c = Some ch"
  shows "find (\<lambda>c. command_channel c = Some ch) cs = Some c"
  using assms
proof (induction cs)
  case (Cons d cs)
  have "ch \<in> set (channels cs)" if "c \<in> set cs" using that Cons.prems(3) by (force simp: channels_def List.map_filter_def)
  then show ?case using Cons by (auto simp: channels_def List.map_filter_simps split: option.splits)
qed simp

lemma find_channel_None: "find (\<lambda>c. command_channel c = Some ch) cs = None \<longleftrightarrow> ch \<notin> set (channels cs)"
  by (force simp: find_None_iff channels_def List.map_filter_def)

lemma channels_append [simp]: "channels (cs @ ds) = channels cs @ channels ds"
  by (simp add: channels_def List.map_filter_def)

lemma ran_remove: "inj_on F (dom F) \<Longrightarrow> F x = Some ch \<Longrightarrow> ran (F(x := None)) = ran F - {ch}"
  unfolding ran_def inj_on_def dom_def by (auto split: if_splits) (metis option.inject)

lemma find_append: "find P (xs @ ys) = (case find P xs of None \<Rightarrow> find P ys | Some x \<Rightarrow> Some x)"
  by (induction xs) auto

lemma ran_move: "inj_on F (dom F) \<Longrightarrow> F x = Some ch \<Longrightarrow> F y = None \<Longrightarrow> ran (F(x := None, y \<mapsto> ch)) = ran F"
  by (subst ran_map_upd) (auto simp: ran_remove intro: ranI)

lemma inj_move: "inj_on F (dom F) \<Longrightarrow> F x = Some ch \<Longrightarrow> F y = None \<Longrightarrow> inj_on (F(x := None, y \<mapsto> ch)) (dom (F(x := None, y \<mapsto> ch)))"
  by (auto simp: inj_on_def dom_def split: if_splits)

lemma requests_of_answered:
  assumes "owned cs (F, R)" "F x = Some ch" "c \<in> set cs" "command_channel c = Some ch"
  shows "requests_of cs (F(x := None), R @ [(ch, r)]) = (requests_of cs (F, R))(ch \<mapsto> (c, Answered r))"
proof
  have "map_of R ch = None" using assms(1,2) by (auto simp: owned_def map_of_eq_None_iff intro: ranI)
  moreover have "ran (F(x := None)) = ran F - {ch}" using assms(1,2) by (simp add: owned_def ran_remove)
  moreover have "find (\<lambda>c. command_channel c = Some ch) cs = Some c" using assms by (simp add: owned_def find_channel)
  ultimately show "requests_of cs (F(x := None), R @ [(ch, r)]) ch' = ((requests_of cs (F, R))(ch \<mapsto> (c, Answered r))) ch'" for ch'
    by (auto simp: requests_of_def request_state_of_def map_add_def split: option.splits)
qed

lemma requests_of_dropped:
  assumes "owned cs (F, R)" "F x = Some ch" "c \<in> set cs" "command_channel c = Some ch"
  shows "requests_of cs (F(x := None), R) = (requests_of cs (F, R))(ch \<mapsto> (c, Dropped))"
proof
  have "map_of R ch = None" using assms(1,2) by (auto simp: owned_def map_of_eq_None_iff intro: ranI)
  moreover have "ran (F(x := None)) = ran F - {ch}" using assms(1,2) by (simp add: owned_def ran_remove)
  moreover have "find (\<lambda>c. command_channel c = Some ch) cs = Some c" using assms by (simp add: owned_def find_channel)
  ultimately show "requests_of cs (F(x := None), R) ch' = ((requests_of cs (F, R))(ch \<mapsto> (c, Dropped))) ch'" for ch'
    by (auto simp: requests_of_def request_state_of_def split: option.splits)
qed

lemma requests_of_waiting:
  assumes "owned cs (F, R)" "F x = Some ch" "c \<in> set cs" "command_channel c = Some ch"
  shows "requests_of cs (F, R) ch = Some (c, Waiting)"
proof -
  have "map_of R ch = None" using assms(1,2) by (auto simp: owned_def map_of_eq_None_iff intro: ranI)
  then show ?thesis using assms by (simp add: owned_def requests_of_def request_state_of_def find_channel ranI)
qed

lemma owned_command:
  assumes "owned cs (F, R)" "F x = Some ch"
  obtains c where "c \<in> set cs" "command_channel c = Some ch"
proof -
  have "ch \<in> set (channels cs)" using assms by (auto simp: owned_def intro: ranI)
  then show ?thesis using that by (force simp: channels_def List.map_filter_def)
qed

lemma owner_step_refines:
  assumes "owner_step cs fr fr'" "owned cs fr"
  shows "owned cs fr' \<and> request_step\<^sup>*\<^sup>* (requests_of cs fr) (requests_of cs fr')"
  using assms(1)
proof cases
  case (send F x ch c r R)
  then have own: "owned cs (F, R)" using assms(2) by simp
  then have "ran (F(x := None)) = ran F - {ch}" using send by (simp add: owned_def ran_remove)
  then have "owned cs fr'"
    using own send ranI [of F x ch] by (auto simp: owned_def inj_on_def dom_def split: if_splits)
  moreover have "request_step (requests_of cs fr) (requests_of cs fr')"
    using request_step.answered [where t = "requests_of cs (F, R)", OF requests_of_waiting [OF own send(3-5)] send(6)]
      requests_of_answered [OF own send(3-5)] send(1,2) by simp
  ultimately show ?thesis by blast
next
  case (drop F x ch R)
  then have own: "owned cs (F, R)" using assms(2) by simp
  then obtain c where c: "c \<in> set cs" "command_channel c = Some ch" using drop(3) by (rule owned_command)
  have "ran (F(x := None)) = ran F - {ch}" using own drop by (simp add: owned_def ran_remove)
  then have "owned cs fr'"
    using own drop by (auto simp: owned_def inj_on_def dom_def split: if_splits)
  moreover have "request_step (requests_of cs fr) (requests_of cs fr')"
    using request_step.dropped [where t = "requests_of cs (F, R)", OF requests_of_waiting [OF own drop(3) c]] requests_of_dropped [OF own drop(3) c] drop(1,2) by simp
  ultimately show ?thesis by blast
next
  case (move F x ch y R)
  then have own: "owned cs (F, R)" using assms(2) by simp
  then have "ran (F(x := None, y \<mapsto> ch)) = ran F" using move(3,4) by (metis fst_conv owned_def ran_move)
  then have "owned cs fr'" "requests_of cs fr' = requests_of cs fr"
    using own move inj_move [of F x ch y] by (auto simp: owned_def requests_of_def request_state_of_def fun_eq_iff split: option.splits)
  then show ?thesis by simp
qed

lemma owner_steps_refine:
  assumes "(owner_step cs)\<^sup>*\<^sup>* fr fr'" "owned cs fr"
  shows "owned cs fr' \<and> request_step\<^sup>*\<^sup>* (requests_of cs fr) (requests_of cs fr')"
  using assms
proof (induction rule: rtranclp_induct)
  case (step fr1 fr2)
  then show ?case using owner_step_refines [of cs fr1 fr2] by (meson rtranclp_trans)
qed simp

text \<open>A command that arrives brings the sender of a new request.\<close>

lemma command_opens:
  assumes "owned cs (F, R)" "F InHand = None" "distinct (channels (cs @ [c]))"
  shows "owned (cs @ [c]) (F(InHand := command_channel c), R) \<and>
    request_step\<^sup>*\<^sup>* (requests_of cs (F, R)) (requests_of (cs @ [c]) (F(InHand := command_channel c), R))"
proof (cases "command_channel c")
  case None
  then have "channels [c] = []" by (simp add: channels_def List.map_filter_simps)
  then have "owned (cs @ [c]) (F, R)" "requests_of (cs @ [c]) (F, R) = requests_of cs (F, R)"
    using assms(1) None by (auto simp: owned_def requests_of_def fun_eq_iff find_append split: option.splits)
  then show ?thesis using assms(2) None by (simp add: fun_upd_idem)
next
  case (Some ch)
  then have ch: "channels [c] = [ch]" by (simp add: channels_def List.map_filter_simps)
  then have new: "ch \<notin> set (channels cs)" using assms(3) by simp
  then have "ch \<notin> ran F" "ch \<notin> fst ` set R" using assms(1) by (auto simp: owned_def)
  moreover have "ran (F(InHand \<mapsto> ch)) = insert ch (ran F)" using assms(2) by simp
  ultimately have "owned (cs @ [c]) (F(InHand \<mapsto> ch), R)"
    using assms ch by (auto simp: owned_def inj_on_def dom_def ran_def split: if_splits)
  moreover have "requests_of (cs @ [c]) (F(InHand \<mapsto> ch), R) = (requests_of cs (F, R))(ch \<mapsto> (c, Waiting))"
    using map_of_eq_None_iff [of R ch] \<open>ch \<notin> fst ` set R\<close> find_channel_None [of ch cs] new Some \<open>ran (F(InHand \<mapsto> ch)) = insert ch (ran F)\<close>
    by (auto simp: requests_of_def request_state_of_def fun_eq_iff find_append split: option.splits)
  moreover have "requests_of cs (F, R) ch = None" using find_channel_None [of ch cs] new by (simp add: requests_of_def)
  ultimately show ?thesis using Some request_step.opened [of "requests_of cs (F, R)" ch c] by auto
qed

section \<open>The event loop moves senders\<close>

lemma request_frame [frame_simps]:
  "same_requests s s" "same_requests s (el_metric m s)" "same_requests s (on_swarm f s)" "same_requests s (monitor_block b n s)"
  by (simp_all add: same_requests_def el_metric_def on_swarm_def monitor_block_def)

lemma same_requests_relay [simp]: "same_requests s (t\<lparr>el_relay := r\<rparr>) \<longleftrightarrow> same_requests s t"
  by (simp add: same_requests_def)

lemma same_requests_trans: "same_requests s t \<Longrightarrow> same_requests t u \<Longrightarrow> same_requests s u"
  by (simp add: same_requests_def)

lemma swarm_op_requests: "swarm_op m s = (r, s') \<Longrightarrow> same_requests s s'"
  by (auto simp: swarm_op_def same_requests_def split: prod.splits)

lemma establish_relay_circuit_requests: "same_requests s (establish_relay_circuit N D p s)"
  by (auto simp: establish_relay_circuit_def frame_simps dest: swarm_op_requests split: prod.splits res.splits)

lemma select_and_dial_relay_requests: "same_requests s (select_and_dial_relay N D s)"
  by (auto simp: select_and_dial_relay_def Let_def same_requests_def split: prod.splits res.splits dest!: swarm_op_requests)

lemma handle_put_result_requests: "same_requests s (handle_put_result N k d e s)"
  by (auto simp: handle_put_result_def Let_def same_requests_def el_metric_def on_swarm_def split: res.splits option.splits)

lemma view_same: "same_requests s t \<Longrightarrow> owner_view h t = owner_view h s"
proof -
  assume "same_requests s t"
  moreover from this have "sender_at h t x = sender_at h s x" for x by (cases x) (simp_all add: same_requests_def)
  ultimately show ?thesis by (simp add: owner_view_def same_requests_def fun_eq_iff)
qed

lemma fit_same: "same_requests s t \<Longrightarrow> senders_fit key_of cs t = senders_fit key_of cs s"
  by (simp add: same_requests_def senders_fit_def)

lemma sender_at_remove [simp]: "sender_at h (remove_query i s) = (sender_at h s)(AtQuery i := None)"
  by (rule ext) (case_tac x; simp add: remove_query_def)

lemma sender_at_hand: "sender_at h s = (sender_at None s)(InHand := h)"
  by (rule ext) (case_tac x; simp)

lemma sender_at_insert [simp]:
  "sender_at h (insert_query i (QGetRecord ch) s) = (sender_at h s)(AtQuery i \<mapsto> ch)"
  "sender_at h (insert_query i (QBootstrap ch) s) = (sender_at h s)(AtQuery i \<mapsto> ch)"
  "sender_at h (insert_query i QPutRecord s) = (sender_at h s)(AtQuery i := None)"
  "sender_at h (insert_swarm_event p ch s) = (sender_at h s)(AtDial p \<mapsto> ch)"
  by (rule ext, case_tac x; simp add: insert_query_def insert_swarm_event_def)+

lemma el_replies_frame [simp]:
  "el_replies (remove_query i s) = el_replies s" "el_replies (insert_query i q s) = el_replies s"
  "el_replies (insert_swarm_event p ch s) = el_replies s"
  by (simp_all add: remove_query_def insert_query_def insert_swarm_event_def)

lemma owner_drop: "(owner_step cs)\<^sup>*\<^sup>* (F, R) (F(x := None), R)"
proof (cases "F x")
  case (Some ch)
  then show ?thesis by (intro r_into_rtranclp owner_step.drop)
qed (simp add: fun_upd_idem)

lemma owner_send:
  assumes "F x = Some ch" "c \<in> set cs" "command_channel c = Some ch" "reply_fits c r" "R = el_replies s"
  shows "(owner_step cs)\<^sup>*\<^sup>* (F, R) (F(x := None), el_replies (send_reply D ch r s))"
  using owner_drop [of cs F R x] owner_step.send [of F x ch c cs r R] assms by (auto simp: send_reply_def)

lemma owner_move:
  assumes "F x = Some ch" "x \<noteq> y"
  shows "(owner_step cs)\<^sup>*\<^sup>* (F, R) (F(x := None, y \<mapsto> ch), R)"
proof -
  have "owner_step cs (F(y := None), R) (F(x := None, y \<mapsto> ch), R)"
    using owner_step.move [of "F(y := None)" x ch y cs R] assms by (simp add: fun_upd_twist)
  with owner_drop [of cs F R y] show ?thesis by (rule rtranclp.rtrancl_into_rtrancl)
qed

lemma sender_at_send [simp]: "sender_at h (send_reply D ch r s) = sender_at h s"
  by (rule ext) (case_tac x; simp add: send_reply_def)

lemma query_replies:
  assumes "el_pending_kad_queries s i = Some q" "q = QGetRecord ch \<or> q = QBootstrap ch"
    and "c \<in> set cs" "command_channel c = Some ch" "reply_fits c r"
  shows "(owner_step cs)\<^sup>*\<^sup>* (owner_view h s) (owner_view h (send_reply D ch r (remove_query i s)))"
  unfolding owner_view_def sender_at_send sender_at_remove
  by (rule owner_send [OF _ assms(3-5)]) (use assms(1,2) in auto)

lemma query_dropped: "(owner_step cs)\<^sup>*\<^sup>* (owner_view h s) (owner_view h (remove_query i s))"
  by (simp add: owner_view_def owner_drop)

lemma startup_done_view [simp]: "owner_view h (s\<lparr>el_is_startup_done := b\<rparr>) = owner_view h s"
  by (rule view_same) (simp add: same_requests_def)

lemma handle_query_result_owners:
  assumes fit: "senders_fit key_of cs s"
    and keyed: "keyed_input N key_of (SwarmInput (Kademlia (OutboundQueryProgressed i r stats))) s"
  shows "(owner_step cs)\<^sup>*\<^sup>* (owner_view None s) (owner_view None (handle_query_result N D i r stats s))"
proof -
  have put: "owner_view h (handle_put_result N k d e t) = owner_view h t" for h k d e t
    by (rule view_same [OF handle_put_result_requests])
  have get: "(owner_step cs)\<^sup>*\<^sup>* (owner_view None s) (owner_view None (send_reply D ch (RecordReply x) (remove_query i s)))"
    if "el_pending_kad_queries s i = Some (QGetRecord ch)" "\<forall>rec. x = Ok rec \<longrightarrow> kr_key rec = key_of i" for ch x
    using that fit query_replies [OF that(1), of ch "GetKadRecord (key_of i) ch" cs] by (simp add: senders_fit_def)
  have boot: "(owner_step cs)\<^sup>*\<^sup>* (owner_view None s) (owner_view None (send_reply D ch (UnitReply x) (remove_query i s)))"
    if "el_pending_kad_queries s i = Some (QBootstrap ch)" for ch x
    using that fit query_replies [OF that, of ch "Bootstrap ch" cs] by (simp add: senders_fit_def)
  show ?thesis
    using keyed by (cases r) (auto simp: put query_dropped get boot split: option.split query_channel.split)
qed

lemma reply_swarm_event_owners:
  assumes "senders_fit key_of cs s" "\<forall>info. r = Ok info \<longrightarrow> ci_peer_id info = p"
  shows "(owner_step cs)\<^sup>*\<^sup>* (owner_view None s) (owner_view None (reply_swarm_event D p r s))"
proof (cases "el_pending_swarm_events s p")
  case (Some ch)
  let ?t = "s\<lparr>el_pending_swarm_events := (el_pending_swarm_events s)(p := None)\<rparr>"
  have "sender_at None ?t = (sender_at None s)(AtDial p := None)" by (rule ext) (case_tac x; simp)
  moreover obtain addrs where "DialPeer p addrs ch \<in> set cs" using assms(1) Some unfolding senders_fit_def by blast
  ultimately show ?thesis
    using Some assms(2) owner_send [where c = "DialPeer p addrs ch" and cs = cs and F = "sender_at None s" and x = "AtDial p" and s = ?t and R = "el_replies s"]
    by (simp add: reply_swarm_event_def owner_view_def)
qed (simp add: reply_swarm_event_def)

text \<open>What an event other than the progress of a query does to the senders.\<close>

lemma handle_identify_requests: "same_requests s (handle_identify_event N x s)"
  by (cases x) (auto simp: same_requests_def on_swarm_def split: res.splits)

lemma handle_event_requests:
  "(\<forall>i r stats. e \<noteq> Kademlia (OutboundQueryProgressed i r stats)) \<Longrightarrow> (\<forall>info. e \<noteq> ConnectionEstablished info) \<Longrightarrow>
   (\<forall>p w x. e \<noteq> OutgoingConnectionError p w x) \<Longrightarrow> same_requests s (handle_event N D e s)"
proof (cases e)
  case (Kademlia k)
  assume "\<forall>i r stats. e \<noteq> Kademlia (OutboundQueryProgressed i r stats)"
  with Kademlia show ?thesis
    by (cases k) (auto simp: handle_inbound_put_def Let_def same_requests_def el_metric_def on_swarm_def split: option.splits res.splits)
next
  case (Mdns x)
  then show ?thesis by (cases x) (auto simp: frame_simps)
next
  case (AutoNat x)
  then show ?thesis by (cases x) (auto simp: select_and_dial_relay_requests frame_simps)
next
  case (Ping x)
  then show ?thesis by (cases x) (simp_all add: frame_simps)
qed (auto simp: frame_simps handle_identify_requests)

lemma pending_shrinks:
  assumes "senders_fit key_of cs s" "el_pending_kad_queries t \<subseteq>\<^sub>m el_pending_kad_queries s" "el_pending_swarm_events t \<subseteq>\<^sub>m el_pending_swarm_events s"
  shows "senders_fit key_of cs t"
  using assms unfolding senders_fit_def map_le_def by (metis domI)

lemma reply_swarm_event_fit: "senders_fit key_of cs s \<Longrightarrow> senders_fit key_of cs (reply_swarm_event D p r s)"
  by (erule pending_shrinks) (auto simp: reply_swarm_event_def send_reply_def map_le_def split: option.splits)

lemma handle_put_result_dials: "el_pending_swarm_events (handle_put_result N k d e s) = el_pending_swarm_events s"
  using handle_put_result_requests [of s N k d e] by (simp add: same_requests_def)

lemma handle_query_result_fit: "senders_fit key_of cs s \<Longrightarrow> senders_fit key_of cs (handle_query_result N D i r stats s)"
  by (erule pending_shrinks)
    (cases r; auto simp: map_le_def send_reply_def remove_query_def handle_put_result_frame handle_put_result_dials split: option.splits query_channel.splits)+

lemma connection_established_owners:
  assumes "senders_fit key_of cs s" "t = reply_swarm_event D (ci_peer_id info) (Ok info) (el_metric m s)"
  shows "(owner_step cs)\<^sup>*\<^sup>* (owner_view None s) (owner_view None t) \<and> senders_fit key_of cs t"
proof -
  have fit: "senders_fit key_of cs (el_metric m s)" using assms(1) by (simp add: fit_same [OF request_frame(2)])
  show ?thesis
    using reply_swarm_event_owners [OF fit, of "Ok info" "ci_peer_id info" D] reply_swarm_event_fit [OF fit] assms(2)
    by (simp add: view_same [OF request_frame(2)])
qed

lemma connection_failed_owners:
  assumes "senders_fit key_of cs s" "same_requests s u" "t = reply_swarm_event D p (Err x) u"
  shows "(owner_step cs)\<^sup>*\<^sup>* (owner_view None s) (owner_view None t) \<and> senders_fit key_of cs t"
proof -
  have fit: "senders_fit key_of cs u" using assms(1,2) by (simp add: fit_same)
  show ?thesis
    using reply_swarm_event_owners [OF fit, of "Err x" p D] reply_swarm_event_fit [OF fit] assms(2,3) by (simp add: view_same)
qed

lemma handle_event_owners:
  assumes "senders_fit key_of cs s" "keyed_input N key_of (SwarmInput e) s"
  shows "(owner_step cs)\<^sup>*\<^sup>* (owner_view None s) (owner_view None (handle_event N D e s)) \<and> senders_fit key_of cs (handle_event N D e s)"
proof -
  have from_view: ?thesis
    if "(owner_step cs)\<^sup>*\<^sup>* (owner_view None s) (owner_view None t) \<and> senders_fit key_of cs t" "same_requests t (handle_event N D e s)" for t
    using that by (simp add: view_same fit_same)
  have other: ?thesis if "same_requests s (handle_event N D e s)" using assms(1) from_view [OF _ that] by simp
  show ?thesis
  proof (cases e)
    case (Kademlia k)
    show ?thesis
    proof (cases k)
      case (OutboundQueryProgressed i r stats)
      then show ?thesis using Kademlia assms(2) handle_query_result_owners [OF assms(1), of N i r stats D] handle_query_result_fit [OF assms(1), of N D i r stats]
        by simp
    qed (rule other; rule handle_event_requests; simp add: Kademlia)+
  next
    case (ConnectionEstablished info)
    show ?thesis
      by (rule from_view [OF connection_established_owners [where m = "CountCall EstablishedConnections" and D = D and info = info, OF assms(1) refl]])
        (simp add: ConnectionEstablished establish_relay_circuit_requests)
  next
    case (OutgoingConnectionError peer w x)
    show ?thesis
    proof (cases peer)
      case None
      then have "same_requests s (handle_event N D e s)" using OutgoingConnectionError by (simp add: frame_simps)
      then show ?thesis by (rule other)
    next
      case (Some p)
      let ?u = "if w then on_swarm (so_remove_peer N p) (el_metric (CountCall OutgoingConnectionErrors) s) else el_metric (CountCall OutgoingConnectionErrors) s"
      have same: "same_requests s ?u" by (simp add: same_requests_def el_metric_def on_swarm_def)
      show ?thesis
        by (rule from_view [OF connection_failed_owners [where D = D and p = p and x = x, OF assms(1) same refl]]) (simp add: OutgoingConnectionError Some Let_def frame_simps)
    qed
  qed (rule other; rule handle_event_requests; simp)+
qed

section \<open>Commands\<close>

lemma hand_empty [simp]: "(sender_at None s)(InHand := None) = sender_at None s"
  by (simp add: fun_upd_idem)

lemma hand_dropped: "(owner_step cs)\<^sup>*\<^sup>* (owner_view h s) (owner_view None s)"
  unfolding owner_view_def sender_at_hand [of h] using owner_drop [of cs "(sender_at None s)(InHand := h)" "el_replies s" InHand] by simp

lemma expect_reply_owners:
  assumes "expect_reply D msg ch r s = (x, s')" "c \<in> set cs" "command_channel c = Some ch" "reply_fits c r"
  shows "(owner_step cs)\<^sup>*\<^sup>* (owner_view (Some ch) s) (owner_view None s')"
proof (cases "dr_open D ch")
  case True
  then have s': "s' = send_reply D ch r s" using assms(1) by (auto simp: expect_reply_def send_reply_def)
  show ?thesis
    unfolding s' owner_view_def sender_at_send sender_at_hand [of "Some ch"]
    using owner_send [where F = "(sender_at None s)(InHand \<mapsto> ch)" and x = InHand and R = "el_replies s", OF _ assms(2-4) refl] by simp
next
  case False
  then show ?thesis using assms(1) hand_dropped by (auto simp: expect_reply_def)
qed

lemma hand_moves:
  "(owner_step cs)\<^sup>*\<^sup>* (owner_view (Some ch) s) (owner_view None (insert_query i (QGetRecord ch) s))"
  "(owner_step cs)\<^sup>*\<^sup>* (owner_view (Some ch) s) (owner_view None (insert_query i (QBootstrap ch) s))"
  "(owner_step cs)\<^sup>*\<^sup>* (owner_view (Some ch) s) (owner_view None (insert_swarm_event p ch s))"
  unfolding owner_view_def sender_at_hand [of "Some ch"]
  using owner_move [of "(sender_at None s)(InHand \<mapsto> ch)" InHand ch _ cs "el_replies s"] by simp_all

lemma put_records_owners: "put_records N rs s = (x, s') \<Longrightarrow> (owner_step cs)\<^sup>*\<^sup>* (owner_view None s) (owner_view None s')"
proof (induction rs arbitrary: s)
  case (Cons r rs)
  obtain y t where t: "swarm_op (so_put_record N r) s = (y, t)" by fastforce
  then have view: "owner_view None t = owner_view None s" by (metis view_same swarm_op_requests)
  show ?case
  proof (cases y)
    case (Ok i)
    have "(owner_step cs)\<^sup>*\<^sup>* (owner_view None t) (owner_view None (insert_query i QPutRecord t))"
      by (simp add: owner_view_def owner_drop)
    then show ?thesis using Cons t Ok view by (metis (no_types, lifting) put_records.simps(2) prod.case res.case(1) rtranclp_trans)
  qed (use Cons.prems t view in auto)
qed simp

lemma expect_reply_not_Err:
  "(case expect_reply D msg ch r s of (Err e, s') \<Rightarrow> f e s' | (y, s') \<Rightarrow> (y, s')) = expect_reply D msg ch r s"
  by (simp add: expect_reply_def)

text \<open>A command is answered at once, its sender is lost, or the swarm takes it over.\<close>

lemma answered_command_owners:
  assumes "handle_command N D c s = (x, s')" "c \<in> set cs"
    and "handle_command N D c s = expect_reply D msg ch r t" "same_requests s t" "command_channel c = Some ch" "reply_fits c r"
  shows "(owner_step cs)\<^sup>*\<^sup>* (owner_view (command_channel c) s) (owner_view None s')"
  using expect_reply_owners [OF _ assms(2,5,6)] view_same [OF assms(4)] assms(1,3,5) by metis

lemma lost_command_owners: "same_requests s s' \<Longrightarrow> (owner_step cs)\<^sup>*\<^sup>* (owner_view h s) (owner_view None s')"
  using hand_dropped [of cs h s'] by (simp add: view_same)

lemma swarm_command_owners:
  assumes run: "handle_command N D c s = (x, s')" and mem: "c \<in> set cs" and t: "swarm_op m s = (y, t)"
    and command: "handle_command N D c s = (case y of Ok v \<Rightarrow> f v t | Err e \<Rightarrow> expect_reply D msg ch (rep e) t | Panic p \<Rightarrow> (Panic p, t))"
    and ch: "command_channel c = Some ch" and fits: "\<And>e. reply_fits c (rep e)"
    and taken: "\<And>v. y = Ok v \<Longrightarrow> f v t = (x, s') \<Longrightarrow> (owner_step cs)\<^sup>*\<^sup>* (owner_view (Some ch) t) (owner_view None s')"
  shows "(owner_step cs)\<^sup>*\<^sup>* (owner_view (command_channel c) s) (owner_view None s')"
proof (cases y)
  case (Ok v)
  then show ?thesis using taken run command ch view_same [OF swarm_op_requests [OF t]] by simp
next
  case (Err e)
  then show ?thesis using command by (intro answered_command_owners [OF run mem _ swarm_op_requests [OF t] ch fits]) simp
next
  case (Panic p)
  then have "s' = t" using run command by simp
  then show ?thesis using lost_command_owners swarm_op_requests [OF t] by blast
qed

lemma handle_command_owners:
  assumes run: "handle_command N D c s = (x, s')" and mem: "c \<in> set cs"
  shows "(owner_step cs)\<^sup>*\<^sup>* (owner_view (command_channel c) s) (owner_view None s')"
proof (cases c)
  case (PruneExpiredRecords t ch)
  show ?thesis
    by (rule answered_command_owners [OF run mem _ request_frame(3)], simp add: PruneExpiredRecords handle_command_def run_defs Let_def expect_reply_not_Err)
      (simp_all add: PruneExpiredRecords)
next
  case (AddAutonatServer p a ch)
  show ?thesis
    by (rule answered_command_owners [OF run mem _ request_frame(3)], simp add: AddAutonatServer handle_command_def run_defs expect_reply_not_Err)
      (simp_all add: AddAutonatServer)
next
  case (PutKadRecord rs b)
  have "(owner_step cs)\<^sup>*\<^sup>* (owner_view None s) (owner_view None (snd (put_records N rs (monitor_block b (length rs) s))))"
    using put_records_owners [of N rs "monitor_block b (length rs) s" _ _ cs] view_same [OF request_frame(4) [of s b "length rs"], of None]
    by (metis prod.collapse)
  then show ?thesis
    using run PutKadRecord by (auto simp: handle_command_def run_defs op_return_def split: res.splits prod.splits)
next
  case (AddAddress p a)
  then show ?thesis using run by (intro lost_command_owners) (auto simp: handle_command_def run_defs frame_simps)
next
  case (GetKadRecord k ch)
  obtain i sw where "so_get_record N k (el_swarm s) = (i, sw)" by fastforce
  moreover have "owner_view (Some ch) (s\<lparr>el_swarm := sw\<rparr>) = owner_view (Some ch) s" by (rule view_same) (simp add: same_requests_def)
  ultimately show ?thesis
    using run GetKadRecord hand_moves(1) [of cs ch "s\<lparr>el_swarm := sw\<rparr>" i] by (auto simp: handle_command_def run_defs)
next
  case (StartListening a ch)
  obtain y t where t: "swarm_op (so_listen_on N a) s = (y, t)" by fastforce
  let ?f = "\<lambda>_. expect_reply D ''StartListening receiver dropped'' ch (UnitReply (Ok ()))"
  show ?thesis
    by (rule swarm_command_owners [where f = ?f and ch = ch and rep = "\<lambda>e. UnitReply (Err e)" and msg = "''StartListening receiver dropped''", OF run mem t])
      (auto simp: StartListening t handle_command_def run_defs abort_defs op_bind_def expect_reply_not_Err split: res.split
        intro: expect_reply_owners [OF _ mem])
next
  case (Bootstrap ch)
  obtain y t where t: "swarm_op (so_bootstrap N) s = (y, t)" by fastforce
  let ?f = "\<lambda>i t. (Ok (), insert_query i (QBootstrap ch) t)"
  show ?thesis
    by (rule swarm_command_owners [where f = ?f and ch = ch and rep = "\<lambda>e. UnitReply (Err e)" and msg = "''Bootstrap receiver dropped''", OF run mem t])
      (auto simp: Bootstrap t handle_command_def run_defs abort_defs op_bind_def hand_moves split: res.split)
next
  case (DialPeer p addrs ch)
  obtain y t where t: "swarm_op (so_dial N p addrs) s = (y, t)" by fastforce
  let ?f = "\<lambda>_ t. (Ok (), insert_swarm_event p ch t)"
  show ?thesis
    by (rule swarm_command_owners [where f = ?f and ch = ch and rep = "\<lambda>e. ConnectionReply (Err e)" and msg = "''DialPeer receiver dropped''", OF run mem t])
      (auto simp: DialPeer t handle_command_def run_defs abort_defs op_bind_def hand_moves split: res.split)
qed (rule answered_command_owners [OF run mem _ request_frame(1)], simp add: handle_command_def run_defs expect_reply_not_Err, simp, simp)+

lemma senders_fit_more: "senders_fit key_of cs s \<Longrightarrow> set cs \<subseteq> set ds \<Longrightarrow> senders_fit key_of ds s"
  unfolding senders_fit_def by blast

lemma senders_fit_insert:
  assumes "senders_fit key_of cs s"
  shows "GetKadRecord (key_of i) ch \<in> set cs \<Longrightarrow> senders_fit key_of cs (insert_query i (QGetRecord ch) s)"
    and "Bootstrap ch \<in> set cs \<Longrightarrow> senders_fit key_of cs (insert_query i (QBootstrap ch) s)"
    and "senders_fit key_of cs (insert_query i QPutRecord s)"
    and "DialPeer p addrs ch \<in> set cs \<Longrightarrow> senders_fit key_of cs (insert_swarm_event p ch s)"
  using assms by (auto simp: senders_fit_def insert_query_def insert_swarm_event_def)

lemma put_records_fit: "put_records N rs s = (x, s') \<Longrightarrow> senders_fit key_of cs s \<Longrightarrow> senders_fit key_of cs s'"
proof (induction rs arbitrary: s)
  case (Cons r rs)
  then show ?case
    by (auto simp: fit_same [OF swarm_op_requests] senders_fit_insert(3) split: prod.splits res.splits)
qed simp

lemma expect_reply_fit: "expect_reply D msg ch r s = (x, s') \<Longrightarrow> senders_fit key_of cs s' = senders_fit key_of cs s"
  by (auto simp: expect_reply_def senders_fit_def split: if_splits)

lemma command_abort_fit: "command_abort D e c s = (x, s') \<Longrightarrow> senders_fit key_of cs s' = senders_fit key_of cs s"
  by (cases c) (auto simp: op_return_def abort_defs dest: expect_reply_fit)

lemma command_run_fit:
  assumes "command_run N D c s = (x, s')" "senders_fit key_of cs s" "c \<in> set cs" "keyed_input N key_of (CommandInput c) s"
  shows "senders_fit key_of cs s'"
proof -
  have frames: "senders_fit key_of cs (on_swarm f s)" "senders_fit key_of cs (monitor_block b n s)" "senders_fit key_of cs (s\<lparr>el_swarm := sw\<rparr>)" for f b n sw
    using assms(2) by (simp_all add: senders_fit_def on_swarm_def monitor_block_def)
  have listen: "senders_fit key_of cs t" if "swarm_op m s = (y, t)" for m :: "('a, unit) op" and y t
    using assms(2) fit_same [OF swarm_op_requests [OF that]] by simp
  have query: "senders_fit key_of cs t" if "swarm_op m s = (y, t)" for m :: "('a, query_id) op" and y t
    using assms(2) fit_same [OF swarm_op_requests [OF that]] by simp
  show ?thesis
    using assms
    by (cases c) (auto simp: run_defs op_bind_def Let_def frames dest!: expect_reply_fit put_records_fit listen query
        intro: senders_fit_insert split: res.splits prod.splits)
qed

section \<open>The loop\<close>

lemma el_step_requests:
  assumes run: "el_step N D i s = (x, s')" and own: "owned cs (owner_view None s)" and fit: "senders_fit key_of cs s"
    and keyed: "keyed_input N key_of i s" and new: "distinct (channels (cs @ input_commands i))"
  shows "owned (cs @ input_commands i) (owner_view None s') \<and> senders_fit key_of (cs @ input_commands i) s' \<and>
    request_step\<^sup>*\<^sup>* (requests_of cs (owner_view None s)) (requests_of (cs @ input_commands i) (owner_view None s'))"
proof -
  have same: ?thesis if "same_requests s s'" "input_commands i = []"
    using own fit that by (simp add: view_same fit_same)
  show ?thesis
  proof (cases i)
    case (SwarmInput e)
    then have "(owner_step cs)\<^sup>*\<^sup>* (owner_view None s) (owner_view None s') \<and> senders_fit key_of cs s'"
      using handle_event_owners [OF fit, of N e D] keyed run by auto
    then show ?thesis using owner_steps_refine [OF _ own] SwarmInput by auto
  next
    case (CommandInput c)
    then have run': "handle_command N D c s = (x, s')" using run by simp
    have view: "owner_view (command_channel c) s = ((fst (owner_view None s))(InHand := command_channel c), snd (owner_view None s))"
      by (simp add: owner_view_def sender_at_hand [of "command_channel c"])
    have opens: "owned (cs @ [c]) (owner_view (command_channel c) s)"
      "request_step\<^sup>*\<^sup>* (requests_of cs (owner_view None s)) (requests_of (cs @ [c]) (owner_view (command_channel c) s))"
      using command_opens [of cs "fst (owner_view None s)" "snd (owner_view None s)" c] own new CommandInput unfolding view
      by (simp_all add: owner_view_def)
    have "(owner_step (cs @ [c]))\<^sup>*\<^sup>* (owner_view (command_channel c) s) (owner_view None s')"
      by (rule handle_command_owners [OF run']) simp
    moreover have "senders_fit key_of (cs @ [c]) s'"
    proof -
      obtain y t where t: "command_run N D c s = (y, t)" by fastforce
      have "senders_fit key_of (cs @ [c]) t"
        by (rule command_run_fit [OF t senders_fit_more [OF fit]]) (use keyed CommandInput in auto)
      then show ?thesis using run' t by (auto simp: handle_command_def dest!: command_abort_fit split: res.splits)
    qed
    moreover note owner_steps_refine [OF calculation(1) opens(1)]
    ultimately show ?thesis using opens(2) CommandInput by (metis input_commands.simps(1) rtranclp_trans)
  next
    case BootstrapTick
    then have "same_requests s s'"
      using run swarm_op_requests [of "so_bootstrap N" s] by (cases "swarm_op (so_bootstrap N) s") (auto simp: handle_periodic_bootstraps_def frame_simps)
    then show ?thesis using BootstrapTick by (intro same) simp_all
  qed (use run own fit in auto)
qed

lemma el_loop_requests:
  assumes "el_loop N is s = (x, s')" "owned cs (owner_view None s)" "senders_fit key_of cs s" "keyed_run N key_of is s"
    and "distinct (channels (cs @ commands_taken N is s))"
  shows "owned (cs @ commands_taken N is s) (owner_view None s') \<and> senders_fit key_of (cs @ commands_taken N is s) s' \<and>
    request_step\<^sup>*\<^sup>* (requests_of cs (owner_view None s)) (requests_of (cs @ commands_taken N is s) (owner_view None s'))"
  using assms
proof (induction "is" arbitrary: s cs)
  case (Cons di "is")
  obtain D i where di: "di = (D, i)" by fastforce
  show ?case
  proof (cases "i = CommandsClosed \<or> i = ShutdownTriggered")
    case True
    then have "same_requests s s'" "commands_taken N (di # is) s = []"
      using Cons.prems(1) di by (auto simp: disconnect_peers_def frame_simps)
    then show ?thesis using Cons.prems(2,3) by (simp add: view_same fit_same)
  next
    case False
    obtain y t where t: "el_step N D i s = (y, t)" by fastforce
    let ?cs = "cs @ input_commands i"
    have step: "owned ?cs (owner_view None t)" "senders_fit key_of ?cs t"
      "request_step\<^sup>*\<^sup>* (requests_of cs (owner_view None s)) (requests_of ?cs (owner_view None t))"
      using el_step_requests [OF t Cons.prems(2,3)] Cons.prems(4,5) di False by auto
    show ?thesis
    proof (cases y)
      case (Ok u)
      then have "el_loop N is t = (x, s')" "keyed_run N key_of is t" "commands_taken N (di # is) s = input_commands i @ commands_taken N is t"
        using Cons.prems(1,4) di False t by (auto simp: op_bind_def)
      then show ?thesis using Cons.IH [of t ?cs] step Cons.prems(5) by (auto intro: rtranclp_trans)
    next
      case (Err e)
      then show ?thesis using step Cons.prems(1) di False t by (auto simp: op_bind_def)
    next
      case (Panic m)
      then show ?thesis using step Cons.prems(1) di False t by (auto simp: op_bind_def)
    qed
  qed
qed simp

lemma event_loop_new_requests:
  "owned [] (owner_view None (event_loop_new sw cfg fat p))" "senders_fit key_of [] (event_loop_new sw cfg fat p)"
  "requests_of [] fr = Map.empty"
proof -
  have "sender_at None (event_loop_new sw cfg fat p) x = None" for x by (cases x) (simp_all add: event_loop_new_def)
  then have "sender_at None (event_loop_new sw cfg fat p) = Map.empty" by (simp add: fun_eq_iff)
  then show "owned [] (owner_view None (event_loop_new sw cfg fat p))"
    by (simp add: owned_def owner_view_def channels_def List.map_filter_simps event_loop_new_def)
qed (simp_all add: senders_fit_def event_loop_new_def requests_of_def fun_eq_iff)

text \<open>A reply that was sent is the one of a request that was taken.\<close>

lemma replies_fit:
  assumes "owned cs (F, R)" "answers_fit (requests_of cs (F, R))" "(ch, r) \<in> set R"
  shows "\<exists>c \<in> set cs. command_channel c = Some ch \<and> reply_fits c r"
proof -
  have "map_of R ch = Some r" using assms(1,3) by (simp add: owned_def)
  moreover have "ch \<in> set (channels cs)" using assms(1,3) by (force simp: owned_def)
  then obtain c where "c \<in> set cs" "command_channel c = Some ch" "find (\<lambda>c. command_channel c = Some ch) cs = Some c"
    using assms(1) find_channel [of cs _ ch] by (force simp: owned_def channels_def List.map_filter_def)
  ultimately have "requests_of cs (F, R) ch = Some (c, Answered r)" by (simp add: requests_of_def request_state_of_def)
  then have "reply_fits c r" using assms(2) by (simp add: answers_fit_def)
  then show ?thesis using \<open>c \<in> set cs\<close> \<open>command_channel c = Some ch\<close> by blast
qed

section \<open>Properties\<close>

text \<open>C12: The event loop implements the table of requests. While it takes commands and handles events, a request is answered at most once, with a
  reply of its type (the record has the requested key, the connection is to the dialled peer), an answered or dropped request stays so, and
  no reply goes to a channel that is not the one of a request.\<close>

theorem p2p_requests_refine:
  assumes "el_loop N is1 (event_loop_new sw cfg fat p) = (Ok (), s1)" "el_loop N is2 s1 = (x, s2)"
    and "keyed_run N key_of is1 (event_loop_new sw cfg fat p)" "keyed_run N key_of is2 s1"
    and "distinct (channels (commands_taken N is1 (event_loop_new sw cfg fat p) @ commands_taken N is2 s1))"
  shows "request_step\<^sup>*\<^sup>* (requests_of (commands_taken N is1 (event_loop_new sw cfg fat p)) (owner_view None s1))
      (requests_of (commands_taken N is1 (event_loop_new sw cfg fat p) @ commands_taken N is2 s1) (owner_view None s2)) \<and>
    distinct (map fst (el_replies s2)) \<and>
    (\<forall>(ch, r) \<in> set (el_replies s2). \<exists>c \<in> set (commands_taken N is1 (event_loop_new sw cfg fat p) @ commands_taken N is2 s1).
       command_channel c = Some ch \<and> reply_fits c r)"
proof -
  let ?s0 = "event_loop_new sw cfg fat p"
  let ?cs1 = "commands_taken N is1 ?s0"
  let ?cs2 = "?cs1 @ commands_taken N is2 s1"
  have one: "owned ?cs1 (owner_view None s1)" "senders_fit key_of ?cs1 s1"
      "request_step\<^sup>*\<^sup>* Map.empty (requests_of ?cs1 (owner_view None s1))"
    using el_loop_requests [OF assms(1) event_loop_new_requests(1,2) assms(3)] assms(5) by (simp_all add: event_loop_new_requests(3))
  have two: "owned ?cs2 (owner_view None s2)"
      "request_step\<^sup>*\<^sup>* (requests_of ?cs1 (owner_view None s1)) (requests_of ?cs2 (owner_view None s2))"
    using el_loop_requests [OF assms(2) one(1,2) assms(4,5)] by auto
  have "answers_fit (requests_of ?cs2 (owner_view None s2))"
    using answers.inv_steps [OF rtranclp_trans [OF one(3) two(2)]] by (simp add: answers_fit_def)
  then have "\<forall>(ch, r) \<in> set (el_replies s2). \<exists>c \<in> set ?cs2. command_channel c = Some ch \<and> reply_fits c r"
    using replies_fit [of ?cs2] two(1) by (auto simp: owner_view_def)
  then show ?thesis using two by (simp add: owned_def owner_view_def)
qed

lemma sample_requests:
  "\<exists>s1 s2. el_loop sample_swarm sample_request sample_loop = (Ok (), s1) \<and> el_loop sample_swarm sample_answers s1 = (Ok (), s2) \<and>
     keyed_run sample_swarm (\<lambda>_. [7]) sample_request sample_loop \<and> keyed_run sample_swarm (\<lambda>_. [7]) sample_answers s1 \<and>
     commands_taken sample_swarm sample_request sample_loop = [GetKadRecord [7] 1, DialPeer [5] [] 2] \<and>
     commands_taken sample_swarm sample_answers s1 = [DialPeer [5] [] 3] \<and> map fst (el_replies s2) = [1, 3]"
  by (simp add: sample_request_def sample_answers_def found_record_def sample_swarm_def sample_loop_def event_loop_new_def sample_draws_def sample_libp2p_def
      handle_command_def run_defs op_bind_def swarm_op_def insert_query_def remove_query_def insert_swarm_event_def reply_swarm_event_def send_reply_def
      el_metric_def establish_relay_circuit_def)

theorem p2p_requests_refine_witness:
  "\<exists>s1 s2. request_step\<^sup>*\<^sup>* (requests_of [GetKadRecord [7] 1, DialPeer [5] [] 2] (owner_view None (s1 :: (nat \<times> memory_store) event_loop)))
      (requests_of [GetKadRecord [7] 1, DialPeer [5] [] 2, DialPeer [5] [] 3] (owner_view None (s2 :: (nat \<times> memory_store) event_loop))) \<and>
     map fst (el_replies s2) = [1, 3]"
proof -
  obtain s1 s2 where run: "el_loop sample_swarm sample_request sample_loop = (Ok (), s1)" "el_loop sample_swarm sample_answers s1 = (Ok (), s2)"
    "keyed_run sample_swarm (\<lambda>_. [7]) sample_request sample_loop" "keyed_run sample_swarm (\<lambda>_. [7]) sample_answers s1"
    and taken: "commands_taken sample_swarm sample_request sample_loop = [GetKadRecord [7] 1, DialPeer [5] [] 2]"
    "commands_taken sample_swarm sample_answers s1 = [DialPeer [5] [] 3]" and "map fst (el_replies s2) = [1, 3]"
    using sample_requests by (elim exE conjE) (rule that)
  moreover have "distinct (channels ([GetKadRecord [7] 1, DialPeer [5] [] 2] @ [DialPeer [5] [] 3]))"
    by (simp add: channels_def List.map_filter_simps)
  ultimately show ?thesis
    using p2p_requests_refine [OF run(1) [unfolded sample_loop_def] run(2) run(3) [unfolded sample_loop_def] run(4)]
    by (intro exI [of _ s1] exI [of _ s2]) (simp add: sample_loop_def [symmetric])
qed

text \<open>A second dial of a peer drops the sender of a first one that is still pending, so that the first caller is told that the sender
  was dropped, whatever becomes of the connection.\<close>

lemma second_dial_drops_first:
  assumes "handle_command N D (DialPeer p addrs ch') s = (x, s')" "fst (so_dial N p addrs (el_swarm s)) = Ok ()" "el_pending_swarm_events s p = Some ch" "ch' \<noteq> ch"
    and "inj_on (sender_at None s) (dom (sender_at None s))" "ch \<notin> fst ` set (el_replies s)"
  shows "request_state_of (owner_view None s) ch = Waiting \<and> request_state_of (owner_view None s') ch = Dropped"
proof -
  obtain t where t: "swarm_op (so_dial N p addrs) s = (Ok (), t)"
    using assms(2) by (cases "so_dial N p addrs (el_swarm s)") (auto simp: swarm_op_def)
  then have "s' = insert_swarm_event p ch' t" using assms(1) by (auto simp: handle_command_def run_defs op_bind_def)
  then have view: "owner_view None s' = ((sender_at None s)(AtDial p \<mapsto> ch'), el_replies s)"
    using view_same [OF swarm_op_requests [OF t], of None] by (auto simp: owner_view_def)
  have at: "sender_at None s (AtDial p) = Some ch" using assms(3) by simp
  then have "ch \<notin> ran ((sender_at None s)(AtDial p \<mapsto> ch'))"
    using assms(4,5) ran_remove [OF assms(5) at] by (auto simp: ran_def split: if_splits)
  moreover have "map_of (el_replies s) ch = None" using assms(6) by (simp add: map_of_eq_None_iff)
  ultimately show ?thesis using ranI [of "sender_at None s", OF at] view by (simp add: request_state_of_def owner_view_def)
qed

text \<open>A caller that has given up ends the event loop: the commands that are answered at once expect that the receiver is still there, and
  the loop panics when it is not.\<close>

theorem abandoned_request_ends_loop:
  assumes "command_channel c = Some ch" "\<not> dr_open D ch"
    and "\<forall>k. c \<noteq> GetKadRecord k ch" "c \<noteq> Bootstrap ch" "\<forall>p addrs. c \<noteq> DialPeer p addrs ch" "\<forall>addr. c \<noteq> StartListening addr ch"
  shows "\<exists>m s'. el_loop N ((D, CommandInput c) # is) s = (Panic m, s') \<and> el_replies s' = el_replies s"
  using assms by (cases c) (auto simp: op_bind_def handle_command_def run_defs Let_def expect_reply_def on_swarm_def)

theorem abandoned_request_ends_loop_witness:
  "\<exists>m s'. el_loop sample_swarm ((sample_draws\<lparr>dr_open := \<lambda>_. False\<rparr>, CommandInput (GetLocalInfo 1)) # sample_request) sample_loop = (Panic m, s') \<and>
     el_replies s' = []"
  using abandoned_request_ends_loop [of "GetLocalInfo 1" 1 "sample_draws\<lparr>dr_open := \<lambda>_. False\<rparr>" sample_swarm sample_request sample_loop]
  by (simp add: sample_draws_def sample_loop_def event_loop_new_def)

end
