(* ===== verification/Main_Task.thy ===== *)
theory Main_Task
  imports Startup Shutdown
begin

text \<open>
  The life of the process: \<open>main\<close>, the panic hook and the task that waits for a signal of the user
  (\<open>src/bin/avail-light.rs\<close>). \<open>main\<close> makes the controller, installs the hook, spawns the signal task, runs the
  start and then waits until the shutdown is complete. The tasks of the program work on the controller at the same
  time: a panic of any of them runs the hook, an error triggers the shutdown, and delay tokens hold it up.

  The lemmas show when the process ends and with which error.
\<close>

section \<open>The panic hook and the signals\<close>

text \<open>The report of the panic goes to the log; the result of the trigger is ignored.\<close>

definition panic_hook :: "string controller \<Rightarrow> string controller" where
  "panic_hook c = snd (trigger_shutdown c ''Panic occurred, shuting down'')"

text \<open>What the runtime knows of the signals: each of the two futures is pending, has received its signal, or has failed
  to install its handler. \<open>select!\<close> takes whichever is done, also with an error.\<close>

datatype os_signal = NotSignaled | Signaled | HandlerFailed string

definition user_signal :: "os_signal \<times> os_signal \<Rightarrow> (string, unit, unit) wrapped" where
  "user_signal os f c = (if os = (NotSignaled, NotSignaled) then Pending else Ready (), f, c)"

section \<open>main\<close>

datatype main_phase = Starting | AwaitingShutdown | Exited "unit result"

record main_sys =
  mn_phase :: main_phase
  mn_shutdown :: "string shutdown_sys"
  mn_signal :: "string option option \<times> unit"
  mn_triggers :: "string list"

text \<open>\<open>mn_triggers\<close> are the reasons with which the shutdown was triggered, in order.\<close>

definition main_init :: main_sys where
  "main_init = \<lparr>mn_phase = Starting, mn_shutdown = sys_new, mn_signal = (Some (Some ''user signaled shutdown''), ()), mn_triggers = []\<rparr>"

text \<open>Hooks that cannot be installed end the process at once.\<close>

definition main_start :: "unit result \<Rightarrow> main_sys" where
  "main_start hooks =
     (case hooks of
        Ok _ \<Rightarrow> main_init
      | Err e \<Rightarrow> main_init\<lparr>mn_phase := Exited (Err e), mn_signal := (None, ())\<rparr>
      | Panic e \<Rightarrow> main_init\<lparr>mn_phase := Exited (Panic e), mn_signal := (None, ())\<rparr>)"

definition main_after_run :: "unit result \<Rightarrow> main_phase" where
  "main_after_run started =
     (case started of
        Ok _ \<Rightarrow> AwaitingShutdown
      | Err e \<Rightarrow> Exited (Err (''Starting Light Client failed'' # e))
      | Panic m \<Rightarrow> Exited (Panic m))"

definition main_poll :: "waker \<Rightarrow> string controller \<Rightarrow> main_phase \<times> string controller" where
  "main_poll w c =
     (case poll_completed w c of
        (Ready reason, c') \<Rightarrow> (Exited (Err [''Running Light Client encountered an error'', reason]), c')
      | (Pending, c') \<Rightarrow> (AwaitingShutdown, c'))"

definition with_ctl :: "string controller \<Rightarrow> main_sys \<Rightarrow> main_sys" where
  "with_ctl c m = m\<lparr>mn_shutdown := (mn_shutdown m)\<lparr>ctl := c\<rparr>\<rparr>"

text \<open>The steps of the process. A task that triggers the shutdown does so directly or by dropping a trigger token. In
  \<open>other_task\<close> a task makes, clones or drops a token or polls one of the futures, which leaves the reason alone.\<close>

inductive main_step :: "main_sys \<Rightarrow> main_sys \<Rightarrow> bool" where
  run_returns: "mn_phase m = Starting \<Longrightarrow> main_step m (m\<lparr>mn_phase := main_after_run started\<rparr>)"
| main_polled: "mn_phase m = AwaitingShutdown \<Longrightarrow> main_poll w (ctl (mn_shutdown m)) = (ph, c) \<Longrightarrow>
    main_step m ((with_ctl c m)\<lparr>mn_phase := ph\<rparr>)"
| task_panics: "main_step m ((with_ctl (panic_hook (ctl (mn_shutdown m))) m)\<lparr>mn_triggers := mn_triggers m @ [''Panic occurred, shuting down'']\<rparr>)"
| task_triggers: "main_step m ((with_ctl (snd (trigger_shutdown (ctl (mn_shutdown m)) r)) m)\<lparr>mn_triggers := mn_triggers m @ [r]\<rparr>)"
| signal_pending: "poll_with_trigger (user_signal os) (mn_signal m) (ctl (mn_shutdown m)) = (Pending, fut, c) \<Longrightarrow>
    main_step m ((with_ctl c m)\<lparr>mn_signal := fut\<rparr>)"
| signal_received: "poll_with_trigger (user_signal os) (mn_signal m) (ctl (mn_shutdown m)) = (Ready (), fut, c) \<Longrightarrow>
    main_step m ((with_ctl c m)\<lparr>mn_signal := fut,
      mn_triggers := mn_triggers m @ (case fst (mn_signal m) of Some (Some r) \<Rightarrow> [r] | _ \<Rightarrow> [])\<rparr>)"
| other_task: "sd_step (mn_shutdown m) s \<Longrightarrow> c_reason (ctl s) = c_reason (ctl (mn_shutdown m)) \<Longrightarrow> main_step m (m\<lparr>mn_shutdown := s\<rparr>)"

section \<open>The invariant\<close>

text \<open>The controller is in a state that its operations reach, its reason is the first one, and a process that has ended has a reason for it.\<close>

definition exit_ok :: "main_sys \<Rightarrow> unit result \<Rightarrow> bool" where
  "exit_ok m res \<longleftrightarrow>
     (\<exists>e. res = Err (''Starting Light Client failed'' # e)) \<or> (\<exists>e. res = Panic e) \<or>
     (mn_triggers m \<noteq> [] \<and> res = Err [''Running Light Client encountered an error'', hd (mn_triggers m)] \<and>
      is_shutdown_completed (ctl (mn_shutdown m)))"

definition main_inv :: "main_sys \<Rightarrow> bool" where
  "main_inv m \<longleftrightarrow>
     sys_inv (mn_shutdown m) \<and>
     c_reason (ctl (mn_shutdown m)) = (case mn_triggers m of [] \<Rightarrow> None | r # _ \<Rightarrow> Some r) \<and>
     (\<forall>res. mn_phase m = Exited res \<longrightarrow> exit_ok m res)"

lemma with_ctl_simps [simp]:
  "mn_shutdown (with_ctl c m) = (mn_shutdown m)\<lparr>ctl := c\<rparr>" "mn_phase (with_ctl c m) = mn_phase m" "mn_triggers (with_ctl c m) = mn_triggers m"
  by (simp_all add: with_ctl_def)

text \<open>A trigger, whoever makes it.\<close>

lemma trigger_keeps_inv:
  assumes "main_inv m" "mn_phase m' = mn_phase m" "mn_triggers m' = mn_triggers m @ [r]"
    and "mn_shutdown m' = (mn_shutdown m)\<lparr>ctl := snd (shutdown_inner (ctl (mn_shutdown m)) r)\<rparr>"
  shows "main_inv m'"
proof -
  have step: "sd_step (mn_shutdown m) (mn_shutdown m')"
    using step_trigger [of "mn_shutdown m" r] assms(4) by (simp add: trigger_shutdown_def)
  then have "sys_inv (mn_shutdown m')" using assms(1) sys_inv_step by (auto simp: main_inv_def)
  moreover have "c_reason (ctl (mn_shutdown m')) = (case mn_triggers m' of [] \<Rightarrow> None | q # _ \<Rightarrow> Some q)"
    using assms by (cases "mn_triggers m") (auto simp: main_inv_def shutdown_inner_def notify_shutdown_complete_def Let_def)
  moreover have "exit_ok m' res" if "mn_phase m' = Exited res" for res
  proof -
    have "exit_ok m res" "sys_inv (mn_shutdown m)" using assms(1,2) that by (simp_all add: main_inv_def)
    then show ?thesis using assms(3) completed_stays [OF step] by (auto simp: exit_ok_def hd_append)
  qed
  ultimately show ?thesis by (simp add: main_inv_def)
qed

text \<open>A step of a task that leaves the reason alone.\<close>

lemma quiet_step_keeps_inv:
  assumes "main_inv m" "sd_step (mn_shutdown m) (mn_shutdown m')" "c_reason (ctl (mn_shutdown m')) = c_reason (ctl (mn_shutdown m))"
    and "mn_triggers m' = mn_triggers m" "\<And>res. mn_phase m' = Exited res \<Longrightarrow> mn_phase m = Exited res \<or> exit_ok m' res"
  shows "main_inv m'"
  using assms sys_inv_step [OF assms(2)] completed_stays [OF assms(2)] by (fastforce simp: main_inv_def exit_ok_def)

text \<open>A signal triggers with the reason in the token, if the future still has it.\<close>

lemma signal_polled:
  "poll_with_trigger (user_signal os) fut c = (Ready (), fut', c') \<Longrightarrow>
     c' = (case fst fut of Some (Some r) \<Rightarrow> snd (shutdown_inner c r) | _ \<Rightarrow> c)"
  by (auto simp: poll_with_trigger_def user_signal_def trigger_token_drop_def split: prod.splits if_splits option.splits)

lemma signal_keeps_inv:
  assumes "poll_with_trigger (user_signal os) (mn_signal m) (ctl (mn_shutdown m)) = (Ready (), fut, c)" "main_inv m"
  shows "main_inv ((with_ctl c m)\<lparr>mn_signal := fut, mn_triggers := mn_triggers m @ (case fst (mn_signal m) of Some (Some r) \<Rightarrow> [r] | _ \<Rightarrow> [])\<rparr>)"
proof (cases "\<exists>r. fst (mn_signal m) = Some (Some r)")
  case True
  then obtain r where r: "fst (mn_signal m) = Some (Some r)" by blast
  show ?thesis by (rule trigger_keeps_inv [OF assms(2), where r = r]) (use signal_polled [OF assms(1)] r in simp_all)
next
  case False
  then have "c = ctl (mn_shutdown m)" "(case fst (mn_signal m) of Some (Some r) \<Rightarrow> [r] | _ \<Rightarrow> []) = []"
    using signal_polled [OF assms(1)] by (auto split: option.splits)
  then show ?thesis using assms(2) by (simp add: main_inv_def exit_ok_def)
qed

lemma main_inv_init: "main_inv main_init"
  by (simp add: main_inv_def main_init_def sys_inv_new) (simp add: sys_new_def controller_new_def)

lemma main_inv_step: "main_step m m' \<Longrightarrow> main_inv m \<Longrightarrow> main_inv m'"
proof (induction rule: main_step.induct)
  case (run_returns m started)
  then show ?case by (cases started) (auto simp: main_inv_def exit_ok_def main_after_run_def)
next
  case (main_polled m w ph c)
  have c: "c = snd (poll_completed w (ctl (mn_shutdown m)))" using main_polled(2) by (auto simp: main_poll_def split: prod.splits poll.splits)
  have reason: "c_reason c = c_reason (ctl (mn_shutdown m))" by (simp add: c poll_completed_def split: nat.split option.split)
  show ?case
  proof (rule quiet_step_keeps_inv [OF main_polled(3)])
    show "sd_step (mn_shutdown m) (mn_shutdown ((with_ctl c m)\<lparr>mn_phase := ph\<rparr>))" using step_poll_completed [of "mn_shutdown m" w] c by simp
    fix res
    assume "mn_phase ((with_ctl c m)\<lparr>mn_phase := ph\<rparr>) = Exited res"
    then show "mn_phase m = Exited res \<or> exit_ok ((with_ctl c m)\<lparr>mn_phase := ph\<rparr>) res"
      using main_polled(2,3) reason
      by (auto simp: main_poll_def poll_completed_def main_inv_def exit_ok_def is_shutdown_completed_def split: nat.splits option.splits list.splits)
  qed (simp_all add: reason)
next
  case (task_panics m)
  then show ?case by (rule trigger_keeps_inv) (simp_all add: panic_hook_def trigger_shutdown_def)
next
  case (task_triggers m r)
  then show ?case by (rule trigger_keeps_inv) (simp_all add: trigger_shutdown_def)
next
  case (signal_pending os m fut c)
  then have "c = ctl (mn_shutdown m)" by (auto simp: poll_with_trigger_def user_signal_def split: prod.splits if_splits)
  then show ?case using signal_pending(2) by (simp add: main_inv_def exit_ok_def)
next
  case (signal_received os m fut c)
  then show ?case by (rule signal_keeps_inv)
next
  case (other_task m s)
  then show ?case by (intro quiet_step_keeps_inv [OF other_task(3)]) simp_all
qed

lemma exited_step: "main_step m m' \<Longrightarrow> mn_phase m = Exited res \<Longrightarrow> mn_phase m' = Exited res"
  by (induction rule: main_step.induct) simp_all

interpretation exited: invariant_steps main_step "\<lambda>m. mn_phase m = Exited res" for res
  by unfold_locales (rule exited_step)

interpretation main: invariant_steps main_step main_inv
  by unfold_locales (rule main_inv_step)

section \<open>Properties\<close>

text \<open>C19: When and how the process ends. A process whose hooks could not be installed ends with that error. A process that has ended otherwise failed to start, or its shutdown is complete, with no delay token left, and the error names the
  first reason of all that were given, be it a panic, a signal or an error of a task. A process that waits ends at its next poll as soon as a
  reason was given and the delay tokens are dropped, and goes on waiting before.\<close>

theorem main_ends_with_first_reason:
  assumes "main_step\<^sup>*\<^sup>* (main_start hooks) m"
  shows "(\<forall>e. hooks = Err e \<longrightarrow> mn_phase m = Exited (Err e)) \<and>
    (hooks = Ok () \<longrightarrow>
      (\<forall>res. mn_phase m = Exited res \<longrightarrow> exit_ok m res) \<and>
      (mn_phase m = AwaitingShutdown \<longrightarrow>
         fst (main_poll w (ctl (mn_shutdown m))) =
           (if mn_triggers m \<noteq> [] \<and> live_delay_tokens (mn_shutdown m) = 0
            then Exited (Err [''Running Light Client encountered an error'', hd (mn_triggers m)]) else AwaitingShutdown)))"
proof (cases hooks)
  case (Ok u)
  then have inv: "main_inv m" using main.inv_steps [OF assms] main_inv_init by (simp add: main_start_def)
  then have "c_delay_tokens (ctl (mn_shutdown m)) = live_delay_tokens (mn_shutdown m)"
    "c_reason (ctl (mn_shutdown m)) = (case mn_triggers m of [] \<Rightarrow> None | r # _ \<Rightarrow> Some r)"
    by (simp_all add: main_inv_def sys_inv_def)
  then have "fst (main_poll w (ctl (mn_shutdown m))) =
      (if mn_triggers m \<noteq> [] \<and> live_delay_tokens (mn_shutdown m) = 0
       then Exited (Err [''Running Light Client encountered an error'', hd (mn_triggers m)]) else AwaitingShutdown)"
    by (cases "mn_triggers m"; cases "live_delay_tokens (mn_shutdown m)") (simp_all add: main_poll_def poll_completed_def)
  with inv Ok show ?thesis by (simp add: main_inv_def)
qed (use exited.inv_steps [OF assms] in \<open>simp_all add: main_start_def\<close>)

text \<open>A task panics while the event loop holds a delay token, and the user sends a signal; the event loop ends.\<close>

lemma sample_main_run:
  "\<exists>m m'. main_step\<^sup>*\<^sup>* main_init m \<and> mn_phase m = AwaitingShutdown \<and> live_delay_tokens (mn_shutdown m) = 1 \<and>
     mn_triggers m = [''Panic occurred, shuting down'', ''user signaled shutdown''] \<and>
     main_step m m' \<and> mn_phase m' = AwaitingShutdown \<and> live_delay_tokens (mn_shutdown m') = 0 \<and> mn_triggers m' = mn_triggers m"
proof -
  let ?c1 = "increment_delay_tokens controller_new :: string controller"
  let ?s1 = "\<lparr>ctl = ?c1, trigger_cells = [], live_delay_tokens = 1\<rparr> :: string shutdown_sys"
  let ?m1 = "main_init\<lparr>mn_shutdown := ?s1\<rparr>"
  have s1: "main_step main_init ?m1"
    by (rule other_task)
      (use step_delay [of sys_new ?c1] in \<open>simp_all add: main_init_def sys_new_def delay_token_def controller_new_def increment_delay_tokens_def\<close>)
  let ?m2 = "?m1\<lparr>mn_phase := AwaitingShutdown\<rparr>"
  have s2: "main_step ?m1 ?m2" using run_returns [of ?m1 "Ok ()"] by (simp add: main_init_def main_after_run_def)
  let ?m3 = "(with_ctl (panic_hook ?c1) ?m2)\<lparr>mn_triggers := [''Panic occurred, shuting down'']\<rparr>"
  have s3: "main_step ?m2 ?m3" using task_panics [of ?m2] by (simp add: main_init_def)
  let ?m4 = "?m3\<lparr>mn_signal := (None, ()), mn_triggers := [''Panic occurred, shuting down'', ''user signaled shutdown'']\<rparr>"
  have s4: "main_step ?m3 ?m4"
    using signal_received [of "(Signaled, NotSignaled)" ?m3 "(None, ())" "panic_hook ?c1"]
    by (simp add: main_init_def with_ctl_def poll_with_trigger_def user_signal_def trigger_token_drop_def panic_hook_def trigger_shutdown_def shutdown_inner_def
        controller_new_def increment_delay_tokens_def)
  let ?m5 = "?m4\<lparr>mn_shutdown := (mn_shutdown ?m4)\<lparr>ctl := delay_token_drop (panic_hook ?c1), live_delay_tokens := 0\<rparr>\<rparr>"
  have s5: "main_step ?m4 ?m5"
    by (rule other_task)
      (use step_drop [of "mn_shutdown ?m4"] in \<open>simp_all add: delay_token_drop_def decrement_delay_tokens_def notify_shutdown_complete_def Let_def\<close>)
  have "main_step\<^sup>*\<^sup>* main_init ?m4" using s1 s2 s3 s4 by (meson rtranclp.rtrancl_into_rtrancl rtranclp.rtrancl_refl)
  then show ?thesis using s5 by (intro exI [of _ ?m4] exI [of _ ?m5]) (simp add: main_init_def)
qed

theorem main_ends_with_first_reason_witness:
  "\<exists>m. main_step\<^sup>*\<^sup>* main_init m \<and> mn_triggers m = [''Panic occurred, shuting down'', ''user signaled shutdown''] \<and>
     fst (main_poll 1 (ctl (mn_shutdown m))) = Exited (Err [''Running Light Client encountered an error'', ''Panic occurred, shuting down''])"
proof -
  obtain m m' where "main_step\<^sup>*\<^sup>* main_init m" "main_step m m'" "mn_phase m' = AwaitingShutdown" "live_delay_tokens (mn_shutdown m') = 0"
    "mn_triggers m' = [''Panic occurred, shuting down'', ''user signaled shutdown'']"
    using sample_main_run by metis
  moreover from this have run: "main_step\<^sup>*\<^sup>* main_init m'" by (meson rtranclp.rtrancl_into_rtrancl)
  moreover have "main_init = main_start (Ok ())" by (simp add: main_start_def)
  ultimately show ?thesis using main_ends_with_first_reason [of "Ok ()" m' 1] by (intro exI [of _ m']) simp
qed

end
