(* ===== verification/Float_Exact.thy ===== *)
theory Float_Exact
  imports Api_V1
begin

text \<open>
  Rounding. The models compute with real numbers where the sources compute with \<open>f64\<close>. Here the operations of \<open>f64\<close> are those of IEEE 754
  with rounding to the nearest value, ties to even, and the confidence (\<open>calculate_confidence\<close> in \<open>src/utils.rs\<close>) and its serialised
  form (\<open>serialised_confidence\<close> in \<open>src/api/v1/handlers.rs\<close>) are computed with them, operation by operation.

  The lemmas show that every intermediate result can be represented, so that the results are those of the real numbers.
\<close>

section \<open>Binary64\<close>

text \<open>The values of the format, its exponent for a number, and the rounding.\<close>

definition representable :: "real \<Rightarrow> bool" where
  "representable x \<longleftrightarrow> (\<exists>m e :: int. x = of_int m * 2 powr of_int e \<and> \<bar>m\<bar> < 2 ^ 53 \<and> - 1074 \<le> e \<and> e \<le> 971)"

definition f64_exponent :: "real \<Rightarrow> int" where
  "f64_exponent x = max (\<lfloor>log 2 \<bar>x\<bar>\<rfloor> - 52) (- 1074)"

definition round_even :: "real \<Rightarrow> int" where
  "round_even y = (let f = \<lfloor>y\<rfloor> in if y - of_int f < 1 / 2 \<or> y - of_int f = 1 / 2 \<and> even f then f else f + 1)"

definition f64_round :: "real \<Rightarrow> f64" where
  "f64_round x =
     (if x = 0 then Fin 0
      else (let y = of_int (round_even (x / 2 powr of_int (f64_exponent x))) * 2 powr of_int (f64_exponent x)
            in if \<bar>y\<bar> < 2 ^ 1024 then Fin y else if 0 < x then PosInf else NegInf))"

section \<open>Operations\<close>

text \<open>The cast of an unsigned integer, the quotient by one (so a zero divisor is the positive zero), the difference and the product with
  a positive number.\<close>

definition f64_of_nat :: "nat \<Rightarrow> f64" where
  "f64_of_nat n = f64_round (real n)"

fun f64_div :: "real \<Rightarrow> f64 \<Rightarrow> f64" where
  "f64_div a (Fin b) = (if b = 0 then (if 0 < a then PosInf else if a < 0 then NegInf else NaN) else f64_round (a / b))"
| "f64_div a NaN = NaN"
| "f64_div a _ = Fin 0"

fun f64_minus :: "real \<Rightarrow> f64 \<Rightarrow> f64" where
  "f64_minus a (Fin b) = f64_round (a - b)"
| "f64_minus a PosInf = NegInf"
| "f64_minus a NegInf = PosInf"
| "f64_minus a NaN = NaN"

fun f64_times :: "real \<Rightarrow> f64 \<Rightarrow> f64" where
  "f64_times a (Fin b) = f64_round (a * b)"
| "f64_times a PosInf = (if 0 < a then PosInf else if a < 0 then NegInf else NaN)"
| "f64_times a NegInf = (if 0 < a then NegInf else if a < 0 then PosInf else NaN)"
| "f64_times a NaN = NaN"

text \<open>A cast to \<open>u64\<close> truncates and saturates.\<close>

fun f64_as_u64 :: "f64 \<Rightarrow> nat" where
  "f64_as_u64 (Fin y) = (if y \<le> 0 then 0 else min (nat \<lfloor>y\<rfloor>) (2 ^ 64 - 1))"
| "f64_as_u64 PosInf = 2 ^ 64 - 1"
| "f64_as_u64 NegInf = 0"
| "f64_as_u64 NaN = 0"

section \<open>The computations of the sources\<close>

definition calculate_confidence_f64 :: "u32 \<Rightarrow> f64" where
  "calculate_confidence_f64 cnt = f64_times 100 (f64_minus 1 (f64_div 1 (f64_of_nat (2 ^ unat cnt mod 2 ^ 32))))"

definition serialised_confidence_f64 :: "u32 \<Rightarrow> f64 \<Rightarrow> string option" where
  "serialised_confidence_f64 block factor = Some (show_nat (or (push_bit 32 (unat block)) (f64_as_u64 (f64_times (10 ^ 7) factor))))"

text \<open>\<open>(-((1f64 - (x / 100f64)).log2())).ceil() as u32\<close>. The precision of \<open>log2\<close> is not specified, so its value on the positive numbers is a
  parameter; it is minus infinity at zero and not a number below, and the cast saturates.\<close>

definition count_for_f64 :: "(real \<Rightarrow> real) \<Rightarrow> real \<Rightarrow> u32" where
  "count_for_f64 log2 x =
     (case f64_minus 1 (f64_div x (Fin 100)) of
        Fin y \<Rightarrow>
          if y = 0 then 4294967295
          else if y < 0 then 0
          else (let n = \<lceil>- log2 y\<rceil> in if n < 0 then 0 else if n > 4294967295 then 4294967295 else word_of_int n)
      | _ \<Rightarrow> 0)"

fun count_for_literal :: "(real \<Rightarrow> real) \<Rightarrow> f64 \<Rightarrow> u32" where
  "count_for_literal log2 (Fin x) = count_for_f64 log2 x"
| "count_for_literal log2 _ = 0"

definition cell_count_for_confidence_f64 :: "(real \<Rightarrow> real) \<Rightarrow> f64 \<Rightarrow> u32" where
  "cell_count_for_confidence_f64 log2 conf =
     (let fallback = count_for_literal log2 (f64_round (993 / 10));
          cell_count =
            (case conf of
               Fin c \<Rightarrow> if 50 \<le> c \<and> c \<le> 100 then count_for_f64 log2 c else fallback
             | _ \<Rightarrow> fallback)
      in if cell_count \<le> 1 then 1
         else if cell_count > CELL_COUNT_99_99 then CELL_COUNT_99_99
         else cell_count)"

section \<open>Lemmas\<close>

lemma round_even_int [simp]: "round_even (of_int n) = n"
  by (simp add: round_even_def)

lemma representable_exponent:
  assumes "x = of_int m * 2 powr of_int e" "\<bar>m\<bar> < 2 ^ 53" "- 1074 \<le> e" "x \<noteq> 0"
  shows "f64_exponent x \<le> e"
proof -
  have "\<bar>x\<bar> < 2 ^ 53 * 2 powr of_int e"
    using assms(1,2) of_int_less_iff [of "\<bar>m\<bar>" "2 ^ 53", where ?'a = real] by (simp add: abs_mult mult_strict_right_mono)
  also have "\<dots> = 2 powr of_int (53 + e)" by (simp add: powr_add flip: powr_realpow)
  finally have "log 2 \<bar>x\<bar> < of_int (53 + e)" using assms(4) by (simp add: log_less_iff)
  then have "\<lfloor>log 2 \<bar>x\<bar>\<rfloor> < 53 + e" by (simp add: floor_less_iff)
  then show ?thesis using assms(3) by (simp add: f64_exponent_def)
qed

lemma f64_round_exact:
  assumes "representable x"
  shows "f64_round x = Fin x"
proof (cases "x = 0")
  case False
  obtain m e where x: "x = of_int m * 2 powr of_int e" "\<bar>m\<bar> < 2 ^ 53" "- 1074 \<le> e" "e \<le> 971"
    using assms by (auto simp: representable_def)
  obtain d where e: "e = f64_exponent x + int d"
    using representable_exponent [OF x(1-3) False] by (metis zle_iff_zadd)
  have x': "x = of_int (m * 2 ^ d) * 2 powr of_int (f64_exponent x)"
    by (subst x(1), subst e) (simp add: powr_add powr_realpow)
  then have "x / 2 powr of_int (f64_exponent x) = of_int (m * 2 ^ d)" by (metis nonzero_mult_div_cancel_right powr_eq_0_iff zero_neq_numeral)
  then have "of_int (round_even (x / 2 powr of_int (f64_exponent x))) * 2 powr of_int (f64_exponent x) = x"
    using x' by (simp only: round_even_int)
  moreover have "\<bar>x\<bar> < 2 ^ 1024"
  proof -
    have "\<bar>x\<bar> < 2 ^ 53 * 2 powr of_int e"
      using x(1,2) of_int_less_iff [of "\<bar>m\<bar>" "2 ^ 53", where ?'a = real] by (simp add: abs_mult mult_strict_right_mono)
    also have "\<dots> \<le> 2 ^ 53 * 2 powr 971" using x(4) by (intro mult_left_mono powr_mono) simp_all
    also have "\<dots> = 2 ^ 1024" by (simp add: powr_numeral)
    finally show ?thesis .
  qed
  ultimately show ?thesis using False by (simp add: f64_round_def)
qed (simp add: f64_round_def)

lemma representable_frac:
  assumes "x = of_int m * 2 ^ k / 2 ^ n" "\<bar>m\<bar> < 2 ^ 53" "k \<le> 971" "n \<le> 1074"
  shows "representable x"
proof -
  have "(2 :: real) powr of_int (int k - int n) = 2 ^ k / 2 ^ n" by (simp add: powr_diff powr_realpow)
  then show ?thesis unfolding representable_def using assms by (intro exI [of _ m] exI [of _ "int k - int n"]) simp
qed

text \<open>The numbers that occur, for fewer than 32 cells.\<close>

lemma confidence_representable:
  assumes "n < 32"
  shows "representable (2 ^ n)" "representable (1 / 2 ^ n)" "representable (1 - 1 / 2 ^ n)" "representable (100 * (1 - 1 / 2 ^ n))"
    "representable (10 ^ 7 * (100 * (1 - 1 / 2 ^ n)))"
proof -
  have le: "(2 :: int) ^ n \<le> 2 ^ 31" using assms by (intro power_increasing) simp_all
  have pos: "(1 :: int) \<le> 2 ^ n" by simp
  show "representable (2 ^ n)" by (rule representable_frac [of _ "2 ^ n" 0 0]) (use le in simp_all)
  show "representable (1 / 2 ^ n)" by (rule representable_frac [of _ 1 0 n]) (use assms in simp_all)
  show "representable (1 - 1 / 2 ^ n)"
    by (rule representable_frac [of _ "2 ^ n - 1" 0 n]) (use le pos assms in \<open>simp_all add: field_simps\<close>)
  show "representable (100 * (1 - 1 / 2 ^ n))"
    by (rule representable_frac [of _ "100 * (2 ^ n - 1)" 0 n]) (use le pos assms in \<open>simp_all add: field_simps\<close>)
  show "representable (10 ^ 7 * (100 * (1 - 1 / 2 ^ n)))"
    by (rule representable_frac [of _ "1953125 * (2 ^ n - 1)" 9 n]) (use le pos assms in \<open>simp_all add: field_simps\<close>)
qed

lemma pow_wraps: "(2 :: nat) ^ n mod 2 ^ 32 = (if n < 32 then 2 ^ n else 0)"
proof (cases "n < 32")
  case True
  then have "(2 :: nat) ^ n < 2 ^ 32" by (intro power_strict_increasing) simp_all
  then show ?thesis using True by simp
next
  case False
  then have "(2 :: nat) ^ 32 dvd 2 ^ n" by (intro le_imp_power_dvd) simp
  then show ?thesis using False by (simp only: mod_eq_0_iff_dvd if_False)
qed

lemma calculate_confidence_f64_eq: "calculate_confidence_f64 cnt = calculate_confidence cnt"
proof (cases "unat cnt < 32")
  case True
  then show ?thesis
    using confidence_representable [OF True, THEN f64_round_exact]
    by (simp add: calculate_confidence_f64_def pow_wraps [simplified] f64_of_nat_def calculate_confidence_small)
next
  case False
  then show ?thesis
    by (simp add: calculate_confidence_f64_def calculate_confidence_def Let_def pow_wraps [simplified] f64_of_nat_def f64_round_def)
qed

lemma scaled_factor_f64: "f64_as_u64 (f64_times (10 ^ 7) (calculate_confidence cnt)) = scaled_factor (calculate_confidence cnt)"
proof (cases "unat cnt < 32")
  case True
  then show ?thesis using f64_round_exact [OF confidence_representable(5) [OF True]] by (simp add: calculate_confidence_small Let_def)
next
  case False
  then show ?thesis by (simp add: calculate_confidence_def Let_def pow_wraps [simplified])
qed

section \<open>The number of cells\<close>

lemma round_even_error: "\<bar>of_int (round_even y) - y\<bar> \<le> 1 / 2"
  using floor_correct [of y] by (auto simp: round_even_def Let_def)

lemma f64_round_error:
  assumes "\<bar>x\<bar> \<le> 1"
  shows "\<exists>z. f64_round x = Fin z \<and> \<bar>z - x\<bar> \<le> 1 / 2 ^ 53"
proof (cases "x = 0")
  case False
  let ?u = "2 powr of_int (f64_exponent x) :: real"
  let ?z = "of_int (round_even (x / ?u)) * ?u"
  have "log 2 \<bar>x\<bar> \<le> 0" using assms False by (simp add: log_le_zero_cancel_iff)
  then have "\<lfloor>log 2 \<bar>x\<bar>\<rfloor> \<le> 0" by (simp add: floor_le_iff)
  then have "f64_exponent x \<le> - 52" by (simp add: f64_exponent_def)
  then have "?u \<le> 2 powr - 52" by (intro powr_mono) simp_all
  then have u: "?u \<le> 1 / 2 ^ 52" by (simp add: powr_minus powr_numeral divide_simps)
  have "\<bar>?z - x\<bar> = \<bar>of_int (round_even (x / ?u)) - x / ?u\<bar> * ?u"
    by (subst abs_of_pos [of ?u, symmetric], simp, subst abs_mult [symmetric]) (simp add: left_diff_distrib)
  also have "\<dots> \<le> 1 / 2 * (1 / 2 ^ 52)" by (intro mult_mono round_even_error u) simp_all
  finally have err: "\<bar>?z - x\<bar> \<le> 1 / 2 ^ 53" by simp
  then have "\<bar>?z - x\<bar> \<le> 1" by (rule order_trans) simp
  then have "\<bar>?z\<bar> \<le> 2" using assms by linarith
  then have "\<bar>?z\<bar> < 2 ^ 1024" by (rule le_less_trans) simp
  then show ?thesis using False err by (simp add: f64_round_def Let_def)
qed (simp add: f64_round_def)

text \<open>The argument of the logarithm.\<close>

lemma sampled_share:
  assumes "50 \<le> c" "c \<le> 100 * (1 - 1 / 2 ^ 14)"
  shows "\<exists>y. f64_minus 1 (f64_div c (Fin 100)) = Fin y \<and> \<bar>y - (1 - c / 100)\<bar> \<le> 1 / 2 ^ 52 \<and> 0 < y"
proof -
  have "\<bar>c / 100\<bar> \<le> 1" using assms by simp
  then obtain a where a: "f64_round (c / 100) = Fin a" "\<bar>a - c / 100\<bar> \<le> 1 / 2 ^ 53" using f64_round_error by blast
  from a(2) have "\<bar>a - c / 100\<bar> \<le> 1 / 2" by (rule order_trans) simp
  then have "0 \<le> a" "a \<le> 2" using assms abs_le_D1 [of "a - c / 100" "1 / 2"] abs_le_D2 [of "a - c / 100" "1 / 2"] by simp_all
  then have "\<bar>1 - a\<bar> \<le> 1" by simp
  then obtain y where y: "f64_round (1 - a) = Fin y" "\<bar>y - (1 - a)\<bar> \<le> 1 / 2 ^ 53" using f64_round_error by blast
  have "\<bar>y - (1 - c / 100)\<bar> \<le> \<bar>y - (1 - a)\<bar> + \<bar>a - c / 100\<bar>" by linarith
  also have "\<dots> \<le> 1 / 2 ^ 53 + 1 / 2 ^ 53" by (intro add_mono y(2) a(2))
  finally have err: "\<bar>y - (1 - c / 100)\<bar> \<le> 1 / 2 ^ 52" by simp
  moreover have "0 < y"
  proof -
    have "\<bar>y - (1 - c / 100)\<bar> \<le> 1 / 2 ^ 15" using err by (rule order_trans) simp
    moreover have "1 / 2 ^ 14 \<le> 1 - c / 100" using assms(2) by simp
    ultimately have "1 / 2 ^ 14 - 1 / 2 ^ 15 \<le> y" by linarith
    then show ?thesis by simp
  qed
  ultimately show ?thesis using a(1) y(1) by simp
qed

lemma two_powr_bound: "0 \<le> e \<Longrightarrow> 1 - e \<le> 2 powr - e"
  for e :: real
proof -
  assume e: "0 \<le> e"
  have "ln 2 \<le> (1 :: real)" using ln_le_minus_one [of 2] by simp
  then have "1 - e \<le> 1 + - e * ln 2" using e mult_left_le [of "ln 2" e] by simp
  also have "\<dots> \<le> exp (- e * ln 2)" by (rule exp_ge_add_one_self)
  finally show ?thesis by (simp add: powr_def)
qed

text \<open>An error of the logarithm moves the confidence by as much.\<close>

lemma count_reaches_share:
  assumes "0 < y" "\<bar>l - log 2 y\<bar> \<le> e" "- l \<le> real m" "0 \<le> e"
  shows "1 / 2 ^ m \<le> y + e"
proof -
  have "- real m - e \<le> log 2 y" using assms(2,3) by linarith
  then have "2 powr (- real m - e) \<le> y" using assms(1) by (simp add: le_log_iff)
  then have "1 / 2 ^ m * 2 powr - e \<le> y" by (simp add: powr_diff powr_minus powr_realpow divide_simps)
  moreover have "1 / 2 ^ m * (1 - e) \<le> 1 / 2 ^ m * 2 powr - e" using two_powr_bound [OF assms(4)] by (intro mult_left_mono) simp_all
  moreover have "1 / 2 ^ m * e \<le> e" using assms(4) by (intro mult_left_le_one_le) simp_all
  ultimately show ?thesis by (simp add: right_diff_distrib)
qed

text \<open>The cases of the number of cells, by the rounded logarithm.\<close>

lemma cell_count_f64_bounds:
  assumes "f64_minus 1 (f64_div c (Fin 100)) = Fin y" "0 < y" "50 \<le> c" "c \<le> 100"
  shows "unat (cell_count_for_confidence_f64 log2 (Fin c)) \<le> 14"
    and "unat (cell_count_for_confidence_f64 log2 (Fin c)) = 14 \<or> - log2 y \<le> real (unat (cell_count_for_confidence_f64 log2 (Fin c)))"
proof -
  define k where "k = \<lceil>- log2 y\<rceil>"
  let ?x = "count_for_f64 log2 c"
  have x: "?x = (if k < 0 then 0 else if k > 4294967295 then 4294967295 else word_of_int k)"
    using assms(1,2) by (simp add: count_for_f64_def k_def)
  then have small: "unat ?x = nat k" if "0 \<le> k" "k \<le> 4294967295"
    using that by (simp add: unat_eq_nat_uint uint_word_of_int)
  have le: "- log2 y \<le> of_int k" by (simp add: k_def)
  have cell: "cell_count_for_confidence_f64 log2 (Fin c) = (if ?x \<le> 1 then 1 else if ?x > 14 then 14 else ?x)"
    using assms(3,4) by (simp add: cell_count_for_confidence_f64_def Let_def CELL_COUNT_99_99_def)
  then show "unat (cell_count_for_confidence_f64 log2 (Fin c)) \<le> 14" by (auto simp: word_le_nat_alt word_less_nat_alt)
  consider "k \<le> 1" | "1 < k" "k \<le> 14" | "14 < k" by linarith
  then show "unat (cell_count_for_confidence_f64 log2 (Fin c)) = 14 \<or> - log2 y \<le> real (unat (cell_count_for_confidence_f64 log2 (Fin c)))"
  proof cases
    case 1
    then have "?x \<le> 1" using x small by (cases "k < 0") (auto simp: word_le_nat_alt)
    then show ?thesis using cell le 1 by simp
  next
    case 2
    then have "unat (cell_count_for_confidence_f64 log2 (Fin c)) = nat k" using cell small by (auto simp: word_le_nat_alt word_less_nat_alt)
    then show ?thesis using le 2 by (simp only:) simp
  next
    case 3
    then have "14 < ?x" using x small by (cases "k \<le> 4294967295") (auto simp: word_less_nat_alt)
    then show ?thesis using cell by (simp add: word_le_nat_alt word_less_nat_alt)
  qed
qed

section \<open>Properties\<close>

text \<open>C23: The confidence computed with rounding at every operation is the one of the real numbers, for every number of cells, those for which the power
  of two overflows included; and so is the serialised confidence.\<close>

theorem confidence_free_of_rounding:
  "calculate_confidence_f64 cnt = calculate_confidence cnt \<and>
   serialised_confidence_f64 block (calculate_confidence_f64 cnt) = serialised_confidence block (calculate_confidence cnt)"
  using scaled_factor_f64 [of cnt] by (simp add: calculate_confidence_f64_eq serialised_confidence_f64_def serialised_confidence_def serialised_number_def)



end
