(* ===== verification/Spec2Isabelle.thy ===== *)
theory Spec2Isabelle
  imports Subscriptions Sync_Finality Event_Loop Config Telemetry Kad_Store Rpc_Methods Crawl_Client Maintenance Api_V2
    Db_Refinement Shutdown_Phases Typed_Database End_To_End Startup Program Program_Confidence Http_Routes Swarm_Setup Record_Stores Analyzer Api_Compat
    P2p_Requests Main_Task Float_Exact
begin

text \<open>
  Verification of the Avail light client, a Rust program that checks the data availability of the blocks of the Avail
  chain by sampling random cells, keeps the finality of the chain under watch, shares cells over a Kademlia
  DHT, and serves what it found out over HTTP and web sockets.

  \<^bold>\<open>How the program works.\<close> \<open>run\<close> (\<open>src/bin/avail-light.rs\<close>) loads the configuration, opens the database, starts the peer-to-peer
  event loop and the RPC client, and spawns one task per client. The subscription loop pairs the headers and the justifications that a node
  pushes, checks finality, and broadcasts the finalized headers. For each of them the light client samples cells (or the fat client
  fetches a partition of the block), through the network client that asks the DHT first and the node for the rest, and verifies every cell against the
  commitments in the header. Verified blocks go to the application client, which fetches, decodes and stores the data of an application, to the
  maintenance task and to the subscribers of the API. The sync client does the same for blocks before the start, the
  finality sync checks the chain of headers and validator sets from genesis or a checkpoint. All tasks share the database, the state
  behind a mutex, the queue of commands to the event loop, the metrics and the shutdown controller.

  \<^bold>\<open>The theories,\<close> with the code under \<open>src/\<close> of the crate that each of them models:

  \<^item> \<open>Prelude\<close>, \<open>Text_Format\<close>: machine integers, the result type with errors and panics, operations with state (\<open>op\<close>), the parts of
    Rust's standard library that the sources use, the rewrite collections, and the locale \<open>invariant_steps\<close> for invariants of step relations.
  \<^item> \<open>Chain\<close>: headers, block ranges, \<open>State\<close> and \<open>BlockVerified\<close> (\<open>types.rs\<close>), the helpers of \<open>utils.rs\<close>; the record \<open>kate\<close> holds the
    operations of \<open>kate_recovery\<close>, \<open>avail_core\<close> and \<open>sp_core\<close>. \<open>Samples\<close>: one instance of them, for examples only.
  \<^item> \<open>Finality\<close>: \<open>check_finality\<close> and its parts (\<open>finality.rs\<close>).
  \<^item> \<open>Data\<close>: keys, \<open>MemoryDB\<close>, \<open>RocksDB\<close> (\<open>data.rs\<close>, \<open>data/mem_db.rs\<close>, \<open>data/rocks_db.rs\<close>); \<open>Db_Refinement\<close>: both refine the map from keys to
    values; \<open>Db_Contract\<close>: every writer keeps what is admitted under each key, for any such contract; \<open>Typed_Database\<close>: the types of the values.
  \<^item> \<open>Shutdown\<close>: controller, tokens and futures (\<open>shutdown.rs\<close>, \<open>shutdown/*.rs\<close>) and the step relation \<open>sd_step\<close> in which all tasks work on
    them; \<open>Shutdown_Phases\<close>: it refines the phases running, draining, down.
  \<^item> \<open>Rpc_Api\<close>, \<open>Rpc_Client\<close>, \<open>Rpc_Methods\<close>: the node as its callers see it, the client with its retries and node switches,
    and its methods and stream of subscriptions (\<open>network/rpc/client.rs\<close>, \<open>consts.rs\<close>); \<open>Sampling\<close>: the node list, the cell count and the random cells (\<open>network/rpc.rs\<close>); \<open>Float_Exact\<close>: the confidence and the cell
    count with rounding;
    \<open>Subscriptions\<close>: \<open>network/rpc/subscriptions.rs\<close>; \<open>Sync_Finality\<close>: \<open>sync_finality.rs\<close>.
  \<^item> \<open>Kad_Store\<close>, \<open>Record_Stores\<close>: the record stores (\<open>network/p2p/kad_*.rs\<close>); \<open>P2p_Client\<close>: the calls of the DHT client (\<open>network/p2p/client.rs\<close>);
    \<open>Event_Loop\<close>: commands, events and the loop (\<open>network/p2p/event_loop.rs\<close>, \<open>network/p2p.rs\<close>); \<open>P2p_Requests\<close>: the requests to it and its replies; \<open>Swarm_Setup\<close>: \<open>build_swarm\<close> and
    \<open>EventLoop::new\<close>; \<open>Analyzer\<close>: \<open>network/p2p/analyzer.rs\<close>; \<open>Network\<close>: the verified fetch (\<open>network.rs\<close>, \<open>proof.rs\<close>).
  \<^item> \<open>Config\<close>: \<open>RuntimeConfig\<close>, what is derived from it and its loading (\<open>types.rs\<close>); \<open>Telemetry\<close>: \<open>telemetry/*.rs\<close>.
  \<^item> \<open>Client_State\<close>: the state that the block-processing tasks share; \<open>Light_Client\<close>, \<open>Sync_Client\<close>, \<open>Fat_Client\<close>, \<open>App_Client\<close>,
    \<open>Crawl_Client\<close>, \<open>Maintenance\<close>: the files of these names.
  \<^item> \<open>Api_V1\<close>, \<open>Api_Types\<close>, \<open>Api_V2\<close>: the handlers, types and web socket of both versions of the API (\<open>api/v1\<close>, \<open>api/v2\<close>);
    \<open>Http_Routes\<close>: the routes and the server (\<open>api/v1/mod.rs\<close>, \<open>api/v2/mod.rs\<close>, \<open>api/server.rs\<close>); \<open>Api_Compat\<close>:
    \<open>bin/api_compat_test.rs\<close>.
  \<^item> \<open>Startup\<close>: \<open>run\<close> (\<open>bin/avail-light.rs\<close>); \<open>Main_Task\<close>: \<open>main\<close>, the panic hook and the signals; \<open>Program\<close>: the tasks that \<open>run\<close> spawns, interleaved;
    \<open>Program_Confidence\<close>: where the counts in the database come from; \<open>End_To_End\<close>: the
    properties that span the light client and what it uses.

  \<^bold>\<open>How code is translated.\<close> A struct is a record, an enum a datatype, a machine integer a word of its width, on which arithmetic wraps as it does in
  the release build. A fallible function returns \<open>res\<close>, in which an error is its chain of messages and a panic is a third case; a function that changes
  state is an \<open>op\<close>, which returns the result together with the new state, so the state after an error is known. A task is a
  fold over the inputs that its loop receives; what is sent to channels, metrics and wakers is logged in the state. Code of other
  crates is a field of a record of parameters, and what is assumed of it is a locale or a hypothesis.

  \<^bold>\<open>Interfaces as locales.\<close> \<open>key_value\<close> is the contract of the trait \<open>Database\<close>; \<open>RocksDB\<close> (over \<open>rocks_backend\<close>, the contract of the crate
  \<open>rocksdb\<close>), \<open>MemoryDB\<close> and the abstract database are interpretations. \<open>record_store\<close> is the one of the Kademlia stores, \<open>provider_store\<close> extends it to the provider records. \<open>cell_source\<close> is what the
  network client relies on when it asks a node, and \<open>network_client\<close> what the clients rely on when they fetch;
  \<open>request_kate_proof\<close> and \<open>fetch_verified\<close> interpret them. \<open>db_writers\<close> is a contract on the entries of the database that every task keeps whose values it
  admits, \<open>db_contract\<close> extends it to the counts of verified cells; they are
  interpreted on the types of the values, on the numbers of the stored headers and on the samples behind the counts. \<open>invariant_steps\<close> carries an invariant along the steps of
  the shutdown controller, of the requests, of the process and of the whole program.

  \<^bold>\<open>What is shown.\<close>
  \<^item> Finality: the check accepts exactly the justifications with enough valid precommits for descendants; two of them for one set
    share a third of the validators; the bounded search for an ancestor decides reachability.
  \<^item> The subscription loop sends the headers after the start once each and in order, and the last finalized one is backed by a justification that
    was checked against its validator set; its stream of subscriptions survives the failures of nodes and takes items from admitted nodes only. The finality sync has checked every link and every change of the set up to
    the head, and all checkpoints it stores, also in runs that fail, are backed.
  \<^item> Sampling: the cell count is the smallest for the configured confidence, the random cells are distinct and inside the
    matrix and are found with enough draws; every fetched cell is verified; a confidence that the light client reports is at least the configured one and
    the API reports the same. The sync client, fat client and application client store and upload what they verified or got.
  \<^item> Database: refinement of a map, type safety; record stores: bounds and lookup laws; event loop: the counters of uploads never wrap and the
    report is made once; metrics: every count arrives once.
  \<^item> Requests to the event loop: it refines a table of requests, in which each is answered at most once, with a reply of its type for its key or peer.
  \<^item> Shutdown: refinement of the phases; no wake-up is lost under any interleaving. The process ends when the shutdown is complete, with the first reason
    among panics, signals and errors.
  \<^item> The whole program: with all tasks interleaved in any order, and whatever the DHT and the nodes answer, the state only progresses, so the
    status of a block that the API reports never goes back, every value in the database has the type of its key, and every confidence
    that the API reports is computed from a sample of verified cells.
  \<^item> Configuration, API and start: precedence of the sources, round trips of the text formats, requests reach exactly the handler of their method and
    path, messages reach exactly the subscribers, requests and responses correlate, and which tasks run.
  \<^item> Where the code deviates from what it means to do, a theorem shows the deviation: repeated signers are counted, a late
    justification stores a checkpoint with a later validator set, an unverified row of the DHT is stored, records in RocksDB never
    expire, a caller that has gone away ends the event loop, and others next to the code they are about.

  \<^bold>\<open>Bounds.\<close> The ancestor search is bounded by the size of the ancestry map, as in the
  code, and shown to be exact; drawing random cells consumes a list of draws and is shown to end once the list has enough
  distinct ones; the stream of subscriptions, which never ends by itself, is cut after a number of reconnections, and what is shown holds for every
  number. The loop of the finality sync ends by the distance to the last block modulo \<open>2^32\<close>. Loops over received events end with
  their input.

  \<^bold>\<open>Not modelled.\<close> Floating point numbers are extended reals; \<open>Float_Exact\<close> has the rounding of IEEE 754, shows that it changes no confidence, and bounds
  what it does to the number of cells. Logging, the socket of
  the server and the installation of the OpenTelemetry pipeline are I/O. The tasks are interleaved message by message and block by block in \<open>Program\<close>, and at the
  granularity of an operation in \<open>Shutdown\<close>; a block is processed without other tasks in between, although the code holds the lock of the
  state only for single updates. A receiver that lags behind its channel gets an error and its task ends, which \<open>Program\<close> has as a task
  that takes no more steps.
\<close>

end
